(* ===== verification/PyBase.thy ===== *)
theory PyBase
  imports Complex_Main "HOL-Library.AList" "HOL-Library.List_Lexorder" "HOL-Library.Product_Lexorder"
    "HOL-Library.Sublist" "HOL-Library.Multiset"
begin

text \<open>
  The prelude: the part of Python's data model the raucle sources use, as HOL types.

  A JSON-like Python object is a \<open>pyval\<close>; a \<open>str\<close> is the list of its code points (\<open>ustr\<close>),
  \<open>bytes\<close> the list of its byte values, a \<open>dict\<close> with string keys an association list in insertion
  order.  A raised exception is the left side of a result \<open>'a res\<close>; \<open>rbind\<close> sequences results,
  \<open>rmap\<close>, \<open>rfirst\<close> and \<open>rall\<close> are the loops of the sources: collect, return at the first hit, and the
  built-in \<open>all\<close>.  The values are the ones \<open>json.loads\<close> makes: no tuples, sets or bytes inside them and
  only string keys.
\<close>

section \<open>Automation collections\<close>

named_theorems py_simps \<open>evaluation rules of the Python primitives\<close>
named_theorems res_iff \<open>characterisations of successful results\<close>

section \<open>Strings and values\<close>

type_synonym ustr = "nat list"
type_synonym bytes = "nat list"

definition lit :: "string \<Rightarrow> ustr" where
  "lit s = map of_char s"

lemma lit_eq_iff [simp]: "lit s = lit t \<longleftrightarrow> s = t"
  unfolding lit_def by (rule inj_map_eq_map) (rule injI, simp)

lemma lit_Nil [simp]: "lit [] = []"
  by (simp add: lit_def)

lemma lit_eq_Nil [simp]: "lit s = [] \<longleftrightarrow> s = []" "[] = lit s \<longleftrightarrow> s = []"
  by (auto simp: lit_def)

lemma lit_append: "lit (s @ t) = lit s @ lit t"
  by (simp add: lit_def)

lemma length_lit [simp]: "length (lit s) = length s"
  by (simp add: lit_def)

text \<open>A finite double is the rational it denotes.\<close>

datatype pyfloat = Finite rat | PosInf | NegInf | NaN

datatype pyval =
    PNone
  | PBool bool
  | PInt int
  | PFloat pyfloat
  | PStr ustr
  | PList "pyval list"
  | PDict "(ustr \<times> pyval) list"

type_synonym pydict = "(ustr \<times> pyval) list"

primrec type_name :: "pyval \<Rightarrow> string" where
  "type_name PNone = ''NoneType''"
| "type_name (PBool b) = ''bool''"
| "type_name (PInt i) = ''int''"
| "type_name (PFloat f) = ''float''"
| "type_name (PStr s) = ''str''"
| "type_name (PList xs) = ''list''"
| "type_name (PDict d) = ''dict''"

primrec is_str :: "pyval \<Rightarrow> bool" where
  "is_str PNone = False"
| "is_str (PBool b) = False"
| "is_str (PInt i) = False"
| "is_str (PFloat f) = False"
| "is_str (PStr s) = True"
| "is_str (PList xs) = False"
| "is_str (PDict d) = False"

primrec str_of :: "pyval \<Rightarrow> ustr" where
  "str_of PNone = []"
| "str_of (PBool b) = []"
| "str_of (PInt i) = []"
| "str_of (PFloat f) = []"
| "str_of (PStr s) = s"
| "str_of (PList xs) = []"
| "str_of (PDict d) = []"

primrec truthy :: "pyval \<Rightarrow> bool" where
  "truthy PNone = False"
| "truthy (PBool b) = b"
| "truthy (PInt i) = (i \<noteq> 0)"
| "truthy (PFloat f) = (f \<noteq> Finite 0)"
| "truthy (PStr s) = (s \<noteq> [])"
| "truthy (PList xs) = (xs \<noteq> [])"
| "truthy (PDict d) = (d \<noteq> [])"

lemma is_str_iff: "is_str v \<longleftrightarrow> (\<exists>s. v = PStr s)"
  by (cases v) auto

section \<open>Exceptions and results\<close>

text \<open>Each constructor carries a short tag naming the check that raised.\<close>

datatype pyexc =
    ValueError string
  | TypeError string
  | AttributeError string
  | KeyError string
  | PolicyUnproven string
  | PermissionError string
  | PQUnavailable string

type_synonym 'a res = "pyexc + 'a"

definition rbind :: "'e + 'a \<Rightarrow> ('a \<Rightarrow> 'e + 'b) \<Rightarrow> 'e + 'b" where
  "rbind m f = (case m of Inl e \<Rightarrow> Inl e | Inr x \<Rightarrow> f x)"

lemma rbind_simps [simp]:
  "rbind (Inl e) f = Inl e"
  "rbind (Inr x) f = f x"
  by (simp_all add: rbind_def)

lemma rbind_eq_Inr_iff [res_iff, simp]:
  "rbind m f = Inr y \<longleftrightarrow> (\<exists>x. m = Inr x \<and> f x = Inr y)"
  by (cases m) auto

lemma rbind_eq_Inl_iff [res_iff]:
  "rbind m f = Inl e \<longleftrightarrow> m = Inl e \<or> (\<exists>x. m = Inr x \<and> f x = Inl e)"
  by (cases m) auto

lemma rbind_cong [fundef_cong]:
  "m = m' \<Longrightarrow> (\<And>x. m' = Inr x \<Longrightarrow> f x = f' x) \<Longrightarrow> rbind m f = rbind m' f'"
  by (cases m') auto

lemma rbind_assoc: "rbind (rbind m f) g = rbind m (\<lambda>x. rbind (f x) g)"
  by (cases m) auto

definition rcheck :: "bool \<Rightarrow> 'e \<Rightarrow> 'e + unit" where
  "rcheck ok e = (if ok then Inr () else Inl e)"

lemma rcheck_simps [simp]: "rcheck True e = Inr ()" "rcheck False e = Inl e"
  by (simp_all add: rcheck_def)

lemma rcheck_eq_Inr_iff [res_iff, simp]: "rcheck ok e = Inr u \<longleftrightarrow> ok"
  by (simp add: rcheck_def)

lemma rcheck_eq_Inl_iff [res_iff]: "rcheck ok e = Inl e' \<longleftrightarrow> \<not> ok \<and> e' = e"
  by (auto simp: rcheck_def)

fun rmap :: "('a \<Rightarrow> 'e + 'b) \<Rightarrow> 'a list \<Rightarrow> 'e + 'b list" where
  "rmap f [] = Inr []"
| "rmap f (x # xs) = rbind (f x) (\<lambda>y. rbind (rmap f xs) (\<lambda>ys. Inr (y # ys)))"

lemma rmap_eq_Inr_iff [res_iff]:
  "rmap f xs = Inr ys \<longleftrightarrow> list_all2 (\<lambda>x y. f x = Inr y) xs ys"
  by (induction xs arbitrary: ys) (auto simp: list_all2_Cons1)

lemma rmap_member: "rmap f xs = Inr ys \<Longrightarrow> x \<in> set xs \<Longrightarrow> \<exists>y\<in>set ys. f x = Inr y"
  by (induction xs arbitrary: ys) auto

lemma rmap_source: "rmap f xs = Inr ys \<Longrightarrow> y \<in> set ys \<Longrightarrow> \<exists>x\<in>set xs. f x = Inr y"
  by (induction xs arbitrary: ys) auto

lemma rmap_cong [fundef_cong]:
  "xs = ys \<Longrightarrow> (\<And>x. x \<in> set ys \<Longrightarrow> f x = g x) \<Longrightarrow> rmap f xs = rmap g ys"
  by (induction xs arbitrary: ys) auto

lemma rmap_Inr_all: "(\<And>x. x \<in> set xs \<Longrightarrow> f x = Inr (g x)) \<Longrightarrow> rmap f xs = Inr (map g xs)"
  by (induction xs) auto

text \<open>A \<open>for\<close> loop whose body only raises.\<close>

fun reach :: "('a \<Rightarrow> 'e + unit) \<Rightarrow> 'a list \<Rightarrow> 'e + unit" where
  "reach f [] = Inr ()"
| "reach f (x # xs) = rbind (f x) (\<lambda>_. reach f xs)"

lemma reach_eq_Inr_iff [res_iff, simp]:
  "reach f xs = Inr u \<longleftrightarrow> (\<forall>x\<in>set xs. f x = Inr ())"
  by (induction xs) auto

lemma reach_cong [fundef_cong]:
  "xs = ys \<Longrightarrow> (\<And>x. x \<in> set ys \<Longrightarrow> f x = g x) \<Longrightarrow> reach f xs = reach g ys"
  by (induction xs arbitrary: ys) auto

text \<open>A \<open>for\<close> loop whose body may return early.\<close>

fun rfirst :: "('a \<Rightarrow> 'e + 'r option) \<Rightarrow> 'a list \<Rightarrow> 'e + 'r option" where
  "rfirst f [] = Inr None"
| "rfirst f (x # xs) =
     rbind (f x) (\<lambda>r. case r of None \<Rightarrow> rfirst f xs | Some y \<Rightarrow> Inr (Some y))"

lemma rfirst_eq_None_iff [res_iff, simp]:
  "rfirst f xs = Inr None \<longleftrightarrow> (\<forall>x\<in>set xs. f x = Inr None)"
  by (induction xs) (auto split: option.splits)

lemma rfirst_eq_Some: "rfirst f xs = Inr (Some r) \<Longrightarrow> \<exists>x\<in>set xs. f x = Inr (Some r)"
  by (induction xs) (auto split: option.splits)

lemma rfirst_eq_Inl: "rfirst f xs = Inl e \<Longrightarrow> \<exists>x\<in>set xs. f x = Inl e"
  by (induction xs) (auto simp: rbind_eq_Inl_iff split: option.splits)

lemma rfirst_total:
  "(\<And>x. x \<in> set xs \<Longrightarrow> \<exists>r. f x = Inr r) \<Longrightarrow> \<exists>r. rfirst f xs = Inr r"
proof (induction xs)
  case (Cons x xs)
  then obtain r where "f x = Inr r" and "\<exists>r. rfirst f xs = Inr r"
    by auto
  then show ?case by (cases r) auto
qed simp

text \<open>The built-in \<open>all\<close> over a generator.\<close>

fun rall :: "('a \<Rightarrow> 'e + bool) \<Rightarrow> 'a list \<Rightarrow> 'e + bool" where
  "rall f [] = Inr True"
| "rall f (x # xs) = rbind (f x) (\<lambda>b. if b then rall f xs else Inr False)"

lemma rall_eq_True_iff [res_iff]:
  "rall f xs = Inr True \<longleftrightarrow> (\<forall>x\<in>set xs. f x = Inr True)"
  by (induction xs) (auto split: if_splits)

lemma rall_total:
  "(\<And>x. x \<in> set xs \<Longrightarrow> f x = Inr (g x)) \<Longrightarrow> rall f xs = Inr (list_all g xs)"
  by (induction xs) auto

text \<open>A loop that threads a state.\<close>

fun rfold :: "('a \<Rightarrow> 's \<Rightarrow> 'e + 's) \<Rightarrow> 'a list \<Rightarrow> 's \<Rightarrow> 'e + 's" where
  "rfold f [] s = Inr s"
| "rfold f (x # xs) s = rbind (f x s) (rfold f xs)"

lemma rfold_invariant:
  assumes "rfold f xs s = Inr t" and "P s"
    and "\<And>x u v. x \<in> set xs \<Longrightarrow> P u \<Longrightarrow> f x u = Inr v \<Longrightarrow> P v"
  shows "P t"
  using assms by (induction xs arbitrary: s) auto

lemma rfold_append: "rfold f (xs @ ys) s = rbind (rfold f xs s) (rfold f ys)"
  by (induction xs arbitrary: s) (auto simp: rbind_def split: sum.splits)

section \<open>Dictionaries\<close>

text \<open>
  Reading is \<open>map_of\<close>; \<open>d[k] = v\<close> keeps the position of an old key and appends a new one, which is
  what \<open>AList.update\<close> does; \<open>d.pop(k, None)\<close> is \<open>AList.delete\<close>.
\<close>

abbreviation dict_set :: "'k \<Rightarrow> 'v \<Rightarrow> ('k \<times> 'v) list \<Rightarrow> ('k \<times> 'v) list" where
  "dict_set \<equiv> AList.update"

abbreviation dict_pop :: "'k \<Rightarrow> ('k \<times> 'v) list \<Rightarrow> ('k \<times> 'v) list" where
  "dict_pop \<equiv> AList.delete"

definition dict_get :: "('k \<times> 'v) list \<Rightarrow> 'k \<Rightarrow> 'v \<Rightarrow> 'v" where
  "dict_get d k v = (case map_of d k of None \<Rightarrow> v | Some w \<Rightarrow> w)"

definition keys :: "('k \<times> 'v) list \<Rightarrow> 'k list" where
  "keys d = map fst d"

definition has_key :: "('k \<times> 'v) list \<Rightarrow> 'k \<Rightarrow> bool" where
  "has_key d k = (map_of d k \<noteq> None)"

lemma has_key_iff: "has_key d k \<longleftrightarrow> k \<in> fst ` set d"
  by (simp add: has_key_def map_of_eq_None_iff)

lemma set_keys [simp]: "set (keys d) = fst ` set d"
  by (simp add: keys_def)

lemma map_of_dict_set [simp]: "map_of (dict_set k v d) k' = (if k' = k then Some v else map_of d k')"
  by (simp add: update_conv)

lemma map_of_map_snd: "map_of (map (\<lambda>(k, v). (k, f v)) d) k = map_option f (map_of d k)"
  by (induction d) auto

lemma distinct_dict_set: "distinct (map fst d) \<Longrightarrow> distinct (map fst (dict_set k v d))"
  by (rule distinct_update)

text \<open>
  The invariants of Python's own representation: every code point is below \<open>0x110000\<close> and every
  dictionary inside a value has distinct keys.
\<close>

definition wf_str :: "ustr \<Rightarrow> bool" where
  "wf_str s = list_all (\<lambda>c. c < 0x110000) s"

fun wf_val :: "pyval \<Rightarrow> bool" where
  "wf_val (PStr s) = wf_str s"
| "wf_val (PList xs) = (\<forall>v\<in>set xs. wf_val v)"
| "wf_val (PDict d) =
     (distinct (map fst d) \<and> (\<forall>kv\<in>set d. wf_str (fst kv) \<and> wf_val (snd kv)))"
| "wf_val v = True"

section \<open>Comparison and membership\<close>

text \<open>
  Numbers compare by value across \<open>bool\<close>, \<open>int\<close> and \<open>float\<close>: \<open>True == 1 == 1.0\<close>.  Lists compare member
  by member, dictionaries as maps.
\<close>

fun num_of :: "pyval \<Rightarrow> rat option" where
  "num_of (PBool b) = Some (if b then 1 else 0)"
| "num_of (PInt i) = Some (of_int i)"
| "num_of (PFloat (Finite q)) = Some q"
| "num_of v = None"

definition num_eq :: "pyval \<Rightarrow> pyval \<Rightarrow> bool" where
  "num_eq v w = (case (num_of v, num_of w) of
       (Some a, Some b) \<Rightarrow> a = b
     | _ \<Rightarrow> (v = w \<and> v \<in> {PFloat PosInf, PFloat NegInf}))"

fun py_eq :: "pyval \<Rightarrow> pyval \<Rightarrow> bool" where
  "py_eq PNone PNone = True"
| "py_eq (PStr s) (PStr t) = (s = t)"
| "py_eq (PList xs) (PList ys) = list_all2 py_eq xs ys"
| "py_eq (PDict d) (PDict e) =
     (length d = length e \<and>
      list_all (\<lambda>kv. case map_of e (fst kv) of None \<Rightarrow> False | Some w \<Rightarrow> py_eq (snd kv) w) d)"
| "py_eq v w = num_eq v w"

text \<open>
  \<open>v < w\<close>: numbers by value, strings by code point, lists at their first unequal member; any other pair
  raises \<open>TypeError\<close>.
\<close>

fun float_lt :: "pyfloat \<Rightarrow> pyfloat \<Rightarrow> bool" where
  "float_lt (Finite a) (Finite b) = (a < b)"
| "float_lt NaN y = False"
| "float_lt x NaN = False"
| "float_lt NegInf y = (y \<noteq> NegInf)"
| "float_lt x PosInf = (x \<noteq> PosInf)"
| "float_lt x y = False"

fun float_of :: "pyval \<Rightarrow> pyfloat option" where
  "float_of (PBool b) = Some (Finite (if b then 1 else 0))"
| "float_of (PInt i) = Some (Finite (of_int i))"
| "float_of (PFloat f) = Some f"
| "float_of v = None"

fun py_lt :: "pyval \<Rightarrow> pyval \<Rightarrow> bool res"
  and py_list_lt :: "pyval list \<Rightarrow> pyval list \<Rightarrow> bool res" where
  "py_lt (PStr s) (PStr t) = Inr (s < t)"
| "py_lt (PList xs) (PList ys) = py_list_lt xs ys"
| "py_lt v w = (case (float_of v, float_of w) of
       (Some a, Some b) \<Rightarrow> Inr (float_lt a b)
     | _ \<Rightarrow> Inl (TypeError ''unorderable''))"
| "py_list_lt xs [] = Inr False"
| "py_list_lt [] (y # ys) = Inr True"
| "py_list_lt (x # xs) (y # ys) = (if py_eq x y then py_list_lt xs ys else py_lt x y)"

text \<open>\<open>v <= w\<close>.\<close>

fun py_le :: "pyval \<Rightarrow> pyval \<Rightarrow> bool res"
  and py_list_le :: "pyval list \<Rightarrow> pyval list \<Rightarrow> bool res" where
  "py_le (PStr s) (PStr t) = Inr (s \<le> t)"
| "py_le (PList xs) (PList ys) = py_list_le xs ys"
| "py_le v w = (case (float_of v, float_of w) of
       (Some a, Some b) \<Rightarrow> Inr (float_lt a b \<or> a = b \<and> a \<noteq> NaN)
     | _ \<Rightarrow> Inl (TypeError ''unorderable''))"
| "py_list_le [] ys = Inr True"
| "py_list_le (x # xs) [] = Inr False"
| "py_list_le (x # xs) (y # ys) = (if py_eq x y then py_list_le xs ys else py_le x y)"

text \<open>\<open>min(a, b)\<close> and \<open>max(a, b)\<close>: the first argument wins a tie.\<close>

definition py_min :: "pyval \<Rightarrow> pyval \<Rightarrow> pyval res" where
  "py_min a b = rbind (py_lt b a) (\<lambda>l. Inr (if l then b else a))"

definition py_max :: "pyval \<Rightarrow> pyval \<Rightarrow> pyval res" where
  "py_max a b = rbind (py_lt a b) (\<lambda>l. Inr (if l then b else a))"

definition py_hashable :: "pyval \<Rightarrow> bool" where
  "py_hashable v = (case v of PList _ \<Rightarrow> False | PDict _ \<Rightarrow> False | _ \<Rightarrow> True)"

definition py_iter :: "pyval \<Rightarrow> pyval list res" where
  "py_iter v = (case v of
       PList xs \<Rightarrow> Inr xs
     | PDict d \<Rightarrow> Inr (map (PStr \<circ> fst) d)
     | PStr s \<Rightarrow> Inr (map (\<lambda>c. PStr [c]) s)
     | _ \<Rightarrow> Inl (TypeError ''not iterable''))"

text \<open>
  \<open>set(xs)\<close>, as the list of the members kept, first occurrence of each; and \<open>sorted(xs)\<close> with the natural
  order, which raises when two members that meet in the order cannot be compared.
\<close>

fun py_set :: "pyval list \<Rightarrow> pyval list \<Rightarrow> pyval list res" where
  "py_set seen [] = Inr seen"
| "py_set seen (x # xs) = (if \<not> py_hashable x then Inl (TypeError ''unhashable'')
     else py_set (if list_ex (py_eq x) seen then seen else seen @ [x]) xs)"

fun py_insort :: "pyval \<Rightarrow> pyval list \<Rightarrow> pyval list res" where
  "py_insort x [] = Inr [x]"
| "py_insort x (y # ys) = rbind (py_lt y x) (\<lambda>l.
     if l then rbind (py_insort x ys) (\<lambda>zs. Inr (y # zs)) else Inr (x # y # ys))"

fun py_sort :: "pyval list \<Rightarrow> pyval list res" where
  "py_sort [] = Inr []"
| "py_sort (x # xs) = rbind (py_sort xs) (py_insort x)"

lemma py_insort_mset: "py_insort x ys = Inr zs \<Longrightarrow> mset zs = add_mset x (mset ys)"
  by (induction ys arbitrary: zs) (auto split: if_splits)

lemma py_sort_mset: "py_sort xs = Inr ys \<Longrightarrow> mset ys = mset xs"
  by (induction xs arbitrary: ys) (auto dest: py_insort_mset)

lemma py_sort_set: "py_sort xs = Inr ys \<Longrightarrow> set ys = set xs"
  by (metis py_sort_mset mset_eq_setD)

lemma py_set_sound: "py_set seen xs = Inr ys \<Longrightarrow> set ys \<subseteq> set seen \<union> set xs \<and> set seen \<subseteq> set ys"
proof (induction seen xs rule: py_set.induct)
  case (2 seen x xs)
  then show ?case by (fastforce split: if_splits)
qed simp

text \<open>For strings equality is identity, so nothing is lost.\<close>

lemma py_set_strings:
  "py_set seen xs = Inr ys \<Longrightarrow> PStr s \<in> set seen \<union> set xs \<Longrightarrow> PStr s \<in> set ys"
proof (induction seen xs rule: py_set.induct)
  case (2 seen x xs)
  have "y = PStr s" if "py_eq (PStr s) y" for y using that by (cases y) (auto simp: num_eq_def)
  then show ?case using 2 by (auto split: if_splits simp: list_ex_iff)
qed simp

text \<open>\<open>k in d\<close> for a dictionary \<open>d\<close>.\<close>

definition in_dict :: "pyval \<Rightarrow> (ustr \<times> 'v) list \<Rightarrow> bool res" where
  "in_dict k d = (if \<not> py_hashable k then Inl (TypeError ''unhashable'')
     else Inr (is_str k \<and> has_key d (str_of k)))"

text \<open>\<open>x in c\<close> for an arbitrary container value.\<close>

definition py_in :: "pyval \<Rightarrow> pyval \<Rightarrow> bool res" where
  "py_in x c = (case c of
       PList ys \<Rightarrow> Inr (list_ex (py_eq x) ys)
     | PDict d \<Rightarrow> in_dict x d
     | PStr s \<Rightarrow> (case x of PStr t \<Rightarrow> Inr (sublist t s) | _ \<Rightarrow> Inl (TypeError ''in str''))
     | _ \<Rightarrow> Inl (TypeError ''not a container''))"

text \<open>\<open>v.items()\<close>.\<close>

definition py_items :: "pyval \<Rightarrow> pydict res" where
  "py_items v = (case v of PDict d \<Rightarrow> Inr d | _ \<Rightarrow> Inl (AttributeError ''items''))"

lemma py_items_eq_Inr [simp]: "py_items v = Inr d \<longleftrightarrow> v = PDict d"
  by (cases v) (auto simp: py_items_def)

lemma py_items_PDict [py_simps]: "py_items (PDict d) = Inr d"
  by (simp add: py_items_def)

lemma py_iter_PList [py_simps]: "py_iter (PList xs) = Inr xs"
  by (simp add: py_iter_def)

lemma py_in_PList [py_simps]: "py_in x (PList ys) = Inr (list_ex (py_eq x) ys)"
  by (simp add: py_in_def)

lemma in_dict_PStr [py_simps]: "in_dict (PStr s) d = Inr (has_key d s)"
  by (simp add: in_dict_def py_hashable_def)

lemma num_eq_refl: "num_of v \<noteq> None \<Longrightarrow> num_eq v v"
  by (auto simp: num_eq_def)

lemma num_eq_sym: "num_eq v w = num_eq w v"
  by (auto simp: num_eq_def split: option.splits)

text \<open>The JSON scalars a constraint list may hold, \<open>isinstance(v, (str, int))\<close>.\<close>

fun is_scalar :: "pyval \<Rightarrow> bool" where
  "is_scalar (PStr s) = True"
| "is_scalar (PInt i) = True"
| "is_scalar (PBool b) = True"
| "is_scalar v = False"

lemma py_eq_refl_scalar: "is_scalar v \<Longrightarrow> py_eq v v"
  by (cases v) (auto simp: num_eq_def)

definition startswith :: "ustr \<Rightarrow> ustr \<Rightarrow> bool" where
  "startswith s p = prefix p s"

lemma startswith_trans: "startswith s p \<Longrightarrow> startswith p q \<Longrightarrow> startswith s q"
  unfolding startswith_def by (metis prefix_order.trans)

lemma startswith_code [code]: "startswith s p = (take (length p) s = p)"
  by (auto simp: startswith_def prefix_def) (metis append_take_drop_id)

lemma startswith_simps [py_simps]:
  "startswith s []"
  "startswith [] (c # p) = False"
  "startswith (b # s) (c # p) = (b = c \<and> startswith s p)"
  by (auto simp: startswith_def)

end
