(* ===== verification/PyCodec.thy ===== *)
theory PyCodec
  imports PyBase
begin

text \<open>
  The text encodings of the Python standard library that the sources call: UTF-8 (strict and
  \<open>errors="replace"\<close> decoding), big-endian UTF-16, lower-case hex, and base64 in the url-safe alphabet
  without padding (\<open>_b64\<close> and \<open>_b64d\<close>, which every signing module repeats).  The decoder of base64
  is the non-strict \<open>binascii.a2b_base64\<close>: it skips characters outside the alphabet.
  The round trips proved here are what the signing and hashing modules rest on.
\<close>

section \<open>Code points\<close>

definition is_surrogate :: "nat \<Rightarrow> bool" where
  "is_surrogate c = (0xD800 \<le> c \<and> c \<le> 0xDFFF)"

text \<open>A string of Unicode scalar values: no lone surrogate.\<close>

definition scalar_str :: "ustr \<Rightarrow> bool" where
  "scalar_str s = list_all (\<lambda>c. c < 0x110000 \<and> \<not> is_surrogate c) s"

lemma scalar_str_simps [simp]:
  "scalar_str []"
  "scalar_str (c # s) \<longleftrightarrow> c < 0x110000 \<and> \<not> is_surrogate c \<and> scalar_str s"
  "scalar_str (s @ t) \<longleftrightarrow> scalar_str s \<and> scalar_str t"
  by (auto simp: scalar_str_def)

definition wf_bytes :: "bytes \<Rightarrow> bool" where
  "wf_bytes bs = list_all (\<lambda>b. b < 256) bs"

lemma wf_bytes_simps [simp]:
  "wf_bytes []"
  "wf_bytes (b # bs) \<longleftrightarrow> b < 256 \<and> wf_bytes bs"
  "wf_bytes (bs @ cs) \<longleftrightarrow> wf_bytes bs \<and> wf_bytes cs"
  by (auto simp: wf_bytes_def)

section \<open>UTF-16, big endian\<close>

definition utf16_units :: "nat \<Rightarrow> nat list" where
  "utf16_units c = (if c < 0x10000 then [c]
     else [0xD800 + (c - 0x10000) div 0x400, 0xDC00 + (c - 0x10000) mod 0x400])"

definition unit_bytes :: "nat \<Rightarrow> bytes" where
  "unit_bytes u = [u div 256, u mod 256]"

text \<open>\<open>s.encode("utf-16-be")\<close> for a string with no surrogate.\<close>

definition utf16_be :: "ustr \<Rightarrow> bytes" where
  "utf16_be s = concat (map unit_bytes (concat (map utf16_units s)))"

fun units_of_bytes :: "bytes \<Rightarrow> nat list" where
  "units_of_bytes (a # b # r) = (256 * a + b) # units_of_bytes r"
| "units_of_bytes _ = []"

fun utf16_chars :: "nat list \<Rightarrow> ustr" where
  "utf16_chars [] = []"
| "utf16_chars [u] = [u]"
| "utf16_chars (u # v # r) =
     (if 0xD800 \<le> u \<and> u \<le> 0xDBFF
      then (0x10000 + (u - 0xD800) * 0x400 + (v - 0xDC00)) # utf16_chars r
      else u # utf16_chars (v # r))"

lemma units_of_unit_bytes: "units_of_bytes (concat (map unit_bytes us)) = us"
  by (induction us) (auto simp: unit_bytes_def)

lemma utf16_chars_bmp:
  "\<not> (0xD800 \<le> u \<and> u \<le> 0xDBFF) \<Longrightarrow> utf16_chars (u # r) = u # utf16_chars r"
  by (cases r) auto

lemma utf16_chars_units:
  assumes "c < 0x110000" "\<not> is_surrogate c"
  shows "utf16_chars (utf16_units c @ r) = c # utf16_chars r"
proof (cases "c < 0x10000")
  case True
  with assms show ?thesis
    by (auto simp: utf16_units_def is_surrogate_def intro!: utf16_chars_bmp)
next
  case False
  define d where "d = c - 0x10000"
  have "d < 0x100000" and c: "c = 0x10000 + d"
    using False assms(1) by (auto simp: d_def)
  then have "d div 0x400 < 0x400" by auto
  then show ?thesis using False by (simp add: utf16_units_def c)
qed

lemma utf16_chars_concat: "scalar_str s \<Longrightarrow> utf16_chars (concat (map utf16_units s)) = s"
  by (induction s) (simp_all add: utf16_chars_units)

lemma utf16_roundtrip: "scalar_str s \<Longrightarrow> utf16_chars (units_of_bytes (utf16_be s)) = s"
  by (simp add: utf16_be_def units_of_unit_bytes utf16_chars_concat)

lemma utf16_be_inj: "scalar_str s \<Longrightarrow> scalar_str t \<Longrightarrow> utf16_be s = utf16_be t \<longleftrightarrow> s = t"
  by (metis utf16_roundtrip)

section \<open>UTF-8\<close>

definition utf8_char :: "nat \<Rightarrow> bytes" where
  "utf8_char c = (if c < 0x80 then [c]
     else if c < 0x800 then [0xC0 + c div 64, 0x80 + c mod 64]
     else if c < 0x10000 then [0xE0 + c div 4096, 0x80 + c div 64 mod 64, 0x80 + c mod 64]
     else [0xF0 + c div 262144, 0x80 + c div 4096 mod 64, 0x80 + c div 64 mod 64, 0x80 + c mod 64])"

definition utf8_encode :: "ustr \<Rightarrow> bytes" where
  "utf8_encode s = concat (map utf8_char s)"

text \<open>\<open>s.encode("utf-8")\<close>, strict: a surrogate raises \<open>UnicodeEncodeError\<close>, a \<open>ValueError\<close>.\<close>

definition utf8_encode_strict :: "ustr \<Rightarrow> bytes res" where
  "utf8_encode_strict s =
     (if list_ex is_surrogate s then Inl (ValueError ''surrogate'') else Inr (utf8_encode s))"

text \<open>
  The decoder: the lead byte fixes how many continuation bytes follow, the range of the first of
  them, and the bits it contributes.
\<close>

definition utf8_lead :: "nat \<Rightarrow> (nat \<times> nat \<times> nat \<times> nat) option" where
  "utf8_lead b =
     (if b < 0x80 then Some (0, 0x80, 0xBF, b)
      else if 0xC2 \<le> b \<and> b \<le> 0xDF then Some (1, 0x80, 0xBF, b - 0xC0)
      else if b = 0xE0 then Some (2, 0xA0, 0xBF, 0)
      else if b = 0xED then Some (2, 0x80, 0x9F, 13)
      else if 0xE1 \<le> b \<and> b \<le> 0xEF then Some (2, 0x80, 0xBF, b - 0xE0)
      else if b = 0xF0 then Some (3, 0x90, 0xBF, 0)
      else if 0xF1 \<le> b \<and> b \<le> 0xF3 then Some (3, 0x80, 0xBF, b - 0xF0)
      else if b = 0xF4 then Some (3, 0x80, 0x8F, 4)
      else None)"

fun utf8_cont :: "nat \<Rightarrow> nat \<Rightarrow> nat \<Rightarrow> nat \<Rightarrow> bytes \<Rightarrow> nat option \<times> bytes" where
  "utf8_cont 0 lo hi acc bs = (Some acc, bs)"
| "utf8_cont (Suc n) lo hi acc [] = (None, [])"
| "utf8_cont (Suc n) lo hi acc (b # bs) =
     (if lo \<le> b \<and> b \<le> hi then utf8_cont n 0x80 0xBF (64 * acc + (b - 0x80)) bs
      else (None, b # bs))"

lemma utf8_cont_step:
  "0 < n \<Longrightarrow> utf8_cont n lo hi acc (b # bs) =
     (if lo \<le> b \<and> b \<le> hi then utf8_cont (n - 1) 0x80 0xBF (64 * acc + (b - 0x80)) bs
      else (None, b # bs))"
  by (cases n) auto

lemma utf8_cont_length: "utf8_cont n lo hi acc bs = (r, rest) \<Longrightarrow> length rest \<le> length bs"
  by (induction n lo hi acc bs rule: utf8_cont.induct) (auto split: if_splits)

definition utf8_next :: "nat \<Rightarrow> bytes \<Rightarrow> nat option \<times> bytes" where
  "utf8_next b bs = (case utf8_lead b of
       None \<Rightarrow> (None, bs)
     | Some (n, lo, hi, acc) \<Rightarrow> utf8_cont n lo hi acc bs)"

lemma utf8_next_length: "utf8_next b bs = (r, rest) \<Longrightarrow> length rest \<le> length bs"
  by (auto simp: utf8_next_def split: option.splits prod.splits dest: utf8_cont_length)

text \<open>\<open>bs.decode("utf-8", "replace")\<close>: each maximal ill-formed part becomes \<open>U+FFFD\<close>.\<close>

function utf8_decode_replace :: "bytes \<Rightarrow> ustr" where
  "utf8_decode_replace [] = []"
| "utf8_decode_replace (b # bs) =
     (case utf8_next b bs of (r, rest) \<Rightarrow>
        (case r of None \<Rightarrow> 0xFFFD | Some c \<Rightarrow> c) # utf8_decode_replace rest)"
  by pat_completeness auto
termination
  by (relation "measure length") (auto simp: less_Suc_eq_le dest: utf8_next_length[OF sym])

text \<open>\<open>bs.decode("utf-8")\<close>, strict: \<open>UnicodeDecodeError\<close> is a \<open>ValueError\<close>.\<close>

function utf8_decode :: "bytes \<Rightarrow> ustr res" where
  "utf8_decode [] = Inr []"
| "utf8_decode (b # bs) =
     (case utf8_next b bs of (r, rest) \<Rightarrow>
        (case r of
           None \<Rightarrow> Inl (ValueError ''utf-8'')
         | Some c \<Rightarrow> rbind (utf8_decode rest) (\<lambda>s. Inr (c # s))))"
  by pat_completeness auto
termination
  by (relation "measure length") (auto simp: less_Suc_eq_le dest: utf8_next_length[OF sym])

lemma mod64_bound:
  assumes "q * 64 \<le> x" "x < q * 64 + m"
  shows "x mod 64 < (m::nat)"
proof -
  obtain k where "x = q * 64 + k" using assms(1) le_Suc_ex by blast
  with assms(2) show ?thesis by (auto intro: le_less_trans[OF mod_less_eq_dividend])
qed

lemma radix64:
  fixes c :: nat
  shows "64 * (64 * (c div 4096) + c div 64 mod 64) + c mod 64 = c"
    "64 * (64 * (64 * (c div 262144) + c div 4096 mod 64) + c div 64 mod 64) + c mod 64 = c"
proof -
  have "c div 4096 = c div 64 div 64" "c div 262144 = c div 64 div 64 div 64"
    by (simp_all add: div_mult2_eq[symmetric])
  then show "64 * (64 * (c div 4096) + c div 64 mod 64) + c mod 64 = c"
    "64 * (64 * (64 * (c div 262144) + c div 4096 mod 64) + c div 64 mod 64) + c mod 64 = c"
    by (simp_all only: mult_div_mod_eq)
qed

lemma utf8_next3:
  assumes "d2 < 16" "d1 < 64" "d0 < 64" "d2 = 0 \<Longrightarrow> 32 \<le> d1" "d2 = 13 \<Longrightarrow> d1 \<le> 31"
  shows "utf8_next (0xE0 + d2) ((0x80 + d1) # (0x80 + d0) # r) = (Some (64 * (64 * d2 + d1) + d0), r)"
  using assms by (auto simp: utf8_next_def utf8_lead_def utf8_cont_step)

lemma utf8_next4:
  assumes "d3 < 5" "d2 < 64" "d1 < 64" "d0 < 64" "d3 = 0 \<Longrightarrow> 16 \<le> d2" "d3 = 4 \<Longrightarrow> d2 \<le> 15"
  shows "utf8_next (0xF0 + d3) ((0x80 + d2) # (0x80 + d1) # (0x80 + d0) # r) =
    (Some (64 * (64 * (64 * d3 + d2) + d1) + d0), r)"
  using assms by (auto simp: utf8_next_def utf8_lead_def utf8_cont_step)

lemma utf8_next_char:
  assumes "c < 0x110000" "\<not> is_surrogate c"
  shows "\<exists>b bs. utf8_char c = b # bs \<and> utf8_next b (bs @ r) = (Some c, r)"
proof -
  consider "c < 0x80" | "0x80 \<le> c" "c < 0x800" | "0x800 \<le> c" "c < 0x10000"
    | "0x10000 \<le> c" by linarith
  then show ?thesis
  proof cases
    case 1
    then show ?thesis by (simp add: utf8_char_def utf8_next_def utf8_lead_def)
  next
    case 2
    then have "2 \<le> c div 64" "c div 64 < 32" by auto
    with 2 show ?thesis
      by (simp add: utf8_char_def utf8_next_def utf8_lead_def utf8_cont_step)
  next
    case 3
    have bnd: "c div 4096 < 16" "c div 64 mod 64 < 64" "c mod 64 < 64" using 3 by auto
    have e0: "c div 4096 = 0 \<Longrightarrow> 32 \<le> c div 64 mod 64" using 3 by auto
    have ed: "c div 64 mod 64 \<le> 31" if "c div 4096 = 13"
    proof -
      have "53248 \<le> c" "c < 57344" using that by linarith+
      then have "c < 55296" using assms(2) by (auto simp: is_surrogate_def)
      with \<open>53248 \<le> c\<close> have "13 * 64 \<le> c div 64" "c div 64 < 13 * 64 + 32" by auto
      from mod64_bound[OF this] show ?thesis by simp
    qed
    have "utf8_char c = (0xE0 + c div 4096) # [0x80 + c div 64 mod 64, 0x80 + c mod 64]"
      using 3 by (simp add: utf8_char_def)
    then show ?thesis using utf8_next3[OF bnd e0 ed, of r] by (simp only: radix64) simp
  next
    case 4
    have bnd: "c div 262144 < 5" "c div 4096 mod 64 < 64" "c div 64 mod 64 < 64" "c mod 64 < 64"
      using 4 assms by auto
    have f0: "c div 262144 = 0 \<Longrightarrow> 16 \<le> c div 4096 mod 64" using 4 by auto
    have f4: "c div 4096 mod 64 \<le> 15" if "c div 262144 = 4"
    proof -
      have "1048576 \<le> c" using that by linarith
      with assms(1) have "4 * 64 \<le> c div 4096" "c div 4096 < 4 * 64 + 16" by auto
      from mod64_bound[OF this] show ?thesis by simp
    qed
    have "utf8_char c =
      (0xF0 + c div 262144) # [0x80 + c div 4096 mod 64, 0x80 + c div 64 mod 64, 0x80 + c mod 64]"
      using 4 by (simp add: utf8_char_def)
    then show ?thesis using utf8_next4[OF bnd f0 f4, of r] by (simp only: radix64) simp
  qed
qed

lemma utf8_decode_char:
  assumes "c < 0x110000" "\<not> is_surrogate c"
  shows "utf8_decode (utf8_char c @ r) = rbind (utf8_decode r) (\<lambda>s. Inr (c # s))"
proof -
  obtain b bs where "utf8_char c = b # bs" "utf8_next b (bs @ r) = (Some c, r)"
    using utf8_next_char[OF assms] by blast
  then show ?thesis by simp
qed

lemma utf8_decode_append:
  "scalar_str s \<Longrightarrow> utf8_decode (utf8_encode s @ r) = rbind (utf8_decode r) (\<lambda>t. Inr (s @ t))"
  by (induction s) (auto simp: utf8_encode_def utf8_decode_char rbind_assoc rbind_def split: sum.splits)

lemma utf8_roundtrip: "scalar_str s \<Longrightarrow> utf8_decode (utf8_encode s) = Inr s"
  using utf8_decode_append[of s "[]"] by simp

lemma utf8_encode_inj: "scalar_str s \<Longrightarrow> scalar_str t \<Longrightarrow> utf8_encode s = utf8_encode t \<longleftrightarrow> s = t"
  by (metis utf8_roundtrip sum.inject(2))

lemma utf8_replace_char:
  assumes "c < 0x110000" "\<not> is_surrogate c"
  shows "utf8_decode_replace (utf8_char c @ r) = c # utf8_decode_replace r"
proof -
  obtain b bs where "utf8_char c = b # bs" "utf8_next b (bs @ r) = (Some c, r)"
    using utf8_next_char[OF assms] by blast
  then show ?thesis by simp
qed

lemma utf8_replace_encode: "scalar_str s \<Longrightarrow> utf8_decode_replace (utf8_encode s) = s"
  by (induction s) (auto simp: utf8_encode_def utf8_replace_char)

lemma wf_bytes_utf8_encode: "scalar_str s \<Longrightarrow> wf_bytes (utf8_encode s)"
proof (induction s)
  case (Cons c s)
  then have "c div 262144 < 5" by auto
  with Cons show ?case by (auto simp: utf8_encode_def utf8_char_def)
qed (simp add: utf8_encode_def)

section \<open>Hexadecimal\<close>

definition hex_digit :: "nat \<Rightarrow> nat" where
  "hex_digit n = (if n < 10 then 48 + n else 87 + n)"

text \<open>\<open>bs.hex()\<close> and \<open>hashlib's hexdigest()\<close>.\<close>

definition hex_of :: "bytes \<Rightarrow> ustr" where
  "hex_of bs = concat (map (\<lambda>b. [hex_digit (b div 16), hex_digit (b mod 16)]) bs)"

definition hex_val :: "nat \<Rightarrow> nat option" where
  "hex_val c = (if 48 \<le> c \<and> c \<le> 57 then Some (c - 48)
     else if 97 \<le> c \<and> c \<le> 102 then Some (c - 87)
     else if 65 \<le> c \<and> c \<le> 70 then Some (c - 55) else None)"

definition is_ascii_space :: "nat \<Rightarrow> bool" where
  "is_ascii_space c = (c \<in> {9, 10, 11, 12, 13, 32})"

text \<open>\<open>bytes.fromhex\<close>: pairs of digits of either case, ASCII whitespace between pairs.\<close>

fun fromhex :: "ustr \<Rightarrow> bytes res" where
  "fromhex [] = Inr []"
| "fromhex [c] = (if is_ascii_space c then Inr [] else Inl (ValueError ''fromhex''))"
| "fromhex (c # d # r) =
     (if is_ascii_space c then fromhex (d # r)
      else (case (hex_val c, hex_val d) of
          (Some a, Some b) \<Rightarrow> rbind (fromhex r) (\<lambda>bs. Inr ((16 * a + b) # bs))
        | _ \<Rightarrow> Inl (ValueError ''fromhex'')))"

lemma hex_val_digit: "n < 16 \<Longrightarrow> hex_val (hex_digit n) = Some n"
  by (auto simp: hex_val_def hex_digit_def)

lemma hex_digit_not_space: "n < 16 \<Longrightarrow> \<not> is_ascii_space (hex_digit n)"
  by (auto simp: is_ascii_space_def hex_digit_def)

lemma fromhex_hex_of: "wf_bytes bs \<Longrightarrow> fromhex (hex_of bs) = Inr bs"
  by (induction bs) (auto simp: hex_of_def hex_val_digit hex_digit_not_space)

lemma hex_of_inj: "wf_bytes bs \<Longrightarrow> wf_bytes cs \<Longrightarrow> hex_of bs = hex_of cs \<longleftrightarrow> bs = cs"
  by (metis fromhex_hex_of sum.inject(2))

lemma length_hex_of [simp]: "length (hex_of bs) = 2 * length bs"
  by (induction bs) (auto simp: hex_of_def)

section \<open>Base64, url-safe alphabet\<close>

definition b64_char :: "nat \<Rightarrow> nat" where
  "b64_char n = (if n < 26 then 65 + n else if n < 52 then 71 + n else if n < 62 then n - 4
     else if n = 62 then 45 else 95)"

definition b64_pad :: nat where
  "b64_pad = 61"

fun b64_encode :: "bytes \<Rightarrow> ustr" where
  "b64_encode [] = []"
| "b64_encode [a] = [b64_char (a div 4), b64_char (a mod 4 * 16), b64_pad, b64_pad]"
| "b64_encode [a, b] =
     [b64_char (a div 4), b64_char (a mod 4 * 16 + b div 16), b64_char (b mod 16 * 4), b64_pad]"
| "b64_encode (a # b # c # r) =
     b64_char (a div 4) # b64_char (a mod 4 * 16 + b div 16) #
     b64_char (b mod 16 * 4 + c div 64) # b64_char (c mod 64) # b64_encode r"

definition rstrip_pad :: "ustr \<Rightarrow> ustr" where
  "rstrip_pad s = rev (dropWhile (\<lambda>c. c = b64_pad) (rev s))"

definition b64 :: "bytes \<Rightarrow> ustr" where
  "b64 data = rstrip_pad (b64_encode data)"

text \<open>After the url-safe translation both \<open>-\<close> and \<open>+\<close> are 62, both \<open>_\<close> and \<open>/\<close> are 63.\<close>

definition b64_val :: "nat \<Rightarrow> nat option" where
  "b64_val c = (if 65 \<le> c \<and> c \<le> 90 then Some (c - 65)
     else if 97 \<le> c \<and> c \<le> 122 then Some (c - 71)
     else if 48 \<le> c \<and> c \<le> 57 then Some (c + 4)
     else if c = 45 \<or> c = 43 then Some 62
     else if c = 95 \<or> c = 47 then Some 63 else None)"

text \<open>
  \<open>a2b_base64\<close>, not strict: the position in the quad, the bits left over and the padding seen.
\<close>

fun a2b :: "nat \<Rightarrow> nat \<Rightarrow> nat \<Rightarrow> ustr \<Rightarrow> bytes res" where
  "a2b q left pads [] = (if q = 0 then Inr [] else Inl (ValueError ''base64''))"
| "a2b q left pads (c # cs) =
     (if c = b64_pad then
        (if q \<ge> 2 then (if q + pads + 1 \<ge> 4 then Inr [] else a2b q left (pads + 1) cs)
         else a2b q left pads cs)
      else (case b64_val c of
          None \<Rightarrow> a2b q left pads cs
        | Some v \<Rightarrow>
            (if q = 0 then a2b 1 v 0 cs
             else if q = 1 then rbind (a2b 2 (v mod 16) 0 cs) (\<lambda>bs. Inr ((left * 4 + v div 16) # bs))
             else if q = 2 then rbind (a2b 3 (v mod 4) 0 cs) (\<lambda>bs. Inr ((left * 16 + v div 4) # bs))
             else rbind (a2b 0 0 0 cs) (\<lambda>bs. Inr ((left * 64 + v) # bs)))))"

definition b64d :: "ustr \<Rightarrow> bytes res" where
  "b64d s = (if list_all (\<lambda>c. c < 128) s
     then a2b 0 0 0 (s @ replicate ((4 - length s mod 4) mod 4) b64_pad)
     else Inl (ValueError ''ascii''))"

lemma b64_char_props:
  assumes "n < 64"
  shows "b64_char n \<noteq> b64_pad" "b64_val (b64_char n) = Some n" "b64_char n < 128"
  using assms by (auto simp: b64_char_def b64_val_def b64_pad_def)

text \<open>The encoding without padding, by which the stripped form is computed.\<close>

fun b64_core :: "bytes \<Rightarrow> ustr" where
  "b64_core [] = []"
| "b64_core [a] = [b64_char (a div 4), b64_char (a mod 4 * 16)]"
| "b64_core [a, b] =
     [b64_char (a div 4), b64_char (a mod 4 * 16 + b div 16), b64_char (b mod 16 * 4)]"
| "b64_core (a # b # c # r) =
     b64_char (a div 4) # b64_char (a mod 4 * 16 + b div 16) #
     b64_char (b mod 16 * 4 + c div 64) # b64_char (c mod 64) # b64_core r"

lemma sextet_bounds:
  fixes a b :: nat
  shows "a < 256 \<Longrightarrow> a div 4 < 64" "a mod 4 * 16 < 64" "b < 256 \<Longrightarrow> a mod 4 * 16 + b div 16 < 64"
    "a mod 16 * 4 < 64" "b < 256 \<Longrightarrow> a mod 16 * 4 + b div 64 < 64"
  by auto

lemma sextet_values:
  fixes a b c :: nat
  assumes "b < 256" "c < 256"
  shows "a div 4 * 4 + (a mod 4 * 16 + b div 16) div 16 = a"
    "(a mod 4 * 16 + b div 16) mod 16 = b div 16"
    "b div 16 * 16 + (b mod 16 * 4 + c div 64) div 4 = b"
    "(b mod 16 * 4 + c div 64) mod 4 = c div 64"
proof -
  have "b div 16 < 16" "c div 64 < 4" using assms by auto
  then show "a div 4 * 4 + (a mod 4 * 16 + b div 16) div 16 = a"
    "(a mod 4 * 16 + b div 16) mod 16 = b div 16"
    "b div 16 * 16 + (b mod 16 * 4 + c div 64) div 4 = b"
    "(b mod 16 * 4 + c div 64) mod 4 = c div 64"
    by simp_all
qed

lemma b64_core_chars: "wf_bytes bs \<Longrightarrow> c \<in> set (b64_core bs) \<Longrightarrow> c \<noteq> b64_pad \<and> c < 128"
  by (induction bs rule: b64_core.induct) (auto simp: sextet_bounds b64_char_props)

lemma b64_encode_core:
  "b64_encode bs = b64_core bs @ replicate ((4 - length (b64_core bs) mod 4) mod 4) b64_pad"
  by (induction bs rule: b64_core.induct) (auto simp: numeral_2_eq_2)

lemma dropWhile_replicate: "dropWhile (\<lambda>c. c = x) (replicate n x @ s) = dropWhile (\<lambda>c. c = x) s"
  by (induction n) auto

lemma rstrip_core: "(\<And>c. c \<in> set s \<Longrightarrow> c \<noteq> b64_pad) \<Longrightarrow> rstrip_pad (s @ replicate n b64_pad) = s"
  by (cases s rule: rev_cases)
    (auto simp: rstrip_pad_def dropWhile_replicate dropWhile_replicate[where s = "[]", simplified])

lemma b64_eq_core: "wf_bytes bs \<Longrightarrow> b64 bs = b64_core bs"
  unfolding b64_def b64_encode_core by (rule rstrip_core) (auto dest: b64_core_chars)

lemma a2b_encode: "wf_bytes bs \<Longrightarrow> a2b 0 0 0 (b64_encode bs) = Inr bs"
proof (induction bs rule: b64_encode.induct)
  case (2 a)
  then show ?case by (simp add: sextet_bounds b64_char_props)
next
  case (3 a b)
  then have "b div 16 < 16" by auto
  with 3 show ?case
    by (simp add: sextet_bounds b64_char_props sextet_values)
next
  case (4 a b c r)
  then have "b div 16 < 16" "c div 64 < 4" by auto
  with 4 show ?case
    by (simp add: sextet_bounds b64_char_props sextet_values)
qed simp

lemma b64_roundtrip: "wf_bytes bs \<Longrightarrow> b64d (b64 bs) = Inr bs"
  unfolding b64_eq_core b64d_def
  using a2b_encode[of bs] b64_core_chars[of bs]
  by (auto simp: b64_encode_core list_all_iff)

lemma b64_inj: "wf_bytes bs \<Longrightarrow> wf_bytes cs \<Longrightarrow> b64 bs = b64 cs \<longleftrightarrow> bs = cs"
  by (metis b64_roundtrip sum.inject(2))

end
