(* ===== verification/PyUrl.thy ===== *)
theory PyUrl
  imports PyCodec
begin

text \<open>
  What the sources use of \<open>urllib.parse\<close>: \<open>urlsplit(url).path\<close> and \<open>unquote\<close>, for a URL with a scheme
  and an authority.  The validation of a bracketed host and of a non-ASCII authority
  against its NFKC normalisation is the parameter \<open>netloc_ok\<close>.
\<close>

definition url_unsafe :: "nat \<Rightarrow> bool" where
  "url_unsafe c = (c \<in> {9, 10, 13})"

text \<open>\<open>s.split(c)\<close> and \<open>c.join(...)\<close> for a one-character separator.\<close>

fun split_on :: "nat \<Rightarrow> ustr \<Rightarrow> ustr list" where
  "split_on c [] = [[]]"
| "split_on c (d # s) =
     (if d = c then [] # split_on c s
      else case split_on c s of [] \<Rightarrow> [[d]] | w # ws \<Rightarrow> (d # w) # ws)"

fun join_with :: "nat \<Rightarrow> ustr list \<Rightarrow> ustr" where
  "join_with c [] = []"
| "join_with c [w] = w"
| "join_with c (w # ws) = w @ c # join_with c ws"

lemma split_on_nonempty: "split_on c s \<noteq> []"
  by (cases s) (auto split: list.splits)

lemma join_split: "join_with c (split_on c s) = s"
proof (induction s)
  case (Cons d s)
  obtain w ws where w: "split_on c s = w # ws" using split_on_nonempty by (cases "split_on c s") auto
  then show ?case using Cons by (cases ws) auto
qed simp

text \<open>
  \<open>urlsplit\<close> of a URL whose scheme and \<open>//\<close> are known: drop tab, newline and carriage return, cut the
  authority at the first of \<open>/?#\<close>, refuse unbalanced brackets, cut the fragment, then the query.
\<close>

definition netloc_end :: "nat \<Rightarrow> bool" where
  "netloc_end c = (c \<in> {47, 63, 35})"

definition urlsplit_path :: "(ustr \<Rightarrow> bool) \<Rightarrow> nat \<Rightarrow> ustr \<Rightarrow> ustr res" where
  "urlsplit_path netloc_ok n url =
     (let rest = drop n (filter (\<lambda>c. \<not> url_unsafe c) url);
          netloc = takeWhile (\<lambda>c. \<not> netloc_end c) rest;
          path = dropWhile (\<lambda>c. \<not> netloc_end c) rest
      in rbind (rcheck ((91 \<in> set netloc) = (93 \<in> set netloc)) (ValueError ''Invalid IPv6 URL'')) (\<lambda>_.
         rbind (rcheck (netloc_ok netloc) (ValueError ''netloc'')) (\<lambda>_.
         Inr (takeWhile (\<lambda>c. c \<noteq> 63) (takeWhile (\<lambda>c. c \<noteq> 35) path)))))"

text \<open>Percent-decoding of an ASCII run to bytes, then UTF-8 with replacement.\<close>

definition hex_digit_val :: "nat \<Rightarrow> nat option" where
  "hex_digit_val c = (if 48 \<le> c \<and> c \<le> 57 then Some (c - 48)
     else if 65 \<le> c \<and> c \<le> 70 then Some (c - 55)
     else if 97 \<le> c \<and> c \<le> 102 then Some (c - 87) else None)"

fun unquote_to_bytes :: "ustr \<Rightarrow> bytes" where
  "unquote_to_bytes (p # a # b # s) =
     (if p = 37 then (case (hex_digit_val a, hex_digit_val b) of
          (Some x, Some y) \<Rightarrow> (16 * x + y) # unquote_to_bytes s
        | _ \<Rightarrow> p # unquote_to_bytes (a # b # s))
      else p # unquote_to_bytes (a # b # s))"
| "unquote_to_bytes s = s"

function unquote :: "ustr \<Rightarrow> ustr" where
  "unquote [] = []"
| "unquote (c # s) =
     (if c < 128 then
        utf8_decode_replace (unquote_to_bytes (takeWhile (\<lambda>d. d < 128) (c # s)))
          @ unquote (dropWhile (\<lambda>d. d < 128) (c # s))
      else c # unquote s)"
  by pat_completeness auto

termination
  by (relation "measure length") (auto simp: less_Suc_eq_le length_dropWhile_le)

lemma unquote_to_bytes_plain: "37 \<notin> set s \<Longrightarrow> unquote_to_bytes s = s"
  by (induction s rule: unquote_to_bytes.induct) auto

lemma utf8_replace_ascii: "\<forall>c\<in>set s. c < 128 \<Longrightarrow> utf8_decode_replace s = s"
proof -
  assume s: "\<forall>c\<in>set s. c < 128"
  then have "utf8_encode s = s" by (induction s) (simp_all add: utf8_encode_def utf8_char_def)
  moreover have "scalar_str s" using s by (induction s) (simp_all add: is_surrogate_def)
  ultimately show ?thesis using utf8_replace_encode[of s] by simp
qed

lemma unquote_plain: "37 \<notin> set s \<Longrightarrow> unquote s = s"
proof (induction s rule: unquote.induct)
  case (2 c s)
  show ?case
  proof (cases "c < 128")
    case True
    let ?a = "takeWhile (\<lambda>d. d < 128) (c # s)" and ?r = "dropWhile (\<lambda>d. d < 128) (c # s)"
    have "37 \<notin> set ?a" using 2(3) set_takeWhileD[of 37 "\<lambda>d. d < 128" "c # s"] by blast
    moreover have "37 \<notin> set ?r" using 2(3) set_dropWhileD[of 37 "\<lambda>d. d < 128" "c # s"] by blast
    moreover have "\<forall>d\<in>set ?a. d < 128" using set_takeWhileD[of _ "\<lambda>d. d < 128" "c # s"] by blast
    ultimately have "utf8_decode_replace (unquote_to_bytes ?a) = ?a" "unquote ?r = ?r"
      using 2(1) True by (auto simp: unquote_to_bytes_plain utf8_replace_ascii simp del: takeWhile.simps)
    then show ?thesis using True by (simp del: takeWhile.simps dropWhile.simps)
  qed (use 2 in auto)
qed simp

end
