(* ===== verification/PyRegex.thy ===== *)
theory PyRegex
  imports PyBase
begin

text \<open>
  The fragment of Python's \<open>re\<close> the sources use: character sets, sequence, alternation, bounded and
  optional repetition, lookahead, and \<open>$\<close> (which also matches before a final newline).  \<open>rx_rest\<close>
  lists the remainders of the input after each way to match, so \<open>pattern.match(s)\<close> succeeds exactly
  when the list is not empty.
\<close>

datatype rx =
    Cls "nat \<Rightarrow> bool"
  | Eps
  | Cat rx rx
  | Alt rx rx
  | Upto nat rx
  | Ahead rx
  | Dollar

fun upto_rest :: "(ustr \<Rightarrow> ustr list) \<Rightarrow> nat \<Rightarrow> ustr \<Rightarrow> ustr list" where
  "upto_rest f 0 s = [s]"
| "upto_rest f (Suc n) s = s # concat (map (upto_rest f n) (f s))"

primrec rx_rest :: "rx \<Rightarrow> ustr \<Rightarrow> ustr list" where
  "rx_rest (Cls P) = (\<lambda>s. case s of [] \<Rightarrow> [] | c # t \<Rightarrow> if P c then [t] else [])"
| "rx_rest Eps = (\<lambda>s. [s])"
| "rx_rest (Cat a b) = (\<lambda>s. concat (map (rx_rest b) (rx_rest a s)))"
| "rx_rest (Alt a b) = (\<lambda>s. rx_rest a s @ rx_rest b s)"
| "rx_rest (Upto n a) = upto_rest (rx_rest a) n"
| "rx_rest (Ahead a) = (\<lambda>s. if rx_rest a s = [] then [] else [s])"
| "rx_rest Dollar = (\<lambda>s. if s = [] \<or> s = [10] then [s] else [])"

definition re_match :: "rx \<Rightarrow> ustr \<Rightarrow> bool" where
  "re_match r s = (rx_rest r s \<noteq> [])"

text \<open>\<open>fullmatch\<close>: some match uses the whole input.\<close>

definition re_fullmatch :: "rx \<Rightarrow> ustr \<Rightarrow> bool" where
  "re_fullmatch r s = ([] \<in> set (rx_rest r s))"

fun word_rx :: "ustr \<Rightarrow> rx" where
  "word_rx [] = Eps"
| "word_rx (c # s) = Cat (Cls (\<lambda>d. d = c)) (word_rx s)"

definition is_lower :: "nat \<Rightarrow> bool" where
  "is_lower c = (97 \<le> c \<and> c \<le> 122)"

definition is_upper :: "nat \<Rightarrow> bool" where
  "is_upper c = (65 \<le> c \<and> c \<le> 90)"

definition is_digit :: "nat \<Rightarrow> bool" where
  "is_digit c = (48 \<le> c \<and> c \<le> 57)"

lemma rx_rest_suffix: "t \<in> set (rx_rest r s) \<Longrightarrow> suffix t s"
proof (induction r arbitrary: s t)
  case (Cls P)
  then show ?case by (cases s) (auto split: if_splits simp: suffix_ConsI)
next
  case (Cat a b)
  then show ?case by (fastforce dest: suffix_order.trans)
next
  case (Upto n a)
  then have "t \<in> set (upto_rest (rx_rest a) n s)" by simp
  then show ?case
  proof (induction n arbitrary: s)
    case (Suc n)
    then show ?case using Upto.IH by (fastforce dest: suffix_order.trans)
  qed simp
qed (auto split: if_splits)

lemma word_rx_rest: "t \<in> set (rx_rest (word_rx w) s) \<longleftrightarrow> s = w @ t"
  by (induction w arbitrary: s) (auto split: list.splits)

end
