(* ===== verification/PyJson.thy ===== *)
theory PyJson
  imports PyCodec
begin

text \<open>
  \<open>json.dumps(v, separators=(",", ":"), ensure_ascii=False)\<close>: the compact JSON text of a value.  The
  text of a float is a parameter (\<open>float.__repr__\<close>); all signed material is float-free.  The main fact is
  that the text of a float-free value determines the value, with the order of every object's keys.
\<close>

section \<open>Serialisation\<close>

fun dec_nat :: "nat \<Rightarrow> ustr" where
  "dec_nat n = (if n < 10 then [48 + n] else dec_nat (n div 10) @ [48 + n mod 10])"

declare dec_nat.simps [simp del]

definition dec_int :: "int \<Rightarrow> ustr" where
  "dec_int i = (if i < 0 then 45 # dec_nat (nat (- i)) else dec_nat (nat i))"

definition escape_char :: "nat \<Rightarrow> ustr" where
  "escape_char c =
     (if c = 34 then [92, 34] else if c = 92 then [92, 92]
      else if c = 10 then [92, 110] else if c = 13 then [92, 114] else if c = 9 then [92, 116]
      else if c = 12 then [92, 102] else if c = 8 then [92, 98]
      else if c < 32 then [92, 117, 48, 48, hex_digit (c div 16), hex_digit (c mod 16)]
      else [c])"

definition json_str :: "ustr \<Rightarrow> ustr" where
  "json_str s = 34 # concat (map escape_char s) @ [34]"

fun joined :: "ustr list \<Rightarrow> ustr" where
  "joined [] = []"
| "joined [x] = x"
| "joined (x # y # r) = x @ 44 # joined (y # r)"

fun json_text :: "(pyfloat \<Rightarrow> ustr) \<Rightarrow> pyval \<Rightarrow> ustr" where
  "json_text fr PNone = [110, 117, 108, 108]"
| "json_text fr (PBool b) = (if b then [116, 114, 117, 101] else [102, 97, 108, 115, 101])"
| "json_text fr (PInt i) = dec_int i"
| "json_text fr (PFloat f) = fr f"
| "json_text fr (PStr s) = json_str s"
| "json_text fr (PList xs) = 91 # joined (map (json_text fr) xs) @ [93]"
| "json_text fr (PDict d) =
     123 # joined (map (\<lambda>kv. json_str (fst kv) @ 58 # json_text fr (snd kv)) d) @ [125]"

fun float_free :: "pyval \<Rightarrow> bool" where
  "float_free (PFloat f) = False"
| "float_free (PList xs) = (\<forall>v\<in>set xs. float_free v)"
| "float_free (PDict d) = (\<forall>kv\<in>set d. float_free (snd kv))"
| "float_free v = True"

section \<open>The text determines the value\<close>

definition no_digit_start :: "ustr \<Rightarrow> bool" where
  "no_digit_start r = (\<forall>c r'. r = c # r' \<longrightarrow> \<not> (48 \<le> c \<and> c \<le> 57))"

lemma no_digit_start_simps [simp]:
  "no_digit_start []"
  "no_digit_start (c # r) \<longleftrightarrow> \<not> (48 \<le> c \<and> c \<le> 57)"
  by (auto simp: no_digit_start_def)

definition num_val :: "ustr \<Rightarrow> nat" where
  "num_val s = foldl (\<lambda>a c. 10 * a + (c - 48)) 0 s"

lemma num_val_dec: "num_val (dec_nat n) = n"
proof (induction n rule: dec_nat.induct)
  case (1 n)
  then show ?case by (subst dec_nat.simps) (auto simp: num_val_def)
qed

lemma dec_nat_digits: "c \<in> set (dec_nat n) \<Longrightarrow> 48 \<le> c \<and> c \<le> 57"
proof (induction n rule: dec_nat.induct)
  case (1 n)
  then show ?case by (cases "n < 10") (auto simp: dec_nat.simps[of n])
qed

lemma dec_nat_nonempty: "dec_nat n \<noteq> []"
  by (subst dec_nat.simps) simp

lemma dec_nat_prefix_inj:
  assumes "dec_nat m @ r = dec_nat n @ s" "no_digit_start r" "no_digit_start s"
  shows "m = n \<and> r = s"
proof -
  let ?d = "\<lambda>c. 48 \<le> c \<and> c \<le> (57::nat)"
  have tw: "takeWhile ?d (dec_nat k @ t) = dec_nat k" if "no_digit_start t" for k t
    using that dec_nat_digits[of _ k]
    by (cases t) (auto simp: takeWhile_append2 takeWhile_eq_all_conv takeWhile_tail)
  have "dec_nat m = dec_nat n"
    using tw[OF assms(2), of m] tw[OF assms(3), of n] assms(1) by simp
  then show ?thesis using assms(1) num_val_dec by (metis same_append_eq)
qed

lemma dec_nat_head: "\<exists>c t. dec_nat n = c # t \<and> 48 \<le> c \<and> c \<le> 57"
proof -
  obtain c t where "dec_nat n = c # t" using dec_nat_nonempty by (cases "dec_nat n") auto
  then show ?thesis using dec_nat_digits[of c n] by simp
qed

lemma dec_int_prefix_inj:
  assumes "dec_int i @ r = dec_int j @ s" "no_digit_start r" "no_digit_start s"
  shows "i = j \<and> r = s"
proof -
  have dash: "45 # u \<noteq> dec_nat n @ v" "dec_nat n @ v \<noteq> 45 # u" for u v n
    using dec_nat_head[of n] by auto
  show ?thesis
  proof (cases "i < 0"; cases "j < 0")
    assume "i < 0" "j < 0"
    then show ?thesis using assms dec_nat_prefix_inj[of "nat (- i)" r "nat (- j)" s]
      by (auto simp: dec_int_def)
  next
    assume "\<not> i < 0" "\<not> j < 0"
    then show ?thesis using assms dec_nat_prefix_inj[of "nat i" r "nat j" s]
      by (auto simp: dec_int_def)
  qed (use assms dash in \<open>auto simp: dec_int_def\<close>)
qed

text \<open>Every escape is self-delimiting, and none starts with the closing quote.\<close>

definition unescape_tail :: "ustr \<Rightarrow> nat \<times> ustr" where
  "unescape_tail t = (case t of
       [] \<Rightarrow> (0, [])
     | e # r \<Rightarrow>
         if e = 117 then (16 * the (hex_val (r ! 2)) + the (hex_val (r ! 3)), drop 4 r)
         else (if e = 110 then 10 else if e = 114 then 13 else if e = 116 then 9
               else if e = 102 then 12 else if e = 98 then 8 else e, r))"

definition unescape :: "ustr \<Rightarrow> nat \<times> ustr" where
  "unescape t = (if hd t = 92 then unescape_tail (tl t) else (hd t, tl t))"

lemma unescape_escape: "unescape (escape_char c @ u) = (c, u)"
proof (cases "c < 32")
  case True
  then have "c div 16 < 16" "c mod 16 < 16" by auto
  then show ?thesis using True
    by (auto simp: escape_char_def hex_val_digit unescape_def unescape_tail_def)
next
  case False
  then show ?thesis
    by (auto simp: escape_char_def unescape_def unescape_tail_def)
qed

lemma escape_char_inj: "escape_char c @ u = escape_char d @ v \<Longrightarrow> c = d \<and> u = v"
  by (metis unescape_escape prod.inject)

lemma escape_char_head: "\<exists>b t. escape_char c = b # t \<and> b \<noteq> 34"
  by (auto simp: escape_char_def)

lemma escapes_prefix_inj:
  "concat (map escape_char s) @ 34 # u = concat (map escape_char t) @ 34 # v \<Longrightarrow> s = t \<and> u = v"
proof (induction s arbitrary: t)
  case Nil
  then show ?case
    using escape_char_head by (cases t) (auto, metis append_Cons list.inject)
next
  case (Cons c s)
  show ?case
  proof (cases t)
    case Nil
    with Cons.prems escape_char_head[of c] show ?thesis by auto
  next
    case (Cons d t')
    with Cons.prems escape_char_inj[of c _ d] have "c = d"
      and "concat (map escape_char s) @ 34 # u = concat (map escape_char t') @ 34 # v"
      by fastforce+
    with Cons.IH Cons show ?thesis by blast
  qed
qed

lemma json_str_prefix_inj: "json_str s @ u = json_str t @ v \<Longrightarrow> s = t \<and> u = v"
  using escapes_prefix_inj[of s u t v] by (simp add: json_str_def)

text \<open>The first character of a value's text fixes its type.\<close>

definition kind_char :: "nat \<Rightarrow> nat" where
  "kind_char c = (if c = 45 \<or> 48 \<le> c \<and> c \<le> 57 then 48 else c)"

fun kind_of :: "pyval \<Rightarrow> nat" where
  "kind_of PNone = 110"
| "kind_of (PBool b) = (if b then 116 else 102)"
| "kind_of (PInt i) = 48"
| "kind_of (PFloat f) = 0"
| "kind_of (PStr s) = 34"
| "kind_of (PList xs) = 91"
| "kind_of (PDict d) = 123"

lemma dec_int_head: "\<exists>c t. dec_int i = c # t \<and> kind_char c = 48"
proof (cases "i < 0")
  case False
  then show ?thesis using dec_nat_head[of "nat i"] by (force simp: dec_int_def kind_char_def)
qed (simp add: dec_int_def kind_char_def)

lemma kind_ofD:
  "kind_of v = 110 \<Longrightarrow> v = PNone"
  "kind_of v = 116 \<Longrightarrow> v = PBool True"
  "kind_of v = 102 \<Longrightarrow> v = PBool False"
  "kind_of v = 48 \<Longrightarrow> \<exists>i. v = PInt i"
  "kind_of v = 34 \<Longrightarrow> \<exists>s. v = PStr s"
  "kind_of v = 91 \<Longrightarrow> \<exists>xs. v = PList xs"
  "kind_of v = 123 \<Longrightarrow> \<exists>d. v = PDict d"
  by (cases v; simp split: if_splits)+

lemma json_text_head:
  "float_free v \<Longrightarrow> \<exists>c t. json_text fr v = c # t \<and> kind_char c = kind_of v"
  using dec_int_head by (cases v) (auto simp: json_str_def kind_char_def)

lemma json_text_kind:
  assumes "json_text fr v @ r = json_text fr w @ s" "float_free v" "float_free w"
  shows "kind_of v = kind_of w"
  using assms json_text_head[of v fr] json_text_head[of w fr] by fastforce

text \<open>A value's text is not empty and does not start with the closing bracket of an array.\<close>

lemma json_text_not_close: "float_free v \<Longrightarrow> json_text fr v @ r \<noteq> 93 # s"
  using json_text_head[of v fr] by (cases v) (auto simp: kind_char_def)

definition prefix_inj_on :: "('a \<Rightarrow> ustr) \<Rightarrow> 'a \<Rightarrow> ('a \<Rightarrow> bool) \<Rightarrow> bool" where
  "prefix_inj_on f x D \<longleftrightarrow> (\<forall>y r s. D y \<longrightarrow> no_digit_start r \<longrightarrow> no_digit_start s \<longrightarrow>
     f x @ r = f y @ s \<longrightarrow> x = y \<and> r = s)"

lemma prefix_inj_onD:
  "prefix_inj_on f x D \<Longrightarrow> D y \<Longrightarrow> no_digit_start r \<Longrightarrow> no_digit_start s \<Longrightarrow>
    f x @ r = f y @ s \<Longrightarrow> x = y \<and> r = s"
  unfolding prefix_inj_on_def by blast

lemma joined_Cons: "joined (x # xs) = x @ (if xs = [] then [] else 44 # joined xs)"
  by (cases xs) auto

lemma joined_prefix_inj:
  assumes "\<And>x. x \<in> set xs \<Longrightarrow> prefix_inj_on f x D" "\<And>y. y \<in> set ys \<Longrightarrow> D y"
    and "\<And>x r s. x \<in> set xs \<union> set ys \<Longrightarrow> f x @ r \<noteq> c # s" "c \<noteq> 44" "\<not> (48 \<le> c \<and> c \<le> 57)"
    and "joined (map f xs) @ c # r = joined (map f ys) @ c # s"
  shows "xs = ys \<and> r = s"
  using assms
proof (induction xs arbitrary: ys)
  case Nil
  show ?case
  proof (cases ys)
    case (Cons y ys')
    then have "f y @ (if ys' = [] then c # s else 44 # joined (map f ys') @ c # s) = c # r"
      using Nil.prems(6) by (auto simp: joined_Cons split: if_splits)
    then show ?thesis using Nil.prems(3)[of y] Cons by auto
  qed (use Nil in simp)
next
  case (Cons x xs)
  show ?case
  proof (cases ys)
    case Nil
    then have "f x @ (if xs = [] then c # r else 44 # joined (map f xs) @ c # r) = c # s"
      using Cons.prems(6) by (auto simp: joined_Cons split: if_splits)
    then show ?thesis using Cons.prems(3)[of x] by auto
  next
    case (Cons y ys')
    define t where "t zs = (if zs = [] then c # [] else 44 # joined (map f zs) @ [c])" for zs
    have eq: "f x @ (t xs @ r) = f y @ (t ys' @ s)"
      using Cons.prems(6) by (simp add: \<open>ys = y # ys'\<close> joined_Cons t_def split: if_splits)
    have "no_digit_start (t xs @ r)" "no_digit_start (t ys' @ s)"
      using Cons.prems(5) by (auto simp: t_def)
    then have "x = y" and tl: "t xs @ r = t ys' @ s"
      using prefix_inj_onD[OF Cons.prems(1), of x y] eq Cons.prems(2) \<open>ys = y # ys'\<close> by auto
    have "xs = ys' \<and> r = s"
    proof (cases "xs = [] \<or> ys' = []")
      case True
      with tl Cons.prems(4) show ?thesis by (auto simp: t_def split: if_splits)
    next
      case False
      with tl have "joined (map f xs) @ c # r = joined (map f ys') @ c # s"
        by (simp add: t_def)
      then show ?thesis
        using Cons.IH[of ys'] Cons.prems(1-5) \<open>ys = y # ys'\<close> by auto
    qed
    with \<open>x = y\<close> \<open>ys = y # ys'\<close> show ?thesis by simp
  qed
qed

lemma json_text_prefix_inj:
  "float_free v \<Longrightarrow> prefix_inj_on (json_text fr) v float_free"
proof (induction v)
  case (PList xs)
  show ?case unfolding prefix_inj_on_def
  proof (intro allI impI)
    fix y r s
    assume a: "float_free y" "json_text fr (PList xs) @ r = json_text fr y @ s"
    then have "kind_of y = 91" using json_text_kind[OF a(2)] PList.prems by simp
    then obtain ys where y: "y = PList ys" using kind_ofD by blast
    have "xs = ys \<and> r = s"
      by (rule joined_prefix_inj[where f = "json_text fr" and D = float_free and c = 93])
        (use PList a y json_text_not_close in auto)
    then show "PList xs = y \<and> r = s" by (simp add: y)
  qed
next
  case (PDict d)
  let ?f = "\<lambda>kv. json_str (fst kv) @ 58 # json_text fr (snd kv)"
  have f: "prefix_inj_on ?f kv (\<lambda>kv. float_free (snd kv))" if "kv \<in> set d" for kv
  proof -
    have "prefix_inj_on (json_text fr) (snd kv) float_free"
      using PDict that by (metis float_free.simps(3) prod.collapse snds.intros)
    then show ?thesis
      unfolding prefix_inj_on_def by (auto dest!: json_str_prefix_inj intro: prod_eqI)
  qed
  show ?case unfolding prefix_inj_on_def
  proof (intro allI impI)
    fix y r s
    assume a: "float_free y" "json_text fr (PDict d) @ r = json_text fr y @ s"
    then have "kind_of y = 123" using json_text_kind[OF a(2)] PDict.prems by simp
    then obtain e where y: "y = PDict e" using kind_ofD by blast
    have "d = e \<and> r = s"
      by (rule joined_prefix_inj[where f = ?f and D = "\<lambda>kv. float_free (snd kv)" and c = 125])
        (use f a y in \<open>auto simp: json_str_def\<close>)
    then show "PDict d = y \<and> r = s" by (simp add: y)
  qed
next
  case PNone
  show ?case unfolding prefix_inj_on_def
  proof (intro allI impI)
    fix y r s
    assume a: "float_free y" "json_text fr PNone @ r = json_text fr y @ s"
    then have "y = PNone" using json_text_kind[OF a(2)] kind_ofD(1) by simp
    with a show "PNone = y \<and> r = s" by simp
  qed
next
  case (PBool b)
  show ?case unfolding prefix_inj_on_def
  proof (intro allI impI)
    fix y r s
    assume a: "float_free y" "json_text fr (PBool b) @ r = json_text fr y @ s"
    then have "y = PBool b" using json_text_kind[OF a(2)] kind_ofD(2,3)[of y] by (cases b) simp_all
    with a show "PBool b = y \<and> r = s" by simp
  qed
next
  case (PInt i)
  show ?case unfolding prefix_inj_on_def
  proof (intro allI impI)
    fix y r s
    assume a: "float_free y" "no_digit_start r" "no_digit_start s"
      "json_text fr (PInt i) @ r = json_text fr y @ s"
    then obtain j where "y = PInt j" using json_text_kind[OF a(4)] kind_ofD(4)[of y] by auto
    with a show "PInt i = y \<and> r = s" using dec_int_prefix_inj[of i r j s] by simp
  qed
next
  case (PStr t)
  show ?case unfolding prefix_inj_on_def
  proof (intro allI impI)
    fix y r s
    assume a: "float_free y" "json_text fr (PStr t) @ r = json_text fr y @ s"
    then obtain u where "y = PStr u" using json_text_kind[OF a(2)] kind_ofD(5)[of y] by auto
    with a show "PStr t = y \<and> r = s" using json_str_prefix_inj[of t r u s] by simp
  qed
qed simp

theorem json_text_inj:
  "float_free v \<Longrightarrow> float_free w \<Longrightarrow> json_text fr v = json_text fr w \<Longrightarrow> v = w"
  using prefix_inj_onD[OF json_text_prefix_inj[of v fr], of w "[]" "[]"] by simp

text \<open>The text of a value whose strings have no surrogate has none.\<close>

fun scalar_val :: "pyval \<Rightarrow> bool" where
  "scalar_val (PStr s) = scalar_str s"
| "scalar_val (PList xs) = (\<forall>v\<in>set xs. scalar_val v)"
| "scalar_val (PDict d) = (\<forall>kv\<in>set d. scalar_str (fst kv) \<and> scalar_val (snd kv))"
| "scalar_val v = True"

lemma scalar_dec_int: "scalar_str (dec_int i)"
proof -
  have "scalar_str (dec_nat n)" for n
    using dec_nat_digits by (fastforce simp: scalar_str_def list_all_iff is_surrogate_def)
  then show ?thesis by (simp add: dec_int_def is_surrogate_def)
qed

lemma scalar_json_str: "scalar_str s \<Longrightarrow> scalar_str (json_str s)"
  by (induction s) (auto simp: json_str_def escape_char_def is_surrogate_def hex_digit_def)

lemma scalar_joined: "scalar_str (joined xs) \<longleftrightarrow> (\<forall>x\<in>set xs. scalar_str x)"
  by (induction xs rule: joined.induct) (auto simp: is_surrogate_def)

lemma scalar_json_text: "float_free v \<Longrightarrow> scalar_val v \<Longrightarrow> scalar_str (json_text fr v)"
  by (induction v)
    (fastforce simp: scalar_dec_int scalar_json_str scalar_joined is_surrogate_def)+

end
