(* ===== verification/Canon.thy ===== *)
theory Canon
  imports PyJson
begin

text \<open>
  The shared canonical-ordering helpers, \<open>raucle/_canon.py\<close>: rejection of lone surrogates, the UTF-16
  sort keys, recursive key reordering, and the duplicate-key hook.  \<open>py_sorted\<close> is Python's
  \<open>sorted(xs, key=...)\<close>: all keys are computed first, then a stable sort.

  The locale \<open>canonical_key\<close> is the contract the signing modules rely on: a sort key that is defined
  and injective on the admitted members makes the sorted list a function of the multiset of members.  It
  is interpreted for \<open>utf16_key\<close> and for \<open>value_sort_key\<close>.
\<close>

section \<open>Sorting with a key that may raise\<close>

definition py_sorted :: "('a \<Rightarrow> 'e + 'k::linorder) \<Rightarrow> 'a list \<Rightarrow> 'e + 'a list" where
  "py_sorted key xs = rbind (rmap key xs) (\<lambda>ks. Inr (map snd (sort_key fst (zip ks xs))))"

lemma py_sorted_mset: "py_sorted key xs = Inr ys \<Longrightarrow> mset ys = mset xs"
proof -
  assume "py_sorted key xs = Inr ys"
  then obtain ks where "rmap key xs = Inr ks" and ys: "ys = map snd (sort_key fst (zip ks xs))"
    by (auto simp: py_sorted_def)
  then have "length ks = length xs" by (auto simp: rmap_eq_Inr_iff dest: list_all2_lengthD)
  then have "mset (map snd (zip ks xs)) = mset xs" by simp
  then show "mset ys = mset xs" by (simp add: ys mset_map[symmetric] del: mset_map)
      (simp add: mset_map)
qed

lemma py_sorted_set: "py_sorted key xs = Inr ys \<Longrightarrow> set ys = set xs"
  by (metis py_sorted_mset mset_eq_setD)

lemma py_sorted_eq_sort_key:
  assumes "\<And>x. x \<in> set xs \<Longrightarrow> key x = Inr (f x)"
  shows "py_sorted key xs = Inr (sort_key f xs)"
proof -
  have "rmap key xs = Inr (map f xs)" by (rule rmap_Inr_all) (rule assms)
  moreover have "map snd (sort_key fst (zip (map f xs) xs)) = sort_key f xs"
  proof (induction xs)
    case (Cons x xs)
    have "map snd (insort_key fst (f x, x) zs) = insort_key f x (map snd zs)"
      if "\<forall>z\<in>set zs. fst z = f (snd z)" for zs
      using that by (induction zs) auto
    moreover have "\<forall>z\<in>set (sort_key fst (zip (map f xs) xs)). fst z = f (snd z)"
      by (auto simp: zip_map1 set_zip in_set_conv_nth)
    ultimately show ?case using Cons by simp
  qed simp
  ultimately show ?thesis by (simp add: py_sorted_def)
qed

lemma rmap_zip_keys:
  "rmap key xs = Inr ks \<Longrightarrow> z \<in> set (zip ks xs) \<Longrightarrow> key (snd z) = Inr (fst z)"
  by (auto simp: rmap_eq_Inr_iff list_all2_conv_all_nth set_zip)

lemma py_sorted_idem:
  assumes "py_sorted key xs = Inr ys"
  shows "py_sorted key ys = Inr ys"
proof -
  obtain ks where ks: "rmap key xs = Inr ks" and ys: "ys = map snd (sort_key fst (zip ks xs))"
    using assms by (auto simp: py_sorted_def)
  let ?zs = "sort_key fst (zip ks xs)"
  have "rmap key (map snd ?zs) = Inr (map fst ?zs)"
    unfolding rmap_eq_Inr_iff list_all2_map1 list_all2_map2
    using rmap_zip_keys[OF ks] by (auto simp: list.rel_refl_strong list_all2_same)
  then show ?thesis by (simp add: py_sorted_def ys zip_map_fst_snd sort_key_id_if_sorted)
qed

text \<open>A sort by an injective key depends on the multiset only.\<close>

lemma sort_key_inj_unique:
  assumes "inj_on f (set xs)" "mset xs = mset ys"
  shows "sort_key f xs = sort_key f ys"
proof (rule map_inj_on)
  have "set ys = set xs" using assms(2) by (metis mset_eq_setD)
  then show "inj_on f (set (sort_key f xs) \<union> set (sort_key f ys))" using assms(1) by simp
  have "mset (map f (sort_key f xs)) = mset (map f (sort_key f ys))" using assms(2) by simp
  then show "map f (sort_key f xs) = map f (sort_key f ys)"
    by (metis sorted_sort_key properties_for_sort)
qed

locale canonical_key =
  fixes key :: "'a \<Rightarrow> pyexc + 'k::linorder"
    and keyval :: "'a \<Rightarrow> 'k"
    and adm :: "'a \<Rightarrow> bool"
  assumes key_total: "adm x \<Longrightarrow> key x = Inr (keyval x)"
    and key_inj: "adm x \<Longrightarrow> adm y \<Longrightarrow> keyval x = keyval y \<Longrightarrow> x = y"
begin

lemma sorted_eq: "\<forall>x\<in>set xs. adm x \<Longrightarrow> py_sorted key xs = Inr (sort_key keyval xs)"
  by (rule py_sorted_eq_sort_key) (simp add: key_total)

lemma sorted_canonical:
  assumes "\<forall>x\<in>set xs. adm x" "mset xs = mset ys"
  shows "py_sorted key xs = py_sorted key ys"
proof -
  have "set ys = set xs" using assms(2) by (metis mset_eq_setD)
  moreover have "inj_on keyval (set xs)" using assms(1) key_inj by (auto intro!: inj_onI)
  ultimately show ?thesis using assms sort_key_inj_unique by (simp add: sorted_eq)
qed

end

section \<open>The helpers of _canon.py\<close>

definition reject_lone_surrogates :: "ustr \<Rightarrow> unit res" where
  "reject_lone_surrogates s =
     reach (\<lambda>ch. rcheck (\<not> (0xD800 \<le> ch \<and> ch \<le> 0xDFFF)) (ValueError ''lone surrogate'')) s"

definition utf16_key :: "ustr \<Rightarrow> bytes res" where
  "utf16_key s = rbind (reject_lone_surrogates s) (\<lambda>_. Inr (utf16_be s))"

text \<open>
  The key triple (rank, type name, comparable); the comparable is the UTF-16 bytes of a string or
  the value of an integer or boolean, the only members the callers let through.
\<close>

type_synonym sort_triple = "nat \<times> ustr \<times> bytes \<times> int"

fun value_sort_key :: "pyval \<Rightarrow> sort_triple res" where
  "value_sort_key (PStr s) =
     rbind (reject_lone_surrogates s) (\<lambda>_. Inr (0, lit ''str'', utf16_be s, 0))"
| "value_sort_key (PInt i) = Inr (1, lit ''int'', [], i)"
| "value_sort_key (PBool b) = Inr (1, lit ''bool'', [], if b then 1 else 0)"
| "value_sort_key v = Inl (TypeError ''unorderable'')"

fun reorder_keys_utf16 :: "pyval \<Rightarrow> pyval res" where
  "reorder_keys_utf16 (PDict d) =
     rbind (rmap (\<lambda>kv. utf16_key (fst kv)) d) (\<lambda>_.
     rbind (rmap (\<lambda>kv. rbind (reorder_keys_utf16 (snd kv)) (\<lambda>v. Inr (fst kv, v)))
                 (sort_key (utf16_be \<circ> fst) d)) (\<lambda>d'.
     Inr (PDict d')))"
| "reorder_keys_utf16 (PList xs) = rbind (rmap reorder_keys_utf16 xs) (\<lambda>ys. Inr (PList ys))"
| "reorder_keys_utf16 v = Inr v"

definition reject_duplicate_keys :: "(ustr \<times> pyval) list \<Rightarrow> pydict res" where
  "reject_duplicate_keys pairs =
     rfold (\<lambda>kv seen. if has_key seen (fst kv) then Inl (ValueError ''duplicate key'')
       else Inr (dict_set (fst kv) (snd kv) seen)) pairs []"

section \<open>Facts\<close>

lemma reject_lone_surrogates_iff [simp]:
  "reject_lone_surrogates s = Inr u \<longleftrightarrow> (\<forall>c\<in>set s. \<not> is_surrogate c)"
  by (simp add: reject_lone_surrogates_def is_surrogate_def)

lemma scalar_str_iff: "wf_str s \<Longrightarrow> scalar_str s \<longleftrightarrow> (\<forall>c\<in>set s. \<not> is_surrogate c)"
  by (auto simp: wf_str_def scalar_str_def list_all_iff)

lemma scalar_strD: "scalar_str s \<Longrightarrow> reject_lone_surrogates s = Inr ()"
  by (auto simp: scalar_str_def list_all_iff)

lemma utf16_key_scalar [simp]: "scalar_str s \<Longrightarrow> utf16_key s = Inr (utf16_be s)"
  by (simp add: utf16_key_def scalar_strD)

interpretation utf16_sort: canonical_key utf16_key utf16_be scalar_str
  by unfold_locales (auto simp: utf16_be_inj)

fun value_key :: "pyval \<Rightarrow> sort_triple" where
  "value_key (PStr s) = (0, lit ''str'', utf16_be s, 0)"
| "value_key (PInt i) = (1, lit ''int'', [], i)"
| "value_key (PBool b) = (1, lit ''bool'', [], if b then 1 else 0)"
| "value_key v = (2, [], [], 0)"

definition sortable :: "pyval \<Rightarrow> bool" where
  "sortable v = (is_scalar v \<and> scalar_val v)"

interpretation value_sort: canonical_key value_sort_key value_key sortable
proof
  fix x :: pyval
  assume "sortable x"
  then show "value_sort_key x = Inr (value_key x)"
    by (cases x) (auto simp: sortable_def scalar_strD)
next
  fix x y :: pyval
  assume "sortable x" "sortable y" "value_key x = value_key y"
  then show "x = y"
    by (cases x; cases y) (auto simp: sortable_def utf16_be_inj split: if_splits)
qed

section \<open>Key reordering is a normal form\<close>

text \<open>Equality of JSON values: objects are unordered, types are strict (\<open>true\<close> is not \<open>1\<close>).\<close>

fun same_json :: "pyval \<Rightarrow> pyval \<Rightarrow> bool" where
  "same_json (PList xs) (PList ys) = list_all2 same_json xs ys"
| "same_json (PDict d) (PDict e) =
     (length d = length e \<and>
      list_all (\<lambda>kv. case map_of e (fst kv) of None \<Rightarrow> False | Some w \<Rightarrow> same_json (snd kv) w) d)"
| "same_json v w = (v = w)"

lemma distinct_map_sort_key: "distinct (map g (sort_key f xs)) = distinct (map g xs)"
  by (metis mset_eq_imp_distinct_iff mset_map mset_sort)

lemma reorder_dict:
  assumes "reorder_keys_utf16 (PDict d) = Inr w" "distinct (map fst d)" "\<forall>kv\<in>set d. wf_str (fst kv)"
  obtains d' where "w = PDict d'" "sorted (map (utf16_be \<circ> fst) d')" "distinct (map fst d')"
    "fst ` set d' = fst ` set d" "length d' = length d" "\<forall>k\<in>fst ` set d. scalar_str k"
    "\<And>k v. map_of d k = Some v \<Longrightarrow> \<exists>v'. reorder_keys_utf16 v = Inr v' \<and> map_of d' k = Some v'"
proof -
  let ?s = "sort_key (utf16_be \<circ> fst) d"
  let ?R = "\<lambda>kv kv'. fst kv' = fst kv \<and> reorder_keys_utf16 (snd kv) = Inr (snd kv')"
  obtain ks d' where ks: "rmap (\<lambda>kv. utf16_key (fst kv)) d = Inr ks" and w: "w = PDict d'"
    and l: "list_all2 (\<lambda>kv kv'. rbind (reorder_keys_utf16 (snd kv)) (\<lambda>v. Inr (fst kv, v)) = Inr kv') ?s d'"
    using assms(1) by (auto simp: rmap_eq_Inr_iff[where xs = ?s])
  from l have r: "list_all2 ?R ?s d'"
    by (rule list_all2_mono) auto
  then have fsts: "map fst d' = map fst ?s" and len: "length d' = length ?s"
    by (induction rule: list_all2_induct) auto
  have scal: "\<forall>k\<in>fst ` set d. scalar_str k"
    using ks assms(3)
    by (auto simp: rmap_eq_Inr_iff list_all2_conv_all_nth in_set_conv_nth utf16_key_def scalar_str_iff)
      (metis nth_mem prod.collapse fst_conv)+
  have mo: "\<exists>v'. reorder_keys_utf16 v = Inr v' \<and> map_of d' k = Some v'" if "map_of ?s k = Some v" for k v
    using r that by (induction rule: list_all2_induct) (auto split: if_splits)
  have ms: "map_of ?s = map_of d"
    using assms(2) by (intro map_of_inject_set[THEN iffD2]) (auto simp: distinct_map_sort_key)
  show thesis
  proof (rule that[OF w])
    show "sorted (map (utf16_be \<circ> fst) d')"
      using sorted_sort_key[of "utf16_be \<circ> fst" d] fsts by (metis map_map)
    show "distinct (map fst d')" using fsts assms(2) by (simp add: distinct_map_sort_key)
    show "fst ` set d' = fst ` set d" using fsts by (metis set_map set_sort)
    show "length d' = length d" using len by simp
  qed (use scal mo ms in auto)
qed

lemma reorder_shape:
  "reorder_keys_utf16 (PList xs) = Inr w \<Longrightarrow> \<exists>ys. w = PList ys"
  "reorder_keys_utf16 (PDict d) = Inr w \<Longrightarrow> \<exists>e. w = PDict e"
  by (simp_all only: reorder_keys_utf16.simps rbind_def split: sum.splits) auto

lemma reorder_atom:
  assumes "type_name v \<noteq> ''list''" "type_name v \<noteq> ''dict''" "reorder_keys_utf16 v = Inr v'"
    and "reorder_keys_utf16 w = Inr w'"
  shows "v' = w' \<longleftrightarrow> same_json v w"
proof -
  have v1: "v' = v" using assms(1-3) by (cases v) auto
  have v2: "same_json v w \<longleftrightarrow> v = w" using assms(1,2) by (cases v) auto
  note v = v1 v2
  show ?thesis
  proof (cases w)
    case (PList ys)
    then show ?thesis using reorder_shape(1)[of ys w'] assms v by auto
  next
    case (PDict d)
    then show ?thesis using reorder_shape(2)[of d w'] assms v by auto
  qed (use assms v in auto)
qed

lemma dict_list_unique:
  assumes "sorted (map (utf16_be \<circ> fst) d)" "sorted (map (utf16_be \<circ> fst) e)"
    and "distinct (map fst d)" "distinct (map fst e)" "map_of d = map_of e"
    and "\<forall>k\<in>fst ` set d. scalar_str k"
  shows "d = e"
proof -
  have "set d = set e" using assms(3-5) by (simp add: map_of_inject_set)
  moreover have inj: "inj_on (utf16_be \<circ> fst) (set d)"
    using assms(3,6) by (auto simp: distinct_map intro!: inj_onI)
      (metis eq_key_imp_eq_value fst_conv image_eqI utf16_be_inj distinct_map prod.sel(1) assms(3))+
  moreover have "distinct d" "distinct e" using assms(3,4) by (auto simp: distinct_map)
  ultimately show ?thesis
    using map_sorted_distinct_set_unique[of "utf16_be \<circ> fst" d e] assms(1,2)
    by (simp add: distinct_map)
qed

lemma keys_eq_of_same:
  assumes "distinct (map fst d)" "distinct (map fst e)" "length d = length e"
    and "\<forall>kv\<in>set d. map_of e (fst kv) \<noteq> None"
  shows "fst ` set d = fst ` set e"
proof -
  have "fst ` set d \<subseteq> fst ` set e" using assms(4) by (auto simp: map_of_eq_None_iff)
  moreover have "card (fst ` set d) = card (fst ` set e)"
    using assms(1-3) by (metis distinct_card length_map set_map)
  ultimately show ?thesis by (simp add: card_subset_eq)
qed

text \<open>
  The reordered form is the same exactly for equal JSON values.
\<close>

lemma reorder_same_json:
  "wf_val v \<Longrightarrow> wf_val w \<Longrightarrow> reorder_keys_utf16 v = Inr v' \<Longrightarrow> reorder_keys_utf16 w = Inr w' \<Longrightarrow>
    v' = w' \<longleftrightarrow> same_json v w"
proof (induction v arbitrary: w v' w')
  case (PList xs)
  then obtain us where us: "v' = PList us" "list_all2 (\<lambda>x u. reorder_keys_utf16 x = Inr u) xs us"
    by (auto simp: rmap_eq_Inr_iff)
  show ?case
  proof (cases w)
    case w: (PList ys)
    with PList.prems obtain vs where vs: "w' = PList vs"
      "list_all2 (\<lambda>y v. reorder_keys_utf16 y = Inr v) ys vs" by (auto simp: rmap_eq_Inr_iff)
    have "us = vs \<longleftrightarrow> list_all2 same_json xs ys"
      using us(2) vs(2) PList.IH PList.prems(1,2) w
      by (auto simp: list_all2_conv_all_nth nth_equalityI list_eq_iff_nth_eq)
        (metis nth_mem)+
    with us vs w show ?thesis by simp
  next
    case (PDict e)
    then show ?thesis using reorder_shape(2)[of e w'] PList.prems us by auto
  qed (use PList.prems us in \<open>auto simp del: reorder_keys_utf16.simps(1,2)\<close>)
next
  case (PDict d)
  obtain d' where d': "v' = PDict d'" "sorted (map (utf16_be \<circ> fst) d')" "distinct (map fst d')"
    "fst ` set d' = fst ` set d" "length d' = length d" "\<forall>k\<in>fst ` set d. scalar_str k"
    and dm: "\<And>k v. map_of d k = Some v \<Longrightarrow> \<exists>v'. reorder_keys_utf16 v = Inr v' \<and> map_of d' k = Some v'"
    by (rule reorder_dict[OF PDict.prems(3)]) (use PDict.prems in auto)
  show ?case
  proof (cases w)
    case w: (PDict e)
    obtain e' where e': "w' = PDict e'" "sorted (map (utf16_be \<circ> fst) e')" "distinct (map fst e')"
      "fst ` set e' = fst ` set e" "length e' = length e"
      and em: "\<And>k v. map_of e k = Some v \<Longrightarrow> \<exists>v'. reorder_keys_utf16 v = Inr v' \<and> map_of e' k = Some v'"
      by (rule reorder_dict[OF PDict.prems(4)[unfolded w]]) (use PDict.prems w in auto)
    have dist: "distinct (map fst d)" "distinct (map fst e)" using PDict.prems w by auto
    have step: "(map_of d' k = map_of e' k) \<longleftrightarrow> same_json x y"
      if h: "map_of d k = Some x" "map_of e k = Some y" for k x y
    proof -
      obtain x' y' where "reorder_keys_utf16 x = Inr x'" "reorder_keys_utf16 y = Inr y'"
        "map_of d' k = Some x'" "map_of e' k = Some y'" using dm[OF h(1)] em[OF h(2)] by blast
      moreover have "(k, x) \<in> set d" "(k, y) \<in> set e" using h by (auto dest: map_of_SomeD)
      ultimately show ?thesis using PDict.IH[of "(k, x)" x y x' y'] PDict.prems(1,2) w by fastforce
    qed
    have kd: "kv \<in> set d \<Longrightarrow> map_of d (fst kv) = Some (snd kv)" for kv
      using dist(1) by (simp add: map_of_is_SomeI)
    have "d' = e' \<longleftrightarrow> same_json (PDict d) (PDict e)"
    proof
      assume eq: "d' = e'"
      then have "length d = length e" "fst ` set d = fst ` set e" using d' e' by auto
      moreover have "case map_of e (fst kv) of None \<Rightarrow> False | Some y \<Rightarrow> same_json (snd kv) y"
        if "kv \<in> set d" for kv
      proof -
        have "fst kv \<in> fst ` set e" using that \<open>fst ` set d = fst ` set e\<close> by blast
        then obtain y where "map_of e (fst kv) = Some y"
          by (cases "map_of e (fst kv)") (auto simp: map_of_eq_None_iff)
        then show ?thesis using step[OF kd[OF that]] eq by simp
      qed
      ultimately show "same_json (PDict d) (PDict e)" by (simp add: list_all_iff)
    next
      assume sj: "same_json (PDict d) (PDict e)"
      then have len: "length d = length e" and all: "\<forall>kv\<in>set d. map_of e (fst kv) \<noteq> None"
        by (auto simp: list_all_iff split: option.splits)
      have ks: "fst ` set d = fst ` set e" by (rule keys_eq_of_same[OF dist len all])
      have "map_of d' k = map_of e' k" for k
      proof (cases "map_of d k")
        case None
        then show ?thesis using ks d'(4) e'(4) by (metis map_of_eq_None_iff)
      next
        case (Some x)
        then have "(k, x) \<in> set d" by (rule map_of_SomeD)
        then obtain y where "map_of e k = Some y" "same_json x y"
          using sj by (force simp: list_all_iff split: option.splits)
        then show ?thesis using step[OF Some] by simp
      qed
      then show "d' = e'" using dict_list_unique[of d' e'] d' e' by auto
    qed
    with d' e' w show ?thesis by simp
  next
    case (PList ys)
    then show ?thesis using reorder_shape(1)[of ys w'] PDict.prems d' by auto
  qed (use PDict.prems d' in \<open>auto simp del: reorder_keys_utf16.simps(1,2)\<close>)
next
  case PNone
  show ?case by (rule reorder_atom[OF _ _ PNone(3,4)]) simp_all
next
  case (PBool x)
  show ?case by (rule reorder_atom[OF _ _ PBool(3,4)]) simp_all
next
  case (PInt x)
  show ?case by (rule reorder_atom[OF _ _ PInt(3,4)]) simp_all
next
  case (PFloat x)
  show ?case by (rule reorder_atom[OF _ _ PFloat(3,4)]) simp_all
next
  case (PStr x)
  show ?case by (rule reorder_atom[OF _ _ PStr(3,4)]) simp_all
qed

end
