(* ===== verification/Registry.thy ===== *)
theory Registry
  imports PyBase
begin

text \<open>
  The Modelled Language Registry, \<open>raucle/registry.py\<close>: the closed enumerations, the rows of the
  constraint registry with every mandatory column, the derived key sets, and the functions that return
  the keys outside the modelled surface.
\<close>

datatype ArgShape = FIELD_TO_VALUES | FIELD_TO_SCALAR | FIELD_LIST | COMBO_LIST

datatype CollectionSemantics = EXISTS_DENY | FORALL_ALLOW | STRING_ONLY | FORALL_NUMERIC | PRESENCE

datatype Meet = SET_UNION | SET_INTERSECTION | PREFIX_EXTEND | MEET_MIN | MEET_MAX | LIST_UNION

datatype Verdict = GATE_DENY | PROVER_UNDECIDED | MINT_REJECT

record ConstraintKind =
  ck_key :: ustr
  arg_shape :: ArgShape
  collection_semantics :: CollectionSemantics
  ck_meet :: Meet
  prover_encodable :: bool
  gate_verdict :: Verdict
  prover_verdict :: Verdict
  mint_verdict :: Verdict
  ck_tests :: "ustr list"

definition kind_row :: "string \<Rightarrow> ArgShape \<Rightarrow> CollectionSemantics \<Rightarrow> Meet \<Rightarrow> bool \<Rightarrow> ConstraintKind" where
  "kind_row k shape sem m enc =
     \<lparr>ck_key = lit k, arg_shape = shape, collection_semantics = sem, ck_meet = m,
      prover_encodable = enc, gate_verdict = GATE_DENY, prover_verdict = PROVER_UNDECIDED,
      mint_verdict = MINT_REJECT, ck_tests = [lit ''test_round3_security'', lit ''test_capability'']\<rparr>"

definition CONSTRAINT_KINDS :: "ConstraintKind list" where
  "CONSTRAINT_KINDS =
     [kind_row ''forbidden_values'' FIELD_TO_VALUES EXISTS_DENY SET_UNION True,
      kind_row ''allowed_values'' FIELD_TO_VALUES FORALL_ALLOW SET_INTERSECTION False,
      kind_row ''starts_with'' FIELD_TO_SCALAR STRING_ONLY PREFIX_EXTEND False,
      kind_row ''max_value'' FIELD_TO_SCALAR FORALL_NUMERIC MEET_MIN True,
      kind_row ''min_value'' FIELD_TO_SCALAR FORALL_NUMERIC MEET_MAX True,
      kind_row ''required_present'' FIELD_LIST PRESENCE LIST_UNION True,
      kind_row ''forbidden_field_combinations'' COMBO_LIST PRESENCE LIST_UNION True]"

definition CONSTRAINT_REGISTRY :: "(ustr \<times> ConstraintKind) list" where
  "CONSTRAINT_REGISTRY = foldl (\<lambda>d k. dict_set (ck_key k) k d) [] CONSTRAINT_KINDS"

definition KNOWN_CONSTRAINT_KEYS :: "ustr set" where
  "KNOWN_CONSTRAINT_KEYS = set (keys CONSTRAINT_REGISTRY)"

definition PROVER_ENCODABLE_KEYS :: "ustr set" where
  "PROVER_ENCODABLE_KEYS =
     set (map fst (filter (\<lambda>kv. prover_encodable (snd kv)) CONSTRAINT_REGISTRY))"

definition unmodelled_policy_keys :: "ustr set \<Rightarrow> ustr set" where
  "unmodelled_policy_keys ks = ks - PROVER_ENCODABLE_KEYS"

definition JSON_SCHEMA_OBJECT_KEYS :: "ustr set" where
  "JSON_SCHEMA_OBJECT_KEYS = set (map lit
     [''type'', ''properties'', ''required'', ''additionalProperties'', ''title'', ''description'',
      ''$schema'', ''$id'', ''$defs'', ''definitions''])"

definition URL_GRAMMAR_KEYS :: "ustr set" where
  "URL_GRAMMAR_KEYS =
     set (map lit [''schemes'', ''hosts'', ''path_prefixes'', ''query_keys'', ''query_keys_closed''])"

definition URL_POLICY_KEYS :: "ustr set" where
  "URL_POLICY_KEYS =
     set (map lit [''require_https'', ''forbid_query_keys'', ''host_allowlist'', ''max_path_depth''])"

definition SQL_GRAMMAR_KEYS :: "ustr set" where
  "SQL_GRAMMAR_KEYS = set (map lit [''templates'', ''allowed_tables''])"

definition SQL_POLICY_KEYS :: "ustr set" where
  "SQL_POLICY_KEYS =
     set (map lit [''forbidden_tokens'', ''allow_statement_chaining'', ''allowed_tables''])"

definition ENVELOPE_FIELDS :: "ustr set" where
  "ENVELOPE_FIELDS = set (map lit [''receipt_hash'', ''jws''])"

definition ENVELOPE_EXTENSION_FIELDS :: "ustr set" where
  "ENVELOPE_EXTENSION_FIELDS = {}"

definition unknown :: "ustr set \<Rightarrow> ustr set \<Rightarrow> ustr set" where
  "unknown ks allowed = ks - allowed"

definition unmodelled_url_keys :: "ustr set \<Rightarrow> ustr set \<Rightarrow> ustr set" where
  "unmodelled_url_keys gks pks = unknown gks URL_GRAMMAR_KEYS \<union> unknown pks URL_POLICY_KEYS"

definition unmodelled_sql_keys :: "ustr set \<Rightarrow> ustr set \<Rightarrow> ustr set" where
  "unmodelled_sql_keys gks pks = unknown gks SQL_GRAMMAR_KEYS \<union> unknown pks SQL_POLICY_KEYS"

definition unknown_envelope_fields :: "ustr set \<Rightarrow> ustr set" where
  "unknown_envelope_fields fs = fs - ENVELOPE_FIELDS - ENVELOPE_EXTENSION_FIELDS"

section \<open>Facts\<close>

lemma registry_eq: "CONSTRAINT_REGISTRY = map (\<lambda>k. (ck_key k, k)) CONSTRAINT_KINDS"
  by (simp add: CONSTRAINT_REGISTRY_def CONSTRAINT_KINDS_def kind_row_def)

lemma known_keys_eq:
  "KNOWN_CONSTRAINT_KEYS =
     {lit ''forbidden_values'', lit ''allowed_values'', lit ''starts_with'', lit ''max_value'',
      lit ''min_value'', lit ''required_present'', lit ''forbidden_field_combinations''}"
  by (simp add: KNOWN_CONSTRAINT_KEYS_def registry_eq CONSTRAINT_KINDS_def kind_row_def)

lemma registry_has_key_iff: "has_key CONSTRAINT_REGISTRY k \<longleftrightarrow> k \<in> KNOWN_CONSTRAINT_KEYS"
  by (simp add: has_key_iff KNOWN_CONSTRAINT_KEYS_def)

text \<open>
  The policy keys that force the prover to UNDECIDED, among the registered ones: exactly the whitelist
  and the prefix kinds.
\<close>

lemma unmodelled_known_keys:
  "unmodelled_policy_keys KNOWN_CONSTRAINT_KEYS = {lit ''allowed_values'', lit ''starts_with''}"
  by (auto simp: unmodelled_policy_keys_def PROVER_ENCODABLE_KEYS_def registry_eq known_keys_eq
      CONSTRAINT_KINDS_def kind_row_def)

lemma unmodelled_policy_keys_empty_iff:
  "unmodelled_policy_keys ks = {} \<longleftrightarrow>
     ks \<subseteq> KNOWN_CONSTRAINT_KEYS - {lit ''allowed_values'', lit ''starts_with''}"
  by (auto simp: unmodelled_policy_keys_def PROVER_ENCODABLE_KEYS_def registry_eq known_keys_eq
      CONSTRAINT_KINDS_def kind_row_def)

end
