(* ===== verification/Env.thy ===== *)
theory Env
  imports PyUrl PyRegex Canon Registry
begin

text \<open>
  The code the capability modules call and this development does not read, as one record of
  functions: \<open>unicodedata\<close>, \<open>urllib\<close>'s authority validation, \<open>hashlib\<close>, the float printer and the
  signature libraries.  Every definition that uses one of them takes the record as its first
  argument; a theorem that relies on a documented behaviour of one names it as a hypothesis.

  \<open>ed_verify pem sig msg\<close> and \<open>pq_verify key sig msg\<close> are true when the key loads and the
  verification call returns without raising; \<open>pq_load\<close> is the PEM loader of the post-quantum keys.
\<close>

record env =
  nfc :: "ustr \<Rightarrow> ustr"
  netloc_ok :: "ustr \<Rightarrow> bool"
  sha256 :: "bytes \<Rightarrow> bytes"
  float_repr :: "pyfloat \<Rightarrow> ustr"
  ed_verify :: "ustr \<Rightarrow> bytes \<Rightarrow> bytes \<Rightarrow> bool"
  pq_verify :: "ustr \<Rightarrow> bytes \<Rightarrow> bytes \<Rightarrow> bool"
  pq_load :: "ustr \<Rightarrow> ustr option"

text \<open>
  What the theorems on hashing assume: the output of SHA-256 is 32 bytes, and no two of the messages a
  theorem is about have the same digest.
\<close>

definition digest32 :: "env \<Rightarrow> bool" where
  "digest32 E = (\<forall>m. length (sha256 E m) = 32 \<and> wf_bytes (sha256 E m))"

definition collision_free :: "env \<Rightarrow> bytes set \<Rightarrow> bool" where
  "collision_free E M = inj_on (sha256 E) M"

end
