(* ===== verification/Constraints.thy ===== *)
theory Constraints
  imports Env
begin

text \<open>
  Constraint dictionaries of a capability, \<open>raucle/capability.py\<close>: validation and normalisation
  (\<open>_normalise_constraints\<close> and its helpers), and the narrowing merge (\<open>_merge_narrowing\<close>, its
  helpers and its runtime assertions).  The dictionaries are raw JSON values, so every shape error of
  the code is a branch here.
\<close>

abbreviation FV :: ustr where "FV \<equiv> lit ''forbidden_values''"
abbreviation AV :: ustr where "AV \<equiv> lit ''allowed_values''"
abbreviation SW :: ustr where "SW \<equiv> lit ''starts_with''"
abbreviation MX :: ustr where "MX \<equiv> lit ''max_value''"
abbreviation MN :: ustr where "MN \<equiv> lit ''min_value''"
abbreviation RP :: ustr where "RP \<equiv> lit ''required_present''"
abbreviation FC :: ustr where "FC \<equiv> lit ''forbidden_field_combinations''"

section \<open>Validation\<close>

definition require_json_scalar :: "pyval \<Rightarrow> unit res" where
  "require_json_scalar v = rcheck (is_scalar v) (ValueError ''not a JSON scalar'')"

text \<open>The loop shared by \<open>_validate_field_keys\<close> and \<open>_require_field_name_list\<close>.\<close>

fun field_names_loop :: "env \<Rightarrow> (ustr \<times> pyval) list \<Rightarrow> pyval list \<Rightarrow> unit res" where
  "field_names_loop E seen [] = Inr ()"
| "field_names_loop E seen (key # rest) =
     (if \<not> is_str key \<or> str_of key = [] then Inl (ValueError ''field name'')
      else let norm = nfc E (str_of key) in
        if has_key seen norm \<and> map_of seen norm \<noteq> Some key then Inl (ValueError ''NFC collision'')
        else field_names_loop E (dict_set norm key seen) rest)"

definition validate_field_keys :: "env \<Rightarrow> pyval \<Rightarrow> unit res" where
  "validate_field_keys E mapping = rbind (py_iter mapping) (field_names_loop E [])"

definition require_int_bound :: "pyval \<Rightarrow> unit res" where
  "require_int_bound bound =
     rcheck (case bound of PInt i \<Rightarrow> True | _ \<Rightarrow> False) (ValueError ''bound must be an integer'')"

definition as_value_list :: "pyval \<Rightarrow> pyval list res" where
  "as_value_list v = (case v of
       PList xs \<Rightarrow> rbind (reach require_json_scalar xs) (\<lambda>_. Inr xs)
     | _ \<Rightarrow> Inl (ValueError ''must be a list''))"

definition require_field_name_list :: "env \<Rightarrow> pyval \<Rightarrow> ustr list res" where
  "require_field_name_list E val = (case val of
       PList xs \<Rightarrow> rbind (field_names_loop E [] xs) (\<lambda>_. Inr (map str_of xs))
     | _ \<Rightarrow> Inl (ValueError ''must be a list of field names''))"

section \<open>Normalisation\<close>

definition normalise_value_list_constraint :: "env \<Rightarrow> pydict \<Rightarrow> ustr \<Rightarrow> pydict \<Rightarrow> pydict res" where
  "normalise_value_list_constraint E c key out = (case map_of c key of
       None \<Rightarrow> Inr out
     | Some m \<Rightarrow>
         rbind (validate_field_keys E m) (\<lambda>_.
         rbind (py_items m) (\<lambda>d.
         rbind (rmap (\<lambda>kv. rbind (as_value_list (snd kv)) (\<lambda>xs.
                           rbind (py_sorted value_sort_key xs) (\<lambda>ys.
                           Inr (fst kv, PList ys)))) d) (\<lambda>d'.
         Inr (dict_set key (PDict d') out)))))"

definition normalise_starts_with :: "env \<Rightarrow> pydict \<Rightarrow> pydict \<Rightarrow> pydict res" where
  "normalise_starts_with E c out = (case map_of c SW of
       None \<Rightarrow> Inr out
     | Some m \<Rightarrow>
         rbind (validate_field_keys E m) (\<lambda>_.
         rbind (py_items m) (\<lambda>d.
         rbind (reach (\<lambda>kv. rcheck (is_str (snd kv)) (ValueError ''prefix must be a string'')) d) (\<lambda>_.
         Inr (dict_set SW (PDict d) out)))))"

definition normalise_int_bound :: "env \<Rightarrow> pydict \<Rightarrow> ustr \<Rightarrow> pydict \<Rightarrow> pydict res" where
  "normalise_int_bound E c key out = (case map_of c key of
       None \<Rightarrow> Inr out
     | Some m \<Rightarrow>
         rbind (validate_field_keys E m) (\<lambda>_.
         rbind (py_items m) (\<lambda>d.
         rbind (reach (\<lambda>kv. require_int_bound (snd kv)) d) (\<lambda>_.
         Inr (dict_set key (PDict d) out)))))"

definition normalise_required_present :: "env \<Rightarrow> pydict \<Rightarrow> pydict \<Rightarrow> pydict res" where
  "normalise_required_present E c out = (case map_of c RP of
       None \<Rightarrow> Inr out
     | Some val \<Rightarrow>
         rbind (require_field_name_list E val) (\<lambda>names.
         rbind (py_sorted utf16_key names) (\<lambda>ys.
         Inr (dict_set RP (PList (map PStr ys)) out))))"

text \<open>One entry of the outer list.\<close>

definition normalise_combo :: "pyval \<Rightarrow> ustr list res" where
  "normalise_combo combo = (case combo of
       PList flds \<Rightarrow>
         rbind (reach (\<lambda>fld. rcheck (is_str fld \<and> str_of fld \<noteq> []) (ValueError ''combo field'')) flds) (\<lambda>_.
         py_sorted utf16_key (map str_of flds))
     | _ \<Rightarrow> Inl (ValueError ''combo must be a list''))"

definition normalise_forbidden_field_combinations :: "pydict \<Rightarrow> pydict \<Rightarrow> pydict res" where
  "normalise_forbidden_field_combinations c out = (case map_of c FC of
       None \<Rightarrow> Inr out
     | Some (PList combos) \<Rightarrow>
         rbind (rmap normalise_combo combos) (\<lambda>norm_combos.
         rbind (py_sorted (rmap utf16_key) norm_combos) (\<lambda>ys.
         Inr (dict_set FC (PList (map (PList \<circ> map PStr) ys)) out)))
     | Some _ \<Rightarrow> Inl (ValueError ''combos must be a list''))"

definition normalise_constraints :: "env \<Rightarrow> pydict \<Rightarrow> pydict res" where
  "normalise_constraints E c =
     rbind (rcheck (set (keys c) \<subseteq> KNOWN_CONSTRAINT_KEYS) (ValueError ''unknown constraint key'')) (\<lambda>_.
     rbind (normalise_value_list_constraint E c FV []) (\<lambda>out.
     rbind (normalise_value_list_constraint E c AV out) (\<lambda>out.
     rbind (normalise_starts_with E c out) (\<lambda>out.
     rbind (normalise_int_bound E c MX out) (\<lambda>out.
     rbind (normalise_int_bound E c MN out) (\<lambda>out.
     rbind (normalise_required_present E c out) (\<lambda>out.
     normalise_forbidden_field_combinations c out)))))))"

section \<open>The narrowing merge\<close>

text \<open>
  \<open>_vid\<close> keys a member by its type name and value; for an unhashable member the value is its \<open>repr\<close>,
  which tells apart what the value tells apart.
\<close>

definition vid :: "pyval \<Rightarrow> string \<times> pyval" where
  "vid v = (type_name v, v)"

definition seen_setdefault :: "pyval \<Rightarrow> ((string \<times> pyval) \<times> pyval) list \<Rightarrow> ((string \<times> pyval) \<times> pyval) list" where
  "seen_setdefault v seen = (if has_key seen (vid v) then seen else seen @ [(vid v, v)])"

definition union_values :: "pyval \<Rightarrow> pyval \<Rightarrow> pyval res" where
  "union_values a b =
     rbind (py_iter a) (\<lambda>xs.
     rbind (py_iter b) (\<lambda>ys.
     Inr (PList (map snd (fold seen_setdefault (xs @ ys) [])))))"

definition intersect_values :: "pyval \<Rightarrow> pyval \<Rightarrow> pyval res" where
  "intersect_values a b =
     rbind (py_iter b) (\<lambda>ys.
     rbind (py_iter a) (\<lambda>xs.
     Inr (PList (map snd (fold (\<lambda>v seen. if vid v \<in> set (map vid ys) then seen_setdefault v seen else seen)
       xs [])))))"

text \<open>
  The merge of one field, given the entry the output already has.  \<open>py_none\<close> reads \<open>d.get(fld)\<close>:
  an absent field and a null one are the same.
\<close>

definition py_none :: "pyval option \<Rightarrow> pyval option" where
  "py_none x = (if x = Some PNone then None else x)"

definition merge_forbidden :: "pyval option \<Rightarrow> pyval \<Rightarrow> pyval res" where
  "merge_forbidden existing vals =
     union_values (case existing of None \<Rightarrow> PList [] | Some v \<Rightarrow> v) vals"

definition merge_allowed :: "pyval option \<Rightarrow> pyval \<Rightarrow> pyval res" where
  "merge_allowed existing vals = (case existing of
       Some v \<Rightarrow> intersect_values v vals
     | None \<Rightarrow> union_values vals (PList []))"

definition merge_starts_with :: "pyval option \<Rightarrow> pyval \<Rightarrow> pyval res" where
  "merge_starts_with existing pre = (case (py_none existing, pre) of
       (None, _) \<Rightarrow> Inr pre
     | (Some (PStr e), PStr p) \<Rightarrow>
         if startswith p e then Inr pre
         else if startswith e p then Inl (ValueError ''attenuation cannot broaden starts_with'')
         else Inl (ValueError ''attenuation starts_with is disjoint'')
     | (Some _, PStr p) \<Rightarrow> Inl (TypeError ''startswith'')
     | (Some _, _) \<Rightarrow> Inl (AttributeError ''startswith''))"

definition merge_max :: "pyval option \<Rightarrow> pyval \<Rightarrow> pyval res" where
  "merge_max existing bound = (case py_none existing of
       Some e \<Rightarrow> py_min e bound
     | None \<Rightarrow> Inr bound)"

definition merge_min :: "pyval option \<Rightarrow> pyval \<Rightarrow> pyval res" where
  "merge_min existing bound = (case py_none existing of
       Some e \<Rightarrow> py_max e bound
     | None \<Rightarrow> Inr bound)"

text \<open>
  The loop over one kind of \<open>extra\<close>: \<open>out.setdefault(kind, {})\<close>, then the field of the nested dictionary
  is replaced.  \<open>err\<close> is what reading a nested value that is no dictionary raises.
\<close>

definition merge_field ::
  "(pyval option \<Rightarrow> pyval \<Rightarrow> pyval res) \<Rightarrow> pyexc \<Rightarrow> ustr \<Rightarrow> ustr \<times> pyval \<Rightarrow> pydict \<Rightarrow> pydict res" where
  "merge_field g err kind kv out = (case dict_get out kind (PDict []) of
       PDict d \<Rightarrow> rbind (g (map_of d (fst kv)) (snd kv)) (\<lambda>w.
         Inr (dict_set kind (PDict (dict_set (fst kv) w d)) out))
     | _ \<Rightarrow> Inl err)"

definition merge_kind ::
  "(pyval option \<Rightarrow> pyval \<Rightarrow> pyval res) \<Rightarrow> pyexc \<Rightarrow> ustr \<Rightarrow> pydict \<Rightarrow> pydict \<Rightarrow> pydict res" where
  "merge_kind g err kind extra out =
     rbind (py_items (dict_get extra kind (PDict []))) (\<lambda>es. rfold (merge_field g err kind) es out)"

definition py_set_of :: "pyval \<Rightarrow> pyval list res" where
  "py_set_of v = rbind (py_iter v) (py_set [])"

definition merge_required :: "pydict \<Rightarrow> pydict \<Rightarrow> pydict res" where
  "merge_required extra out = (case map_of extra RP of
       None \<Rightarrow> Inr out
     | Some names \<Rightarrow>
         rbind (py_set_of (dict_get out RP (PList []))) (\<lambda>xs.
         rbind (py_set_of names) (\<lambda>ys.
         rbind (py_set xs ys) (\<lambda>u.
         rbind (py_sort u) (\<lambda>zs.
         Inr (dict_set RP (PList zs) out))))))"

text \<open>\<open>tuple(sorted(c))\<close>: a tuple is hashable when its members are.\<close>

definition sorted_tuple :: "pyval \<Rightarrow> pyval list res" where
  "sorted_tuple c =
     rbind (py_iter c) (\<lambda>xs. rbind (py_sort xs) (\<lambda>ys.
     rbind (rcheck (list_all py_hashable ys) (TypeError ''unhashable'')) (\<lambda>_. Inr ys)))"

fun tuple_set :: "pyval list list \<Rightarrow> pyval list list \<Rightarrow> pyval list list" where
  "tuple_set seen [] = seen"
| "tuple_set seen (x # xs) =
     tuple_set (if list_ex (list_all2 py_eq x) seen then seen else seen @ [x]) xs"

definition merge_combos :: "pydict \<Rightarrow> pydict \<Rightarrow> pydict res" where
  "merge_combos extra out = (case map_of extra FC of
       None \<Rightarrow> Inr out
     | Some combos \<Rightarrow>
         rbind (rbind (py_iter (dict_get out FC (PList []))) (rmap sorted_tuple)) (\<lambda>xs.
         rbind (rbind (py_iter combos) (rmap sorted_tuple)) (\<lambda>ys.
         rbind (rmap py_sort (tuple_set [] (xs @ ys))) (\<lambda>zs.
         rbind (py_sort (map PList zs)) (\<lambda>ws.
         Inr (dict_set FC (PList ws) out))))))"

definition merge_raw :: "pydict \<Rightarrow> pydict \<Rightarrow> pydict res" where
  "merge_raw parent extra =
     rbind (merge_kind merge_forbidden (AttributeError ''get'') FV extra parent) (\<lambda>out.
     rbind (merge_kind merge_allowed (TypeError ''in'') AV extra out) (\<lambda>out.
     rbind (merge_kind merge_starts_with (AttributeError ''get'') SW extra out) (\<lambda>out.
     rbind (merge_kind merge_max (AttributeError ''get'') MX extra out) (\<lambda>out.
     rbind (merge_kind merge_min (AttributeError ''get'') MN extra out) (\<lambda>out.
     rbind (merge_required extra out) (\<lambda>out.
     merge_combos extra out))))))"

definition merge_narrowing :: "env \<Rightarrow> pydict \<Rightarrow> pydict \<Rightarrow> pydict res" where
  "merge_narrowing E parent extra = rbind (merge_raw parent extra) (normalise_constraints E)"

section \<open>The runtime assertions on a merge\<close>

text \<open>
  Each loop reads the parent's fields; \<open>get\<close> of the child's value that is no dictionary raises.
\<close>

definition py_get :: "pyval \<Rightarrow> ustr \<Rightarrow> pyval option res" where
  "py_get v k = (case v of PDict d \<Rightarrow> Inr (py_none (map_of d k)) | _ \<Rightarrow> Inl (AttributeError ''get''))"

definition vids_subset :: "pyval \<Rightarrow> pyval \<Rightarrow> bool res" where
  "vids_subset a b =
     rbind (py_iter a) (\<lambda>xs. rbind (py_iter b) (\<lambda>ys. Inr (vid ` set xs \<subseteq> vid ` set ys)))"

definition assert_fields ::
  "(pyval \<Rightarrow> pyval \<Rightarrow> bool res) \<Rightarrow> string \<Rightarrow> pyval \<Rightarrow> pyval \<Rightarrow> unit res" where
  "assert_fields ok msg p c =
     rbind (py_items p) (reach (\<lambda>kv. rbind (py_get c (fst kv)) (\<lambda>cv. case cv of
         None \<Rightarrow> Inr ()
       | Some w \<Rightarrow> rbind (ok (snd kv) w) (\<lambda>b. rcheck b (ValueError msg)))))"

definition assert_allowed_narrows :: "pyval \<Rightarrow> pyval \<Rightarrow> unit res" where
  "assert_allowed_narrows p c =
     assert_fields (\<lambda>vals cvals. vids_subset cvals vals) ''attenuation widened allowed_values'' p c"

definition assert_forbidden_grows :: "pyval \<Rightarrow> pyval \<Rightarrow> unit res" where
  "assert_forbidden_grows p c =
     assert_fields (\<lambda>vals cvals. vids_subset vals cvals) ''attenuation narrowed forbidden_values'' p c"

definition assert_bounds_tighten :: "pyval \<Rightarrow> pyval \<Rightarrow> ustr \<Rightarrow> unit res" where
  "assert_bounds_tighten p c kind =
     assert_fields (\<lambda>bound cbound. rbind (if kind = MX then py_lt bound cbound else py_lt cbound bound)
       (\<lambda>widened. Inr (\<not> widened))) ''attenuation widened a bound'' p c"

definition assert_narrowing :: "pydict \<Rightarrow> pydict \<Rightarrow> unit res" where
  "assert_narrowing parent child =
     (let get = (\<lambda>d k. dict_get d k (PDict [])) in
     rbind (assert_allowed_narrows (get parent AV) (get child AV)) (\<lambda>_.
     rbind (assert_forbidden_grows (get parent FV) (get child FV)) (\<lambda>_.
     rbind (assert_bounds_tighten (get parent MX) (get child MX) MX) (\<lambda>_.
     assert_bounds_tighten (get parent MN) (get child MN) MN))))"

end
