(* ===== verification/Token.thy ===== *)
theory Token
  imports Constraints
begin

text \<open>
  The capability token, \<open>raucle/capability.py\<close>: the canonical encoder of signed material, the identifier
  validators, the \<open>Capability\<close> record with \<open>body\<close>, \<open>to_dict\<close> and \<open>from_dict\<close>, and the parse-boundary
  checks.  Fields the parser passes on unchecked (the proof hashes, the post-quantum component) keep
  the raw value; \<open>acting_for\<close> does too, since a falsy value of any type is accepted.
\<close>

section \<open>Canonical signed material\<close>

definition MAX_SAFE_INT :: int where "MAX_SAFE_INT = 2 ^ 53 - 1"

definition MIN_SAFE_INT :: int where "MIN_SAFE_INT = - (2 ^ 53 - 1)"

fun reject_floats :: "pyval \<Rightarrow> unit res" where
  "reject_floats (PFloat f) = Inl (ValueError ''float'')"
| "reject_floats (PInt i) =
     rcheck (MIN_SAFE_INT \<le> i \<and> i \<le> MAX_SAFE_INT) (ValueError ''integer outside the safe range'')"
| "reject_floats (PStr s) = reject_lone_surrogates s"
| "reject_floats (PDict d) =
     reach (\<lambda>kv. rbind (reject_lone_surrogates (fst kv)) (\<lambda>_. reject_floats (snd kv))) d"
| "reject_floats (PList xs) = reach reject_floats xs"
| "reject_floats v = Inr ()"

definition canonical_json :: "env \<Rightarrow> pyval \<Rightarrow> bytes res" where
  "canonical_json E v =
     rbind (reject_floats v) (\<lambda>_.
     rbind (reorder_keys_utf16 v) (\<lambda>w.
     utf8_encode_strict (json_text (float_repr E) w)))"

definition sha256_hex :: "env \<Rightarrow> bytes \<Rightarrow> ustr" where
  "sha256_hex E data = hex_of (sha256 E data)"

section \<open>Identifiers\<close>

definition lower_alnum :: "nat \<Rightarrow> bool" where
  "lower_alnum c = (is_lower c \<or> is_digit c)"

text \<open>\<open>[a-z0-9](?:[a-z0-9_\-]|\.(?=[a-z0-9])){0,126}[a-z0-9]?$\<close>, shared by agents and principals.\<close>

definition id_tail_rx :: rx where
  "id_tail_rx =
     Cat (Cls lower_alnum)
     (Cat (Upto 126 (Alt (Cls (\<lambda>c. lower_alnum c \<or> c = 95 \<or> c = 45))
                         (Cat (Cls (\<lambda>c. c = 46)) (Ahead (Cls lower_alnum)))))
     (Cat (Upto 1 (Cls lower_alnum)) Dollar))"

definition AGENT_ID_RE :: rx where
  "AGENT_ID_RE = Cat (word_rx (lit ''agent:'')) id_tail_rx"

definition TOOL_RE :: rx where
  "TOOL_RE =
     Cat (Cls (\<lambda>c. is_upper c \<or> lower_alnum c))
     (Cat (Upto 127 (Cls (\<lambda>c. is_upper c \<or> lower_alnum c \<or> c = 95 \<or> c = 45 \<or> c = 46 \<or> c = 47))) Dollar)"

definition PRINCIPAL_RE :: rx where
  "PRINCIPAL_RE =
     Cat (Alt (word_rx (lit ''agent'')) (word_rx (lit ''user''))) (Cat (Cls (\<lambda>c. c = 58)) id_tail_rx)"

definition validate_agent_id :: "ustr \<Rightarrow> unit res" where
  "validate_agent_id agent_id = rcheck (re_match AGENT_ID_RE agent_id) (ValueError ''agent_id'')"

definition validate_tool :: "ustr \<Rightarrow> unit res" where
  "validate_tool t = rcheck (re_match TOOL_RE t) (ValueError ''tool'')"

text \<open>\<open>re.match\<close> of a value that is no string raises \<open>TypeError\<close>.\<close>

definition validate_principal :: "pyval \<Rightarrow> unit res" where
  "validate_principal p = (case p of
       PStr s \<Rightarrow> rcheck (re_match PRINCIPAL_RE s) (ValueError ''acting_for'')
     | _ \<Rightarrow> Inl (TypeError ''expected string''))"

section \<open>The token\<close>

record Capability =
  token_id :: ustr
  agent_id :: ustr
  tool :: ustr
  constraints :: pydict
  issuer :: ustr
  key_id :: ustr
  issued_at :: int
  not_before :: int
  expires_at :: int
  parent_id :: "ustr option"
  intent :: "pydict option"
  acting_for :: pyval
  policy_proof_hash :: pyval
  grammar_hash :: pyval
  policy_hash :: pyval
  signature :: ustr
  pq_key_id :: pyval
  pq_signature :: pyval

definition opt_str :: "ustr option \<Rightarrow> pyval" where
  "opt_str x = (case x of None \<Rightarrow> PNone | Some s \<Rightarrow> PStr s)"

definition body :: "env \<Rightarrow> Capability \<Rightarrow> pydict res" where
  "body E c = rbind (normalise_constraints E (constraints c)) (\<lambda>n. Inr (
     [(lit ''agent_id'', PStr (agent_id c)),
      (lit ''tool'', PStr (tool c)),
      (lit ''constraints'', PDict n),
      (lit ''issuer'', PStr (issuer c)),
      (lit ''key_id'', PStr (key_id c)),
      (lit ''issued_at'', PInt (issued_at c)),
      (lit ''not_before'', PInt (not_before c)),
      (lit ''expires_at'', PInt (expires_at c)),
      (lit ''parent_id'', opt_str (parent_id c)),
      (lit ''policy_proof_hash'', policy_proof_hash c),
      (lit ''grammar_hash'', grammar_hash c),
      (lit ''policy_hash'', policy_hash c)]
     @ (case intent c of None \<Rightarrow> [] | Some i \<Rightarrow> [(lit ''intent'', PDict i)])
     @ (if truthy (acting_for c) then [(lit ''acting_for'', acting_for c)] else [])))"

definition signed_material :: "env \<Rightarrow> Capability \<Rightarrow> bytes res" where
  "signed_material E c = rbind (body E c) (\<lambda>b. canonical_json E (PDict b))"

definition derive_token_id :: "env \<Rightarrow> bytes \<Rightarrow> ustr" where
  "derive_token_id E material = lit ''cap:'' @ take 24 (sha256_hex E material)"

definition to_dict :: "env \<Rightarrow> Capability \<Rightarrow> pydict res" where
  "to_dict E c = rbind (body E c) (\<lambda>b. Inr (
     b @ [(lit ''token_id'', PStr (token_id c)), (lit ''signature'', PStr (signature c))]
       @ (if pq_key_id c = PNone then []
          else [(lit ''pq_key_id'', pq_key_id c),
                (lit ''pq_signature'', if truthy (pq_signature c) then pq_signature c else PStr [])])))"

section \<open>The parse boundary\<close>

abbreviation get_or_none :: "pydict \<Rightarrow> string \<Rightarrow> pyval" where
  "get_or_none d k \<equiv> dict_get d (lit k) PNone"

definition require_token_str_field :: "pydict \<Rightarrow> string \<Rightarrow> ustr res" where
  "require_token_str_field d name = (case get_or_none d name of
       PStr s \<Rightarrow> if s = [] then Inl (ValueError name) else Inr s
     | _ \<Rightarrow> Inl (ValueError name))"

definition parse_token_acting_for :: "pydict \<Rightarrow> pyval res" where
  "parse_token_acting_for d = (let a = dict_get d (lit ''acting_for'') (PStr []) in
     if truthy a then rbind (validate_principal a) (\<lambda>_. Inr a) else Inr a)"

text \<open>The checks on an intent block, shared by the parser and by \<open>_validate_intent\<close>.\<close>

definition tools_ok :: "pyval \<Rightarrow> bool" where
  "tools_ok tools = (case tools of
       PNone \<Rightarrow> True
     | PList ts \<Rightarrow> ts \<noteq> [] \<and> list_all (\<lambda>t. is_str t \<and> str_of t \<noteq> []) ts
     | _ \<Rightarrow> False)"

definition check_intent_block :: "pydict \<Rightarrow> unit res" where
  "check_intent_block i =
     rbind (rcheck (is_str (get_or_none i ''statement'') \<and> truthy (get_or_none i ''statement''))
       (ValueError ''intent.statement'')) (\<lambda>_.
     rbind (rcheck (tools_ok (get_or_none i ''tools'')) (ValueError ''intent.tools'')) (\<lambda>_.
     rcheck (case get_or_none i ''constraints'' of PNone \<Rightarrow> True | PDict _ \<Rightarrow> True | _ \<Rightarrow> False)
       (ValueError ''intent.constraints'')))"

definition parse_token_intent :: "pydict \<Rightarrow> pydict option res" where
  "parse_token_intent d = (case get_or_none d ''intent'' of
       PNone \<Rightarrow> Inr None
     | PDict i \<Rightarrow> rbind (check_intent_block i) (\<lambda>_. Inr (Some i))
     | _ \<Rightarrow> Inl (ValueError ''intent''))"

definition validate_intent :: "pyval \<Rightarrow> pydict option res" where
  "validate_intent i = (case i of
       PNone \<Rightarrow> Inr None
     | PDict d \<Rightarrow> rbind (check_intent_block d) (\<lambda>_. Inr (Some d))
     | _ \<Rightarrow> Inl (ValueError ''intent''))"

definition parse_token_parent_id :: "pydict \<Rightarrow> ustr option res" where
  "parse_token_parent_id d = (case get_or_none d ''parent_id'' of
       PNone \<Rightarrow> Inr None
     | PStr s \<Rightarrow> if s = [] then Inl (ValueError ''parent_id'') else Inr (Some s)
     | _ \<Rightarrow> Inl (ValueError ''parent_id''))"

definition parse_timestamp :: "pydict \<Rightarrow> string \<Rightarrow> int res" where
  "parse_timestamp d name = (case get_or_none d name of
       PInt i \<Rightarrow> Inr i
     | _ \<Rightarrow> Inl (ValueError name))"

definition parse_token_timestamps :: "pydict \<Rightarrow> (int \<times> int \<times> int) res" where
  "parse_token_timestamps d =
     rbind (parse_timestamp d ''issued_at'') (\<lambda>a.
     rbind (parse_timestamp d ''not_before'') (\<lambda>b.
     rbind (parse_timestamp d ''expires_at'') (\<lambda>c. Inr (a, b, c))))"

definition parse_constraints :: "pydict \<Rightarrow> pydict res" where
  "parse_constraints d = (case get_or_none d ''constraints'' of
       PDict c \<Rightarrow> Inr c
     | _ \<Rightarrow> Inl (ValueError ''constraints''))"

definition parse_signature :: "pydict \<Rightarrow> ustr res" where
  "parse_signature d = (case get_or_none d ''signature'' of
       PStr s \<Rightarrow> Inr s
     | _ \<Rightarrow> Inl (ValueError ''signature''))"

definition from_dict :: "pyval \<Rightarrow> Capability res" where
  "from_dict v = (case v of PDict d \<Rightarrow>
     rbind (require_token_str_field d ''token_id'') (\<lambda>tid.
     rbind (require_token_str_field d ''agent_id'') (\<lambda>aid.
     rbind (require_token_str_field d ''tool'') (\<lambda>t.
     rbind (require_token_str_field d ''issuer'') (\<lambda>iss.
     rbind (require_token_str_field d ''key_id'') (\<lambda>kid.
     rbind (validate_agent_id aid) (\<lambda>_.
     rbind (validate_tool t) (\<lambda>_.
     rbind (parse_constraints d) (\<lambda>cons.
     rbind (parse_token_acting_for d) (\<lambda>acting.
     rbind (parse_token_intent d) (\<lambda>int.
     rbind (parse_token_parent_id d) (\<lambda>pid.
     rbind (parse_signature d) (\<lambda>sig.
     rbind (parse_token_timestamps d) (\<lambda>(iat, nbf, exp). Inr
       \<lparr>token_id = tid, agent_id = aid, tool = t, constraints = cons, issuer = iss, key_id = kid,
        issued_at = iat, not_before = nbf, expires_at = exp, parent_id = pid, intent = int,
        acting_for = acting, policy_proof_hash = get_or_none d ''policy_proof_hash'',
        grammar_hash = get_or_none d ''grammar_hash'', policy_hash = get_or_none d ''policy_hash'',
        signature = sig, pq_key_id = get_or_none d ''pq_key_id'',
        pq_signature = get_or_none d ''pq_signature''\<rparr>)))))))))))))
     | _ \<Rightarrow> Inl (ValueError ''capability token: must be a JSON object''))"

section \<open>The encoder is injective on JSON values\<close>

lemma reject_floats_float_free: "reject_floats v = Inr u \<Longrightarrow> float_free v"
  by (induction v) auto

lemma reject_floats_scalar: "reject_floats v = Inr u \<Longrightarrow> wf_val v \<Longrightarrow> scalar_val v"
proof (induction v)
  case (PDict d)
  have "scalar_str (fst kv) \<and> scalar_val (snd kv)" if kv: "kv \<in> set d" for kv
  proof -
    have "reject_floats (snd kv) = Inr ()" "wf_val (snd kv)" "wf_str (fst kv)"
      "\<forall>c\<in>set (fst kv). \<not> is_surrogate c"
      using PDict.prems kv by auto
    then show ?thesis using PDict.IH[of kv "snd kv"] kv by (cases kv) (simp add: scalar_str_iff)
  qed
  then show ?case by auto
qed (auto simp: scalar_str_iff)

lemma rmap_pairs:
  "rmap (\<lambda>kv. rbind (f (snd kv)) (\<lambda>v. Inr (fst kv, v))) d = Inr d' \<longleftrightarrow>
     list_all2 (\<lambda>kv kv'. fst kv' = fst kv \<and> f (snd kv) = Inr (snd kv')) d d'"
  unfolding rmap_eq_Inr_iff by (rule arg_cong[where f = "\<lambda>R. list_all2 R d d'"]) (auto simp: fun_eq_iff)

lemma list_all2_members: "list_all2 R xs ys \<Longrightarrow> y \<in> set ys \<Longrightarrow> \<exists>x\<in>set xs. R x y"
  by (induction rule: list_all2_induct) auto

lemma reorder_keeps:
  "reorder_keys_utf16 v = Inr w \<Longrightarrow> (float_free v \<longrightarrow> float_free w) \<and> (scalar_val v \<longrightarrow> scalar_val w)"
proof (induction v arbitrary: w)
  case (PList xs)
  then obtain ys where w: "w = PList ys" and l: "rmap reorder_keys_utf16 xs = Inr ys"
    by (auto simp: rbind_def split: sum.splits)
  then show ?case using PList.IH by (auto dest!: rmap_source[OF l])
next
  case (PDict d)
  then obtain d' where w: "w = PDict d'"
    and l: "rmap (\<lambda>kv. rbind (reorder_keys_utf16 (snd kv)) (\<lambda>v. Inr (fst kv, v))) (sort_key (utf16_be \<circ> fst) d) = Inr d'"
    by (auto simp: rbind_def split: sum.splits)
  have "\<exists>kv\<in>set d. fst kv' = fst kv \<and> reorder_keys_utf16 (snd kv) = Inr (snd kv')" if "kv' \<in> set d'" for kv'
    using list_all2_members[OF l[unfolded rmap_pairs] that] by auto
  then show ?case using PDict.IH by (fastforce simp: w)
qed auto

lemma canonical_json_eq:
  "canonical_json E v = Inr b \<longleftrightarrow> reject_floats v = Inr () \<and>
     (\<exists>w. reorder_keys_utf16 v = Inr w \<and> utf8_encode_strict (json_text (float_repr E) w) = Inr b)"
  by (auto simp: canonical_json_def)

lemma utf8_encode_strict_scalar: "scalar_str s \<Longrightarrow> utf8_encode_strict s = Inr (utf8_encode s)"
  by (auto simp: utf8_encode_strict_def scalar_str_def list_all_iff list_ex_iff)

lemma canonical_json_inj:
  assumes "wf_val v" "wf_val w" "canonical_json E v = Inr b" "canonical_json E w = Inr b'"
  shows "b = b' \<longleftrightarrow> same_json v w"
proof -
  obtain v' w' where v': "reorder_keys_utf16 v = Inr v'" "utf8_encode_strict (json_text (float_repr E) v') = Inr b"
    and w': "reorder_keys_utf16 w = Inr w'" "utf8_encode_strict (json_text (float_repr E) w') = Inr b'"
    and r: "reject_floats v = Inr ()" "reject_floats w = Inr ()"
    using assms(3,4) by (auto simp: canonical_json_eq)
  have ff: "float_free v'" "float_free w'" "scalar_val v'" "scalar_val w'"
    using reorder_keeps[OF v'(1)] reorder_keeps[OF w'(1)] r reject_floats_float_free reject_floats_scalar
      assms(1,2) by auto
  then have sc: "scalar_str (json_text (float_repr E) v')" "scalar_str (json_text (float_repr E) w')"
    by (simp_all add: scalar_json_text)
  have "b = b' \<longleftrightarrow> json_text (float_repr E) v' = json_text (float_repr E) w'"
    using v'(2) w'(2) utf8_encode_inj[OF sc] by (simp add: utf8_encode_strict_scalar sc)
  also have "\<dots> \<longleftrightarrow> v' = w'" using json_text_inj[OF ff(1,2)] by blast
  also have "\<dots> \<longleftrightarrow> same_json v w" by (rule reorder_same_json[OF assms(1,2) v'(1) w'(1)])
  finally show ?thesis .
qed

lemma reorder_total: "scalar_val v \<Longrightarrow> \<exists>w. reorder_keys_utf16 v = Inr w"
proof (induction v)
  case (PList xs)
  then have "\<forall>x\<in>set xs. \<exists>w. reorder_keys_utf16 x = Inr w" by auto
  then have "rmap reorder_keys_utf16 xs = Inr (map (\<lambda>x. projr (reorder_keys_utf16 x)) xs)"
    by (intro rmap_Inr_all) force
  then show ?case by simp
next
  case (PDict d)
  have "\<exists>w. reorder_keys_utf16 (snd kv) = Inr w" if "kv \<in> set d" for kv
    using PDict.IH[of kv "snd kv"] PDict.prems that by (cases kv) force
  then have "rmap (\<lambda>kv. rbind (reorder_keys_utf16 (snd kv)) (\<lambda>v. Inr (fst kv, v))) (sort_key (utf16_be \<circ> fst) d)
      = Inr (map (\<lambda>kv. (fst kv, projr (reorder_keys_utf16 (snd kv)))) (sort_key (utf16_be \<circ> fst) d))"
    by (intro rmap_Inr_all) force
  moreover have "rmap (\<lambda>kv. utf16_key (fst kv)) d = Inr (map (\<lambda>kv. utf16_be (fst kv)) d)"
    using PDict.prems by (intro rmap_Inr_all) auto
  ultimately show ?case by simp
qed auto

lemma canonical_json_total:
  assumes "wf_val v" "reject_floats v = Inr ()"
  shows "\<exists>b. canonical_json E v = Inr b"
proof -
  have s: "scalar_val v" "float_free v" using assms reject_floats_scalar reject_floats_float_free by auto
  then obtain w where w: "reorder_keys_utf16 v = Inr w" using reorder_total by blast
  then have "scalar_str (json_text (float_repr E) w)" using reorder_keeps[OF w] s by (simp add: scalar_json_text)
  then show ?thesis using w assms(2) by (simp add: canonical_json_def utf8_encode_strict_scalar)
qed

end
