(* ===== verification/Checker.thy ===== *)
theory Checker
  imports Constraints
begin

text \<open>
  Evaluation of a constraint dictionary on the arguments of a call, \<open>raucle/capability.py\<close>:
  \<open>_check_constraints\<close> and its seven checkers, with \<open>_is_number\<close>, \<open>_flatten_scalars\<close> and
  \<open>_canonical_file_uri\<close>.  A checker returns the reason of a violation, or nothing; a raised exception
  is the left side.  The second part states what a dictionary permits without loops and exceptions
  (\<open>permits\<close>) and proves that the checkers decide it.
\<close>

section \<open>The checkers\<close>

definition is_number :: "pyval \<Rightarrow> bool" where
  "is_number v = (case v of
       PInt i \<Rightarrow> True
     | PFloat f \<Rightarrow> (case f of Finite q \<Rightarrow> True | _ \<Rightarrow> False)
     | _ \<Rightarrow> False)"

fun flatten_scalars :: "pyval \<Rightarrow> pyval list" where
  "flatten_scalars (PDict d) = concat (map (\<lambda>kv. PStr (fst kv) # flatten_scalars (snd kv)) d)"
| "flatten_scalars (PList xs) = concat (map flatten_scalars xs)"
| "flatten_scalars v = [v]"

definition check_forbidden_values :: "pydict \<Rightarrow> pydict \<Rightarrow> string option res" where
  "check_forbidden_values c args =
     rbind (py_items (dict_get c FV (PDict []))) (rfirst (\<lambda>kv. case map_of args (fst kv) of
         None \<Rightarrow> Inr None
       | Some v \<Rightarrow> rfirst (\<lambda>scalar. rbind (py_in scalar (snd kv)) (\<lambda>b.
           Inr (if b then Some ''is in forbidden_values'' else None))) (flatten_scalars v)))"

text \<open>The positive checks share their guards: the field is present and carries some value.\<close>

definition each_scalar ::
  "string \<Rightarrow> string \<Rightarrow> (pyval \<Rightarrow> string option res) \<Rightarrow> pyval option \<Rightarrow> string option res" where
  "each_scalar absent hollow f arg = (case arg of
       None \<Rightarrow> Inr (Some absent)
     | Some v \<Rightarrow> (let scalars = flatten_scalars v in
         if scalars = [] then Inr (Some hollow) else rfirst f scalars))"

definition check_allowed_values :: "pydict \<Rightarrow> pydict \<Rightarrow> string option res" where
  "check_allowed_values c args =
     rbind (py_items (dict_get c AV (PDict []))) (rfirst (\<lambda>kv.
       each_scalar ''allowed_values field is absent'' ''allowed_values field carries no value''
         (\<lambda>scalar. rbind (py_in scalar (snd kv)) (\<lambda>b.
            Inr (if b then None else Some ''is not in allowed_values'')))
         (map_of args (fst kv))))"

definition resolve_segment :: "ustr \<Rightarrow> ustr list \<Rightarrow> ustr list" where
  "resolve_segment seg segments =
     (if seg = [46] then segments
      else if seg = [46, 46] then (if length segments > 1 then butlast segments else segments)
      else segments @ [seg])"

fun has_double_slash :: "ustr \<Rightarrow> bool" where
  "has_double_slash (a # b # s) = (a = 47 \<and> b = 47 \<or> has_double_slash (b # s))"
| "has_double_slash s = False"

fun replace_double_slash :: "ustr \<Rightarrow> ustr" where
  "replace_double_slash (a # b # s) =
     (if a = 47 \<and> b = 47 then 47 # replace_double_slash s else a # replace_double_slash (b # s))"
| "replace_double_slash s = s"

lemma replace_length: "length (replace_double_slash s) \<le> length s"
  by (induction s rule: replace_double_slash.induct) auto

lemma replace_shorter: "has_double_slash s \<Longrightarrow> length (replace_double_slash s) < length s"
  by (induction s rule: replace_double_slash.induct) (auto simp: less_Suc_eq_le replace_length)

function collapse_slashes :: "ustr \<Rightarrow> ustr" where
  "collapse_slashes resolved =
     (if has_double_slash resolved then collapse_slashes (replace_double_slash resolved) else resolved)"
  by pat_completeness auto

termination
  by (relation "measure length") (auto simp: replace_shorter)

declare collapse_slashes.simps [simp del]

definition canonical_file_uri :: "env \<Rightarrow> pyval \<Rightarrow> ustr option" where
  "canonical_file_uri E v =
     (if \<not> (is_str v \<and> startswith (str_of v) (lit ''file://'')) then None
      else case urlsplit_path (netloc_ok E) 7 (str_of v) of
          Inl e \<Rightarrow> Some []
        | Inr path \<Rightarrow>
            Some (lit ''file://'' @ collapse_slashes (join_with 47
              (fold resolve_segment (split_on 47 (unquote path)) []))))"

definition starts_with_violated :: "env \<Rightarrow> pyval \<Rightarrow> pyval \<Rightarrow> bool res" where
  "starts_with_violated E pre val =
     (case (canonical_file_uri E pre, canonical_file_uri E val) of
        (Some canon_prefix, Some canon_value) \<Rightarrow> Inr (\<not> startswith canon_value canon_prefix)
      | _ \<Rightarrow> (case pre of
            PStr p \<Rightarrow> Inr (\<not> startswith (str_of val) p)
          | _ \<Rightarrow> Inl (TypeError ''startswith'')))"

definition check_starts_with :: "env \<Rightarrow> pydict \<Rightarrow> pydict \<Rightarrow> string option res" where
  "check_starts_with E c args =
     rbind (py_items (dict_get c SW (PDict []))) (rfirst (\<lambda>kv. case map_of args (fst kv) of
         None \<Rightarrow> Inr (Some ''starts_with field is absent'')
       | Some v \<Rightarrow>
           if \<not> is_str v then Inr (Some ''does not start with'')
           else rbind (starts_with_violated E (snd kv) v) (\<lambda>b.
             Inr (if b then Some ''does not start with'' else None))))"

definition check_max_value :: "pydict \<Rightarrow> pydict \<Rightarrow> string option res" where
  "check_max_value c args =
     rbind (py_items (dict_get c MX (PDict []))) (rfirst (\<lambda>kv.
       each_scalar ''max_value field is absent'' ''max_value field carries no value''
         (\<lambda>scalar. if \<not> is_number scalar then Inr (Some ''is not a number (max_value)'')
            else rbind (py_lt (snd kv) scalar) (\<lambda>b.
              Inr (if b then Some ''exceeding max_value'' else None)))
         (map_of args (fst kv))))"

definition check_min_value :: "pydict \<Rightarrow> pydict \<Rightarrow> string option res" where
  "check_min_value c args =
     rbind (py_items (dict_get c MN (PDict []))) (rfirst (\<lambda>kv.
       each_scalar ''min_value field is absent'' ''min_value field carries no value''
         (\<lambda>scalar. if \<not> is_number scalar then Inr (Some ''is not a number (min_value)'')
            else rbind (py_lt scalar (snd kv)) (\<lambda>b.
              Inr (if b then Some ''below min_value'' else None)))
         (map_of args (fst kv))))"

definition check_required_present :: "pydict \<Rightarrow> pydict \<Rightarrow> string option res" where
  "check_required_present c args =
     rbind (py_iter (dict_get c RP (PList []))) (rfirst (\<lambda>fld.
       rbind (in_dict fld args) (\<lambda>b. Inr (if b then None else Some ''required field missing''))))"

definition check_forbidden_combinations :: "pydict \<Rightarrow> pydict \<Rightarrow> string option res" where
  "check_forbidden_combinations c args =
     rbind (py_iter (dict_get c FC (PList []))) (rfirst (\<lambda>combo.
       rbind (py_iter combo) (\<lambda>flds.
       rbind (rall (\<lambda>c2. in_dict c2 args) flds) (\<lambda>b.
       Inr (if b then Some ''forbidden field combination all present'' else None)))))"

definition check_constraints :: "env \<Rightarrow> pydict \<Rightarrow> pydict \<Rightarrow> string option res" where
  "check_constraints E c args =
     rbind (rfirst (\<lambda>kind. Inr (if has_key CONSTRAINT_REGISTRY kind then None
              else Some ''unmodelled constraint kind reached the gate'')) (keys c)) (\<lambda>r.
     if r \<noteq> None then Inr r else
     rfirst (\<lambda>checker. checker c args)
       [check_forbidden_values, check_allowed_values, check_starts_with E, check_max_value,
        check_min_value, check_required_present, check_forbidden_combinations])"

section \<open>What a dictionary permits\<close>

text \<open>The fields of a kind, and the values of a list.\<close>

definition fields_of :: "pydict \<Rightarrow> ustr \<Rightarrow> pydict" where
  "fields_of c kind = (case map_of c kind of Some (PDict d) \<Rightarrow> d | _ \<Rightarrow> [])"

definition members :: "pydict \<Rightarrow> ustr \<Rightarrow> pyval list" where
  "members c kind = (case map_of c kind of Some (PList xs) \<Rightarrow> xs | _ \<Rightarrow> [])"

definition vals :: "pyval \<Rightarrow> pyval list" where
  "vals v = (case v of PList xs \<Rightarrow> xs | _ \<Rightarrow> [])"

text \<open>When an argument (or its absence) satisfies the entry of one field.\<close>

definition forbidden_ok :: "pyval \<Rightarrow> pyval option \<Rightarrow> bool" where
  "forbidden_ok bads arg =
     (case arg of None \<Rightarrow> True
      | Some v \<Rightarrow> \<forall>s\<in>set (flatten_scalars v). \<forall>b\<in>set (vals bads). \<not> py_eq s b)"

definition some_scalars :: "pyval option \<Rightarrow> (pyval \<Rightarrow> bool) \<Rightarrow> bool" where
  "some_scalars arg P = (case arg of None \<Rightarrow> False
     | Some v \<Rightarrow> flatten_scalars v \<noteq> [] \<and> (\<forall>s\<in>set (flatten_scalars v). P s))"

definition allowed_ok :: "pyval \<Rightarrow> pyval option \<Rightarrow> bool" where
  "allowed_ok oks arg = some_scalars arg (\<lambda>s. \<exists>b\<in>set (vals oks). py_eq s b)"

definition starts_ok :: "env \<Rightarrow> pyval \<Rightarrow> pyval option \<Rightarrow> bool" where
  "starts_ok E pre arg = (case arg of
       Some (PStr s) \<Rightarrow> (case (canonical_file_uri E pre, canonical_file_uri E (PStr s)) of
           (Some cp, Some cv) \<Rightarrow> prefix cp cv
         | _ \<Rightarrow> prefix (str_of pre) s)
     | _ \<Rightarrow> False)"

definition int_of :: "pyval \<Rightarrow> int" where
  "int_of v = (case v of PInt i \<Rightarrow> i | _ \<Rightarrow> 0)"

definition max_ok :: "pyval \<Rightarrow> pyval option \<Rightarrow> bool" where
  "max_ok bound arg =
     some_scalars arg (\<lambda>s. is_number s \<and> the (num_of s) \<le> of_int (int_of bound))"

definition min_ok :: "pyval \<Rightarrow> pyval option \<Rightarrow> bool" where
  "min_ok bound arg =
     some_scalars arg (\<lambda>s. is_number s \<and> of_int (int_of bound) \<le> the (num_of s))"

definition all_fields :: "(pyval \<Rightarrow> pyval option \<Rightarrow> bool) \<Rightarrow> pydict \<Rightarrow> pydict \<Rightarrow> bool" where
  "all_fields ok d args = (\<forall>f v. map_of d f = Some v \<longrightarrow> ok v (map_of args f))"

definition permits :: "env \<Rightarrow> pydict \<Rightarrow> pydict \<Rightarrow> bool" where
  "permits E c args =
     (all_fields forbidden_ok (fields_of c FV) args \<and>
      all_fields allowed_ok (fields_of c AV) args \<and>
      all_fields (starts_ok E) (fields_of c SW) args \<and>
      all_fields max_ok (fields_of c MX) args \<and>
      all_fields min_ok (fields_of c MN) args \<and>
      (\<forall>fld\<in>set (members c RP). has_key args (str_of fld)) \<and>
      (\<forall>combo\<in>set (members c FC). \<not> (\<forall>fld\<in>set (vals combo). has_key args (str_of fld))))"


section \<open>Shape\<close>

text \<open>The shape a normalised dictionary has, kind by kind.\<close>

definition kind_dict :: "(pyval \<Rightarrow> bool) \<Rightarrow> pydict \<Rightarrow> ustr \<Rightarrow> bool" where
  "kind_dict P c kind = (case map_of c kind of
       None \<Rightarrow> True
     | Some (PDict d) \<Rightarrow> (\<forall>kv\<in>set d. P (snd kv))
     | _ \<Rightarrow> False)"

definition kind_list :: "(pyval \<Rightarrow> bool) \<Rightarrow> pydict \<Rightarrow> ustr \<Rightarrow> bool" where
  "kind_list P c kind = (case map_of c kind of
       None \<Rightarrow> True
     | Some (PList xs) \<Rightarrow> (\<forall>x\<in>set xs. P x)
     | _ \<Rightarrow> False)"

definition scalar_list :: "pyval \<Rightarrow> bool" where
  "scalar_list v = (case v of PList xs \<Rightarrow> (\<forall>x\<in>set xs. is_scalar x) | _ \<Rightarrow> False)"

definition is_int :: "pyval \<Rightarrow> bool" where
  "is_int v = (case v of PInt i \<Rightarrow> True | _ \<Rightarrow> False)"

definition name_list :: "pyval \<Rightarrow> bool" where
  "name_list v = (case v of PList xs \<Rightarrow> (\<forall>x\<in>set xs. is_str x) | _ \<Rightarrow> False)"

definition shaped :: "pydict \<Rightarrow> bool" where
  "shaped c = (set (keys c) \<subseteq> KNOWN_CONSTRAINT_KEYS \<and>
     kind_dict scalar_list c FV \<and> kind_dict scalar_list c AV \<and> kind_dict is_str c SW \<and>
     kind_dict is_int c MX \<and> kind_dict is_int c MN \<and> kind_list is_str c RP \<and> kind_list name_list c FC)"

lemma kind_dictD:
  assumes "kind_dict P c kind"
  shows "py_items (dict_get c kind (PDict [])) = Inr (fields_of c kind)"
    and "kv \<in> set (fields_of c kind) \<Longrightarrow> P (snd kv)"
  using assms by (auto simp: kind_dict_def dict_get_def fields_of_def split: option.splits pyval.splits)

lemma kind_listD:
  assumes "kind_list P c kind"
  shows "py_iter (dict_get c kind (PList [])) = Inr (members c kind)"
    and "x \<in> set (members c kind) \<Longrightarrow> P x"
  using assms by (auto simp: kind_list_def dict_get_def members_def py_iter_PList split: option.splits pyval.splits)

lemma wf_fields: "wf_val (PDict c) \<Longrightarrow> distinct (map fst (fields_of c kind))"
  by (auto simp: fields_of_def split: option.splits pyval.splits dest!: map_of_SomeD)

lemma all_fields_iff:
  "distinct (map fst d) \<Longrightarrow> all_fields ok d args \<longleftrightarrow> (\<forall>kv\<in>set d. ok (snd kv) (map_of args (fst kv)))"
  by (auto simp: all_fields_def map_of_eq_Some_iff)

section \<open>The checkers decide \<open>permits\<close>\<close>

text \<open>\<open>decides m P\<close>: the check returns, and reports nothing exactly when \<open>P\<close> holds.\<close>

definition decides :: "('e + 'r option) \<Rightarrow> bool \<Rightarrow> bool" where
  "decides m P = (\<exists>r. m = Inr r \<and> (r = None \<longleftrightarrow> P))"

lemma decides_Inr [simp]: "decides (Inr r) P \<longleftrightarrow> (r = None \<longleftrightarrow> P)"
  by (simp add: decides_def)

lemma decides_rfirst:
  "(\<And>x. x \<in> set xs \<Longrightarrow> decides (f x) (P x)) \<Longrightarrow> decides (rfirst f xs) (\<forall>x\<in>set xs. P x)"
proof (induction xs)
  case (Cons x xs)
  then obtain r where "f x = Inr r" "r = None \<longleftrightarrow> P x" by (auto simp: decides_def)
  then show ?case using Cons by (cases r) auto
qed simp

lemma decides_cong: "decides m P \<Longrightarrow> P = Q \<Longrightarrow> decides m Q"
  by simp

lemma decides_fields:
  assumes "kind_dict T c kind" "wf_val (PDict c)"
    and "\<And>f v. T v \<Longrightarrow> decides (g (f, v)) (ok v (map_of args f))"
  shows "decides (rbind (py_items (dict_get c kind (PDict []))) (rfirst g)) (all_fields ok (fields_of c kind) args)"
proof -
  have "decides (rfirst g (fields_of c kind)) (\<forall>kv\<in>set (fields_of c kind). ok (snd kv) (map_of args (fst kv)))"
    by (rule decides_rfirst) (metis assms(3) kind_dictD(2)[OF assms(1)] prod.collapse)
  then show ?thesis
    by (simp add: kind_dictD(1)[OF assms(1)] all_fields_iff[OF wf_fields[OF assms(2)]])
qed

lemma decides_each_scalar:
  assumes "\<And>v s. arg = Some v \<Longrightarrow> s \<in> set (flatten_scalars v) \<Longrightarrow> decides (f s) (P s)"
  shows "decides (each_scalar a b f arg) (some_scalars arg P)"
proof (cases arg)
  case (Some v)
  have "decides (rfirst f (flatten_scalars v)) (\<forall>s\<in>set (flatten_scalars v). P s)"
    by (rule decides_rfirst) (rule assms[OF Some])
  then show ?thesis by (simp add: Some each_scalar_def some_scalars_def Let_def)
qed (simp add: each_scalar_def some_scalars_def)

lemma scalar_listE: "scalar_list v \<Longrightarrow> \<exists>xs. v = PList xs"
  by (cases v) (auto simp: scalar_list_def)

lemma decides_forbidden:
  assumes "kind_dict scalar_list c FV" "wf_val (PDict c)"
  shows "decides (check_forbidden_values c args) (all_fields forbidden_ok (fields_of c FV) args)"
  unfolding check_forbidden_values_def
proof (rule decides_fields[OF assms])
  fix f v assume "scalar_list v"
  then obtain xs where v: "v = PList xs" using scalar_listE by blast
  show "decides (case map_of args (fst (f, v)) of None \<Rightarrow> Inr None
       | Some w \<Rightarrow> rfirst (\<lambda>scalar. rbind (py_in scalar (snd (f, v))) (\<lambda>b.
           Inr (if b then Some ''is in forbidden_values'' else None))) (flatten_scalars w))
     (forbidden_ok v (map_of args f))"
  proof (cases "map_of args f")
    case (Some w)
    have "decides (rfirst (\<lambda>scalar. rbind (py_in scalar v) (\<lambda>b.
           Inr (if b then Some ''is in forbidden_values'' else None))) (flatten_scalars w))
         (\<forall>s\<in>set (flatten_scalars w). \<forall>b\<in>set xs. \<not> py_eq s b)"
      by (rule decides_rfirst) (auto simp: v py_in_PList list_ex_iff)
    then show ?thesis by (simp add: Some forbidden_ok_def vals_def v)
  qed (simp add: forbidden_ok_def)
qed

lemma decides_allowed:
  assumes "kind_dict scalar_list c AV" "wf_val (PDict c)"
  shows "decides (check_allowed_values c args) (all_fields allowed_ok (fields_of c AV) args)"
  unfolding check_allowed_values_def
proof (rule decides_fields[OF assms])
  fix f v assume "scalar_list v"
  then obtain xs where v: "v = PList xs" using scalar_listE by blast
  show "decides (each_scalar ''allowed_values field is absent'' ''allowed_values field carries no value''
         (\<lambda>scalar. rbind (py_in scalar (snd (f, v))) (\<lambda>b.
            Inr (if b then None else Some ''is not in allowed_values''))) (map_of args (fst (f, v))))
     (allowed_ok v (map_of args f))"
    unfolding allowed_ok_def fst_conv
    by (rule decides_each_scalar) (auto simp: v vals_def py_in_PList list_ex_iff)
qed

lemma startswith_iff: "startswith s p \<longleftrightarrow> prefix p s"
  by (simp add: startswith_def)

lemma decides_starts:
  assumes "kind_dict is_str c SW" "wf_val (PDict c)"
  shows "decides (check_starts_with E c args) (all_fields (starts_ok E) (fields_of c SW) args)"
  unfolding check_starts_with_def
proof (rule decides_fields[OF assms])
  fix f v assume "is_str v"
  then obtain p where v: "v = PStr p" by (auto simp: is_str_iff)
  show "decides (case map_of args (fst (f, v)) of None \<Rightarrow> Inr (Some ''starts_with field is absent'')
       | Some w \<Rightarrow> if \<not> is_str w then Inr (Some ''does not start with'')
           else rbind (starts_with_violated E (snd (f, v)) w) (\<lambda>b.
             Inr (if b then Some ''does not start with'' else None))) (starts_ok E v (map_of args f))"
    by (auto simp: v starts_ok_def is_str_iff starts_with_violated_def startswith_iff
        split: option.splits pyval.splits)
qed

lemma number_compare:
  assumes "is_number s"
  shows "py_lt (PInt i) s = Inr (of_int i < the (num_of s))" "py_lt s (PInt i) = Inr (the (num_of s) < of_int i)"
  using assms by (cases s; auto simp: is_number_def split: pyfloat.splits)+

lemma is_intE: "is_int v \<Longrightarrow> \<exists>i. v = PInt i"
  by (cases v) (auto simp: is_int_def)

lemma decides_max:
  assumes "kind_dict is_int c MX" "wf_val (PDict c)"
  shows "decides (check_max_value c args) (all_fields max_ok (fields_of c MX) args)"
  unfolding check_max_value_def
proof (rule decides_fields[OF assms])
  fix f v assume "is_int v"
  then obtain i where v: "v = PInt i" using is_intE by blast
  show "decides (each_scalar ''max_value field is absent'' ''max_value field carries no value''
         (\<lambda>scalar. if \<not> is_number scalar then Inr (Some ''is not a number (max_value)'')
            else rbind (py_lt (snd (f, v)) scalar) (\<lambda>b.
              Inr (if b then Some ''exceeding max_value'' else None))) (map_of args (fst (f, v))))
     (max_ok v (map_of args f))"
    unfolding max_ok_def fst_conv
    by (rule decides_each_scalar) (auto simp: v int_of_def number_compare not_less simp del: py_lt.simps)
qed

lemma decides_min:
  assumes "kind_dict is_int c MN" "wf_val (PDict c)"
  shows "decides (check_min_value c args) (all_fields min_ok (fields_of c MN) args)"
  unfolding check_min_value_def
proof (rule decides_fields[OF assms])
  fix f v assume "is_int v"
  then obtain i where v: "v = PInt i" using is_intE by blast
  show "decides (each_scalar ''min_value field is absent'' ''min_value field carries no value''
         (\<lambda>scalar. if \<not> is_number scalar then Inr (Some ''is not a number (min_value)'')
            else rbind (py_lt scalar (snd (f, v))) (\<lambda>b.
              Inr (if b then Some ''below min_value'' else None))) (map_of args (fst (f, v))))
     (min_ok v (map_of args f))"
    unfolding min_ok_def fst_conv
    by (rule decides_each_scalar) (auto simp: v int_of_def number_compare not_less simp del: py_lt.simps)
qed

lemma in_dict_str: "is_str v \<Longrightarrow> in_dict v d = Inr (has_key d (str_of v))"
  by (auto simp: is_str_iff in_dict_PStr)

lemma decides_required:
  assumes "kind_list is_str c RP"
  shows "decides (check_required_present c args) (\<forall>fld\<in>set (members c RP). has_key args (str_of fld))"
  unfolding check_required_present_def kind_listD(1)[OF assms] rbind_simps
  by (rule decides_rfirst) (use kind_listD(2)[OF assms] in \<open>auto simp: in_dict_str\<close>)

lemma decides_combos:
  assumes "kind_list name_list c FC"
  shows "decides (check_forbidden_combinations c args)
     (\<forall>combo\<in>set (members c FC). \<not> (\<forall>fld\<in>set (vals combo). has_key args (str_of fld)))"
  unfolding check_forbidden_combinations_def kind_listD(1)[OF assms] rbind_simps
proof (rule decides_rfirst)
  fix combo assume "combo \<in> set (members c FC)"
  then have "name_list combo" by (rule kind_listD(2)[OF assms])
  then obtain xs where c: "combo = PList xs" "\<forall>x\<in>set xs. is_str x" by (cases combo) (auto simp: name_list_def)
  have "rall (\<lambda>c2. in_dict c2 args) xs = Inr (list_all (\<lambda>x. has_key args (str_of x)) xs)"
    by (rule rall_total) (use c in \<open>simp add: in_dict_str\<close>)
  then show "decides (rbind (py_iter combo) (\<lambda>flds. rbind (rall (\<lambda>c2. in_dict c2 args) flds) (\<lambda>b.
       Inr (if b then Some ''forbidden field combination all present'' else None))))
     (\<not> (\<forall>fld\<in>set (vals combo). has_key args (str_of fld)))"
    by (simp add: c py_iter_PList vals_def list_all_iff)
qed

lemmas decide_kinds = decides_forbidden decides_allowed decides_starts decides_max decides_min
  decides_required decides_combos

lemma decides_Cons:
  "decides (f x) P \<Longrightarrow> decides (rfirst f xs) Q \<Longrightarrow> decides (rfirst f (x # xs)) (P \<and> Q)"
  by (auto simp: decides_def split: option.splits)

lemma decides_single: "decides (f x) P \<Longrightarrow> decides (rfirst f [x]) P"
  by (auto simp: decides_def split: option.splits)

lemma check_decides:
  assumes "shaped c" "wf_val (PDict c)"
  shows "decides (check_constraints E c args) (permits E c args)"
proof -
  have "rfirst (\<lambda>kind. Inr (if has_key CONSTRAINT_REGISTRY kind then None
              else Some ''unmodelled constraint kind reached the gate'')) (keys c) = (Inr None :: string option res)"
    using assms(1) by (auto simp: registry_has_key_iff shaped_def)
  then show ?thesis
    using assms unfolding check_constraints_def permits_def shaped_def
    by (simp only: rbind_simps if_False simp_thms) (intro decides_Cons decides_single decide_kinds; simp)
qed

end
