(* ===== verification/Normal.thy ===== *)
theory Normal
  imports Checker
begin

text \<open>
  What \<open>_normalise_constraints\<close> does to a dictionary it accepts: kind by kind the entry is absent or
  of the registered shape, value lists and name lists are reordered and nothing else changes.  So the
  result permits the same calls, is accepted again unchanged, and does not depend on the order in which
  values were written.
\<close>

section \<open>Elimination rules\<close>

definition upd :: "'k \<Rightarrow> 'v option \<Rightarrow> ('k \<times> 'v) list \<Rightarrow> ('k \<times> 'v) list" where
  "upd k x out = (case x of None \<Rightarrow> out | Some v \<Rightarrow> dict_set k v out)"

lemma map_of_upd [simp]:
  "map_of (upd k x out) k' = (if k' = k \<and> x \<noteq> None then x else map_of out k')"
  by (auto simp: upd_def split: option.splits)

lemma upd_keys: "set (keys (upd k x out)) \<subseteq> insert k (set (keys out))"
  by (auto simp: upd_def dom_update split: option.splits)

lemma distinct_upd: "distinct (map fst out) \<Longrightarrow> distinct (map fst (upd k x out))"
  by (auto simp: upd_def distinct_dict_set split: option.splits)

definition names_ok :: "env \<Rightarrow> pydict \<Rightarrow> bool" where
  "names_ok E d = (field_names_loop E [] (map (PStr \<circ> fst) d) = Inr ())"

definition sorted_values :: "pyval \<Rightarrow> pyval \<Rightarrow> bool" where
  "sorted_values v w = (\<exists>xs ys. v = PList xs \<and> w = PList ys \<and> (\<forall>x\<in>set xs. is_scalar x) \<and>
     py_sorted value_sort_key xs = Inr ys)"

definition sorted_names :: "pyval \<Rightarrow> pyval \<Rightarrow> bool" where
  "sorted_names v w = (\<exists>xs ys. v = PList (map PStr xs) \<and> w = PList (map PStr ys) \<and>
     py_sorted utf16_key xs = Inr ys)"

definition same_entry :: "(pyval \<Rightarrow> pyval \<Rightarrow> bool) \<Rightarrow> ustr \<times> pyval \<Rightarrow> ustr \<times> pyval \<Rightarrow> bool" where
  "same_entry R kv kv' = (fst kv' = fst kv \<and> R (snd kv) (snd kv'))"

definition norm_fields :: "env \<Rightarrow> (pyval \<Rightarrow> pyval \<Rightarrow> bool) \<Rightarrow> pyval option \<Rightarrow> pyval option \<Rightarrow> bool" where
  "norm_fields E R x y = (x = None \<and> y = None \<or>
     (\<exists>d d'. x = Some (PDict d) \<and> y = Some (PDict d') \<and> names_ok E d \<and> list_all2 (same_entry R) d d'))"

definition norm_required :: "env \<Rightarrow> pyval option \<Rightarrow> pyval option \<Rightarrow> bool" where
  "norm_required E x y = (x = None \<and> y = None \<or>
     (\<exists>v w. x = Some v \<and> y = Some w \<and> sorted_names v w \<and> field_names_loop E [] (vals v) = Inr ()))"

definition norm_combos :: "pyval option \<Rightarrow> pyval option \<Rightarrow> bool" where
  "norm_combos x y = (x = None \<and> y = None \<or>
     (\<exists>cs ns ys. x = Some (PList cs) \<and> rmap normalise_combo cs = Inr ns \<and>
        py_sorted (rmap utf16_key) ns = Inr ys \<and> y = Some (PList (map (PList \<circ> map PStr) ys))))"

definition same_str :: "pyval \<Rightarrow> pyval \<Rightarrow> bool" where
  "same_str v w = (is_str v \<and> w = v)"

definition same_int :: "pyval \<Rightarrow> pyval \<Rightarrow> bool" where
  "same_int v w = (is_int v \<and> w = v)"

lemma validate_PDict: "validate_field_keys E (PDict d) = Inr () \<longleftrightarrow> names_ok E d"
  by (simp add: validate_field_keys_def names_ok_def py_iter_def)

lemma value_list_step:
  "rbind (as_value_list v) (\<lambda>xs. rbind (py_sorted value_sort_key xs) (\<lambda>ys. Inr (k, PList ys))) = Inr kv'
   \<longleftrightarrow> same_entry sorted_values (k, v) kv'"
  by (cases v; cases kv')
    (auto simp: as_value_list_def same_entry_def sorted_values_def require_json_scalar_def)

lemma normalise_value_listE:
  "normalise_value_list_constraint E c K out = Inr out' \<longleftrightarrow>
     (\<exists>y. norm_fields E sorted_values (map_of c K) y \<and> out' = upd K y out)"
proof (cases "map_of c K")
  case (Some m)
  show ?thesis
  proof (cases m)
    case (PDict d)
    have "rmap (\<lambda>kv. rbind (as_value_list (snd kv)) (\<lambda>xs. rbind (py_sorted value_sort_key xs) (\<lambda>ys.
            Inr (fst kv, PList ys)))) d = Inr d' \<longleftrightarrow> list_all2 (same_entry sorted_values) d d'" for d'
      by (simp only: rmap_eq_Inr_iff value_list_step prod.collapse)
    then show ?thesis
      by (auto simp: normalise_value_list_constraint_def Some PDict validate_PDict norm_fields_def upd_def
          simp del: rmap.simps)
  qed (auto simp: normalise_value_list_constraint_def Some norm_fields_def)
qed (auto simp: normalise_value_list_constraint_def norm_fields_def upd_def)

lemma same_entries:
  "list_all2 (same_entry (\<lambda>v w. P v \<and> w = v)) d d' \<longleftrightarrow> d' = d \<and> (\<forall>kv\<in>set d. P (snd kv))"
  by (induction d arbitrary: d') (auto simp: list_all2_Cons1 same_entry_def)

lemma same_str_entries: "list_all2 (same_entry same_str) d d' \<longleftrightarrow> d' = d \<and> (\<forall>kv\<in>set d. is_str (snd kv))"
  using same_entries[of is_str] by (simp add: same_str_def[abs_def])

lemma same_int_entries: "list_all2 (same_entry same_int) d d' \<longleftrightarrow> d' = d \<and> (\<forall>kv\<in>set d. is_int (snd kv))"
  using same_entries[of is_int] by (simp add: same_int_def[abs_def])

lemma normalise_starts_withE:
  "normalise_starts_with E c out = Inr out' \<longleftrightarrow>
     (\<exists>y. norm_fields E same_str (map_of c SW) y \<and> out' = upd SW y out)"
  by (cases "map_of c SW")
    (auto simp: normalise_starts_with_def norm_fields_def upd_def validate_PDict same_str_entries)

lemma normalise_int_boundE:
  "normalise_int_bound E c K out = Inr out' \<longleftrightarrow>
     (\<exists>y. norm_fields E same_int (map_of c K) y \<and> out' = upd K y out)"
  by (cases "map_of c K")
    (auto simp: normalise_int_bound_def norm_fields_def upd_def validate_PDict same_int_entries
      require_int_bound_def is_int_def)

lemma field_names_str: "field_names_loop E seen xs = Inr () \<Longrightarrow> \<forall>x\<in>set xs. is_str x \<and> str_of x \<noteq> []"
proof (induction xs arbitrary: seen)
  case (Cons x xs)
  then have "is_str x \<and> str_of x \<noteq> []"
    "field_names_loop E (dict_set (nfc E (str_of x)) x seen) xs = Inr ()"
    by (auto simp only: field_names_loop.simps Let_def split: if_splits)
  with Cons.IH show ?case by simp
qed simp

lemma map_str_of_PStr [simp]: "map str_of (map PStr xs) = xs"
  by (induction xs) auto

lemma map_PStr_str_of: "\<forall>x\<in>set xs. is_str x \<Longrightarrow> map PStr (map str_of xs) = xs"
  by (induction xs) (auto simp: is_str_iff)

lemma normalise_requiredE:
  "normalise_required_present E c out = Inr out' \<longleftrightarrow>
     (\<exists>y. norm_required E (map_of c RP) y \<and> out' = upd RP y out)"
proof (cases "map_of c RP")
  case (Some val)
  show ?thesis
  proof (cases val)
    case (PList xs)
    show ?thesis
    proof (cases "field_names_loop E [] xs = Inr ()")
      case True
      define zs where "zs = map str_of xs"
      have xs: "xs = map PStr zs"
        using field_names_str[OF True] map_PStr_str_of[of xs] by (simp add: zs_def)
      have inj: "map PStr zs = map PStr zs' \<longleftrightarrow> zs = zs'" for zs'
        by (metis map_str_of_PStr)
      show ?thesis
        using True
        by (auto simp: normalise_required_present_def Some PList require_field_name_list_def norm_required_def
            upd_def sorted_names_def vals_def xs inj map_str_of_PStr simp del: map_map)
    next
      case False
      then show ?thesis
        by (auto simp: normalise_required_present_def Some PList require_field_name_list_def norm_required_def
            sorted_names_def vals_def)
    qed
  qed (auto simp: normalise_required_present_def Some require_field_name_list_def norm_required_def
      sorted_names_def)
qed (auto simp: normalise_required_present_def norm_required_def upd_def)

lemma normalise_combosE:
  "normalise_forbidden_field_combinations c out = Inr out' \<longleftrightarrow>
     (\<exists>y. norm_combos (map_of c FC) y \<and> out' = upd FC y out)"
  by (cases "map_of c FC")
    (auto simp: normalise_forbidden_field_combinations_def norm_combos_def upd_def split: pyval.splits)

lemmas normalise_elims = normalise_value_listE normalise_starts_withE normalise_int_boundE
  normalise_requiredE normalise_combosE

definition norm_rel :: "env \<Rightarrow> pydict \<Rightarrow> pydict \<Rightarrow> bool" where
  "norm_rel E c n = (set (keys c) \<subseteq> KNOWN_CONSTRAINT_KEYS \<and>
     norm_fields E sorted_values (map_of c FV) (map_of n FV) \<and>
     norm_fields E sorted_values (map_of c AV) (map_of n AV) \<and>
     norm_fields E same_str (map_of c SW) (map_of n SW) \<and>
     norm_fields E same_int (map_of c MX) (map_of n MX) \<and>
     norm_fields E same_int (map_of c MN) (map_of n MN) \<and>
     norm_required E (map_of c RP) (map_of n RP) \<and>
     norm_combos (map_of c FC) (map_of n FC))"

definition assemble :: "(ustr \<Rightarrow> pyval option) \<Rightarrow> pydict" where
  "assemble m = upd FC (m FC) (upd RP (m RP) (upd MN (m MN) (upd MX (m MX) (upd SW (m SW)
     (upd AV (m AV) (upd FV (m FV) []))))))"

lemma map_of_assemble [simp]:
  "map_of (assemble m) K = (if K \<in> KNOWN_CONSTRAINT_KEYS then m K else None)"
  by (auto simp: assemble_def known_keys_eq)

lemma distinct_assemble: "distinct (map fst (assemble m))"
  unfolding assemble_def by (intro distinct_upd) simp

lemma normalise_iff:
  "normalise_constraints E c = Inr n \<longleftrightarrow> norm_rel E c n \<and> n = assemble (map_of n)"
proof
  assume "normalise_constraints E c = Inr n"
  then obtain f a s x m r k where n: "n = upd FC k (upd RP r (upd MN m (upd MX x (upd SW s (upd AV a (upd FV f []))))))"
    and R: "set (keys c) \<subseteq> KNOWN_CONSTRAINT_KEYS" "norm_fields E sorted_values (map_of c FV) f"
      "norm_fields E sorted_values (map_of c AV) a" "norm_fields E same_str (map_of c SW) s"
      "norm_fields E same_int (map_of c MX) x" "norm_fields E same_int (map_of c MN) m"
      "norm_required E (map_of c RP) r" "norm_combos (map_of c FC) k"
    unfolding normalise_constraints_def rbind_eq_Inr_iff normalise_elims rcheck_eq_Inr_iff by blast
  have "map_of n FV = f" "map_of n AV = a" "map_of n SW = s" "map_of n MX = x" "map_of n MN = m"
    "map_of n RP = r" "map_of n FC = k" unfolding n by auto
  then show "norm_rel E c n \<and> n = assemble (map_of n)"
    unfolding norm_rel_def assemble_def using R n by simp
next
  assume "norm_rel E c n \<and> n = assemble (map_of n)"
  then show "normalise_constraints E c = Inr n"
    unfolding normalise_constraints_def rbind_eq_Inr_iff normalise_elims rcheck_eq_Inr_iff norm_rel_def assemble_def
    by blast
qed


section \<open>Accepted dictionaries are shaped\<close>

lemma sorted_values_shape: "sorted_values v w \<Longrightarrow> scalar_list v \<and> scalar_list w"
  by (auto simp: sorted_values_def scalar_list_def dest: py_sorted_set)

lemma norm_fields_shape:
  assumes "norm_fields E R (map_of c K) (map_of n K)" "\<And>v w. R v w \<Longrightarrow> P v \<and> P w"
  shows "kind_dict P c K \<and> kind_dict P n K"
proof -
  have "(\<forall>kv\<in>set d. P (snd kv)) \<and> (\<forall>kv\<in>set d'. P (snd kv))" if "list_all2 (same_entry R) d d'" for d d'
    using that assms(2) by (induction rule: list_all2_induct) (auto simp: same_entry_def)
  then show ?thesis using assms(1) by (auto simp: norm_fields_def kind_dict_def)
qed

lemma norm_required_shape:
  "norm_required E (map_of c RP) (map_of n RP) \<Longrightarrow> kind_list is_str c RP \<and> kind_list is_str n RP"
  by (auto simp: norm_required_def sorted_names_def kind_list_def)

lemma normalise_combo_iff:
  "normalise_combo v = Inr ns \<longleftrightarrow> sorted_names v (PList (map PStr ns)) \<and> PStr [] \<notin> set (vals v)"
proof (cases v)
  case (PList xs)
  have inj: "map PStr zs = map PStr zs' \<longleftrightarrow> zs = zs'" for zs zs'
    by (metis map_str_of_PStr)
  show ?thesis
  proof (cases "\<forall>x\<in>set xs. is_str x")
    case True
    define zs where "zs = map str_of xs"
    have xs: "xs = map PStr zs" using map_PStr_str_of[OF True] by (simp add: zs_def)
    show ?thesis
      by (auto simp: normalise_combo_def PList xs sorted_names_def vals_def inj map_str_of_PStr simp del: map_map)
  next
    case False
    then show ?thesis by (auto simp: normalise_combo_def PList sorted_names_def vals_def)
  qed
qed (auto simp: normalise_combo_def sorted_names_def)

lemma norm_combos_shape:
  assumes "norm_combos (map_of c FC) (map_of n FC)"
  shows "kind_list name_list c FC \<and> kind_list name_list n FC"
proof -
  have "name_list v" if "normalise_combo v = Inr ns" for v ns
    using that by (auto simp: normalise_combo_iff sorted_names_def name_list_def)
  then have "\<forall>v\<in>set cs. name_list v" if "rmap normalise_combo cs = Inr ns" for cs ns
    using that by (fastforce simp: rmap_eq_Inr_iff list_all2_conv_all_nth in_set_conv_nth)
  then show ?thesis using assms by (fastforce simp: norm_combos_def kind_list_def name_list_def)
qed

lemma norm_rel_shaped:
  assumes "norm_rel E c n" shows "shaped c"
  using assms norm_fields_shape[of E sorted_values c _ n scalar_list] sorted_values_shape
    norm_fields_shape[of E same_str c SW n is_str] norm_fields_shape[of E same_int c _ n is_int]
    norm_required_shape norm_combos_shape
  unfolding norm_rel_def shaped_def by (auto simp: same_str_def same_int_def)

lemma assemble_keys: "n = assemble (map_of n) \<Longrightarrow> set (keys n) \<subseteq> KNOWN_CONSTRAINT_KEYS"
proof
  fix k assume n: "n = assemble (map_of n)" and "k \<in> set (keys n)"
  then obtain v where "map_of n k = Some v" by (auto simp: map_of_eq_None_iff dest: weak_map_of_SomeI)
  then show "k \<in> KNOWN_CONSTRAINT_KEYS" using n map_of_assemble by (metis option.distinct(1))
qed

section \<open>Field names\<close>

definition field_names_ok :: "env \<Rightarrow> pyval list \<Rightarrow> bool" where
  "field_names_ok E xs = ((\<forall>x\<in>set xs. is_str x \<and> str_of x \<noteq> []) \<and>
     (\<forall>x\<in>set xs. \<forall>y\<in>set xs. nfc E (str_of x) = nfc E (str_of y) \<longrightarrow> x = y))"

lemma field_names_loop_iff:
  assumes "\<forall>k v. map_of seen k = Some v \<longrightarrow> k = nfc E (str_of v)"
  shows "field_names_loop E seen xs = Inr () \<longleftrightarrow> field_names_ok E xs \<and>
    (\<forall>x\<in>set xs. \<forall>v. map_of seen (nfc E (str_of x)) = Some v \<longrightarrow> x = v)"
  using assms
proof (induction xs arbitrary: seen)
  case Nil
  then show ?case by (simp add: field_names_ok_def)
next
  case (Cons x xs)
  let ?seen = "dict_set (nfc E (str_of x)) x seen"
  have IH: "field_names_loop E ?seen xs = Inr () \<longleftrightarrow> field_names_ok E xs \<and>
      (\<forall>y\<in>set xs. \<forall>v. map_of ?seen (nfc E (str_of y)) = Some v \<longrightarrow> y = v)"
    by (rule Cons.IH) (use Cons.prems in auto)
  have ok: "field_names_ok E (x # xs) \<longleftrightarrow> is_str x \<and> str_of x \<noteq> [] \<and> field_names_ok E xs \<and>
      (\<forall>y\<in>set xs. nfc E (str_of y) = nfc E (str_of x) \<longrightarrow> y = x)"
    unfolding field_names_ok_def by (simp add: ball_conj_distrib) (blast dest: sym)
  consider "\<not> (is_str x \<and> str_of x \<noteq> [])"
    | "is_str x" "str_of x \<noteq> []" "map_of seen (nfc E (str_of x)) = None"
    | "is_str x" "str_of x \<noteq> []" "map_of seen (nfc E (str_of x)) = Some x"
    | v where "is_str x" "str_of x \<noteq> []" "map_of seen (nfc E (str_of x)) = Some v" "v \<noteq> x"
    by (cases "map_of seen (nfc E (str_of x))") blast+
  then show ?case
  proof cases
    case 1
    then show ?thesis by (auto simp: ok)
  next
    case 2
    then show ?thesis by (auto simp: IH ok has_key_def Let_def)
  next
    case 3
    then show ?thesis by (auto simp: IH ok has_key_def Let_def)
  next
    case 4
    then show ?thesis by (auto simp: has_key_def Let_def)
  qed
qed

lemma field_names_loop_ok: "field_names_loop E [] xs = Inr () \<longleftrightarrow> field_names_ok E xs"
  using field_names_loop_iff[of "[]"] by simp

lemma field_names_ok_cong: "set xs = set ys \<Longrightarrow> field_names_ok E xs = field_names_ok E ys"
  by (simp add: field_names_ok_def)

section \<open>Normalisation is idempotent\<close>

lemma sorted_values_idem: "sorted_values v w \<Longrightarrow> sorted_values w w"
  unfolding sorted_values_def by (metis py_sorted_idem py_sorted_set)

lemma same_entry_keys: "list_all2 (same_entry R) d d' \<Longrightarrow> map fst d' = map fst d"
  by (induction rule: list_all2_induct) (auto simp: same_entry_def)

lemma norm_fields_idem:
  assumes "norm_fields E R x y" "\<And>v w. R v w \<Longrightarrow> R w w"
  shows "norm_fields E R y y"
proof -
  have "list_all2 (same_entry R) d' d'" if "list_all2 (same_entry R) d d'" for d d'
    using that assms(2) by (induction rule: list_all2_induct) (auto simp: same_entry_def)
  moreover have "names_ok E d'" if "names_ok E d" "list_all2 (same_entry R) d d'" for d d'
    using that same_entry_keys[OF that(2)] unfolding names_ok_def by (metis map_map)
  ultimately show ?thesis using assms(1) by (auto simp: norm_fields_def)
qed

lemma sorted_names_idem: "sorted_names v w \<Longrightarrow> sorted_names w w"
  by (auto simp: sorted_names_def dest: py_sorted_idem)

lemma sorted_names_set: "sorted_names v w \<Longrightarrow> set (vals w) = set (vals v)"
  by (auto simp: sorted_names_def vals_def dest: py_sorted_set)

lemma norm_required_idem: "norm_required E x y \<Longrightarrow> norm_required E y y"
proof -
  assume "norm_required E x y"
  moreover have "norm_required E (Some w) (Some w)"
    if "sorted_names v w" "field_names_loop E [] (vals v) = Inr ()" for v w
    using that sorted_names_idem[OF that(1)] field_names_ok_cong[OF sorted_names_set[OF that(1)], of E]
    by (simp add: norm_required_def field_names_loop_ok)
  ultimately show ?thesis by (auto simp: norm_required_def[of E x y]) (simp add: norm_required_def)
qed

lemma norm_combos_idem:
  assumes "norm_combos x y" shows "norm_combos y y"
proof -
  have "rmap normalise_combo (map (PList \<circ> map PStr) ys) = Inr ys"
    if ns: "rmap normalise_combo cs = Inr ns" and ys: "py_sorted (rmap utf16_key) ns = Inr ys" for cs ns ys
  proof -
    have "normalise_combo (PList (map PStr z)) = Inr z" if z: "z \<in> set ys" for z
    proof -
      have "z \<in> set ns" using ys z by (simp add: py_sorted_set[OF ys, symmetric])
      then obtain v where "normalise_combo v = Inr z"
        using ns by (auto simp: rmap_eq_Inr_iff list_all2_conv_all_nth in_set_conv_nth)
      then show ?thesis
        using sorted_names_set by (auto simp: normalise_combo_iff dest: sorted_names_idem)
    qed
    then show ?thesis by (auto simp: rmap_eq_Inr_iff list_all2_conv_all_nth)
  qed
  then show ?thesis using assms by (fastforce simp: norm_combos_def dest: py_sorted_idem)
qed

lemma norm_rel_idem:
  assumes "norm_rel E c n" "n = assemble (map_of n)"
  shows "norm_rel E n n"
proof -
  have "norm_fields E same_str (map_of n SW) (map_of n SW)"
    by (rule norm_fields_idem[where x = "map_of c SW"]) (use assms in \<open>auto simp: norm_rel_def same_str_def\<close>)
  moreover have "norm_fields E same_int (map_of n MX) (map_of n MX)"
    by (rule norm_fields_idem[where x = "map_of c MX"]) (use assms in \<open>auto simp: norm_rel_def same_int_def\<close>)
  moreover have "norm_fields E same_int (map_of n MN) (map_of n MN)"
    by (rule norm_fields_idem[where x = "map_of c MN"]) (use assms in \<open>auto simp: norm_rel_def same_int_def\<close>)
  moreover have "norm_fields E sorted_values (map_of n FV) (map_of n FV)"
    by (rule norm_fields_idem[where x = "map_of c FV"]) (use assms sorted_values_idem in \<open>auto simp: norm_rel_def\<close>)
  moreover have "norm_fields E sorted_values (map_of n AV) (map_of n AV)"
    by (rule norm_fields_idem[where x = "map_of c AV"]) (use assms sorted_values_idem in \<open>auto simp: norm_rel_def\<close>)
  ultimately show ?thesis
    using assms norm_required_idem norm_combos_idem assemble_keys[OF assms(2)]
    unfolding norm_rel_def by blast
qed

lemma normalise_idem: "normalise_constraints E c = Inr n \<Longrightarrow> normalise_constraints E n = Inr n"
  unfolding normalise_iff using norm_rel_idem by blast

lemma normalise_shaped:
  assumes "normalise_constraints E c = Inr n" shows "shaped c" "shaped n"
  using assms normalise_idem[OF assms] norm_rel_shaped by (auto simp: normalise_iff)

section \<open>Normalisation keeps the permitted calls\<close>

lemma same_entry_map_of:
  "list_all2 (same_entry R) d d' \<Longrightarrow> rel_option R (map_of d f) (map_of d' f)"
  by (induction rule: list_all2_induct) (auto simp: same_entry_def)

lemma norm_fields_all:
  assumes "norm_fields E R (map_of c K) (map_of n K)" "\<And>v w a. R v w \<Longrightarrow> ok w a = ok v a"
  shows "all_fields ok (fields_of n K) args = all_fields ok (fields_of c K) args"
proof -
  have "rel_option R (map_of (fields_of c K) f) (map_of (fields_of n K) f)" for f
    using assms(1) unfolding norm_fields_def
    by (elim disjE exE conjE) (auto simp: fields_of_def intro: same_entry_map_of)
  then have "map_of (fields_of c K) f = None \<and> map_of (fields_of n K) f = None \<or>
      (\<exists>v w. map_of (fields_of c K) f = Some v \<and> map_of (fields_of n K) f = Some w \<and> R v w)" for f
    by (meson option.rel_cases)
  then have "(\<exists>w. map_of (fields_of n K) f = Some w \<and> \<not> ok w a) \<longleftrightarrow>
      (\<exists>v. map_of (fields_of c K) f = Some v \<and> \<not> ok v a)" for f a
    using assms(2) by (metis option.sel option.distinct(1))
  then show ?thesis unfolding all_fields_def by blast
qed

lemma sorted_values_ok:
  assumes "sorted_values v w"
  shows "forbidden_ok w a = forbidden_ok v a" "allowed_ok w a = allowed_ok v a"
proof -
  have "set (vals w) = set (vals v)"
    using assms by (auto simp: sorted_values_def vals_def dest: py_sorted_set)
  then show "forbidden_ok w a = forbidden_ok v a" "allowed_ok w a = allowed_ok v a"
    by (simp_all add: forbidden_ok_def allowed_ok_def split: option.split)
qed

lemma norm_required_members:
  "norm_required E (map_of c RP) (map_of n RP) \<Longrightarrow> set (members n RP) = set (members c RP)"
  unfolding norm_required_def
  by (auto simp: members_def sorted_names_def dest: py_sorted_set)

lemma norm_combos_members:
  assumes "norm_combos (map_of c FC) (map_of n FC)"
  shows "set ` vals ` set (members n FC) = set ` vals ` set (members c FC)"
proof -
  have combo: "set (vals v) = PStr ` set ns" if "normalise_combo v = Inr ns" for v ns
    using that sorted_names_set[of v "PList (map PStr ns)"] by (simp add: normalise_combo_iff vals_def)
  have "set ` vals ` set cs = (\<lambda>ns. PStr ` set ns) ` set nss" if "rmap normalise_combo cs = Inr nss" for cs nss
    using that unfolding rmap_eq_Inr_iff
    by (induction rule: list_all2_induct) (auto simp: combo)
  then show ?thesis
    using assms unfolding norm_combos_def
  proof (elim disjE exE conjE)
    fix cs ns ys
    assume "\<And>cs nss. rmap normalise_combo cs = Inr nss \<Longrightarrow> set ` vals ` set cs = (\<lambda>ns. PStr ` set ns) ` set nss"
      and a: "map_of c FC = Some (PList cs)" "rmap normalise_combo cs = Inr ns"
        "py_sorted (rmap utf16_key) ns = Inr ys" "map_of n FC = Some (PList (map (PList \<circ> map PStr) ys))"
    then have "set ` vals ` set cs = (\<lambda>ns. PStr ` set ns) ` set ys"
      using py_sorted_set[OF a(3)] by simp
    then show ?thesis by (simp add: members_def a) (simp add: vals_def image_image)
  qed (simp add: members_def)
qed

lemma combos_permit_iff:
  "(\<forall>combo\<in>S. \<not> (\<forall>fld\<in>set (vals combo). P fld)) \<longleftrightarrow> (\<forall>C\<in>set ` vals ` S. \<not> (\<forall>fld\<in>C. P fld))"
  by auto

lemma normalise_permits:
  assumes "normalise_constraints E c = Inr n"
  shows "permits E n args \<longleftrightarrow> permits E c args"
proof -
  have R: "norm_rel E c n" using assms by (simp add: normalise_iff)
  have "norm_fields E sorted_values (map_of c FV) (map_of n FV)"
    "norm_fields E sorted_values (map_of c AV) (map_of n AV)"
    "norm_fields E same_str (map_of c SW) (map_of n SW)"
    "norm_fields E same_int (map_of c MX) (map_of n MX)"
    "norm_fields E same_int (map_of c MN) (map_of n MN)"
    using R unfolding norm_rel_def by blast+
  note fields = this[THEN norm_fields_all]
  have "all_fields forbidden_ok (fields_of n FV) args = all_fields forbidden_ok (fields_of c FV) args"
    by (rule fields(1)) (rule sorted_values_ok)
  moreover have "all_fields allowed_ok (fields_of n AV) args = all_fields allowed_ok (fields_of c AV) args"
    by (rule fields(2)) (rule sorted_values_ok)
  moreover have "all_fields (starts_ok E) (fields_of n SW) args = all_fields (starts_ok E) (fields_of c SW) args"
    by (rule fields(3)) (simp add: same_str_def)
  moreover have "all_fields max_ok (fields_of n MX) args = all_fields max_ok (fields_of c MX) args"
    by (rule fields(4)) (simp add: same_int_def)
  moreover have "all_fields min_ok (fields_of n MN) args = all_fields min_ok (fields_of c MN) args"
    by (rule fields(5)) (simp add: same_int_def)
  moreover have "set (members n RP) = set (members c RP)"
    using R norm_required_members by (auto simp: norm_rel_def)
  moreover have "set ` vals ` set (members n FC) = set ` vals ` set (members c FC)"
    using R norm_combos_members by (auto simp: norm_rel_def)
  ultimately show ?thesis unfolding permits_def combos_permit_iff by (simp only:)
qed

end
