(* ===== verification/Narrowing.thy ===== *)
theory Narrowing
  imports Normal
begin

text \<open>
  The narrowing merge takes the tighter entry of every kind.  The locale \<open>narrowing_kind\<close> is the contract
  of the per-field merge of one constraint kind (the \<open>Meet\<close> column of the registry): the merged entry
  satisfied means the parent's entry satisfied.  It is interpreted for the five field-indexed kinds.
\<close>

section \<open>Value lists\<close>

definition seen_ok :: "((string \<times> pyval) \<times> pyval) list \<Rightarrow> bool" where
  "seen_ok seen = (\<forall>kv\<in>set seen. fst kv = vid (snd kv))"

lemma vid_inj [simp]: "vid v = vid w \<longleftrightarrow> v = w"
  by (auto simp: vid_def)

lemma seen_setdefault_ok: "seen_ok seen \<Longrightarrow> seen_ok (seen_setdefault v seen)"
  by (auto simp: seen_ok_def seen_setdefault_def)

lemma seen_setdefault_set:
  "seen_ok seen \<Longrightarrow> snd ` set (seen_setdefault v seen) = insert v (snd ` set seen)"
  by (force simp: seen_ok_def seen_setdefault_def has_key_iff)

lemma fold_seen:
  "seen_ok seen \<Longrightarrow> snd ` set (fold (\<lambda>v seen. if P v then seen_setdefault v seen else seen) xs seen)
     = snd ` set seen \<union> {x \<in> set xs. P x}"
  by (induction xs arbitrary: seen) (auto simp: seen_setdefault_ok seen_setdefault_set)

lemma union_values_eq:
  "union_values a b = Inr w \<Longrightarrow>
     \<exists>xs ys zs. py_iter a = Inr xs \<and> py_iter b = Inr ys \<and> w = PList zs \<and> set zs = set xs \<union> set ys"
  using fold_seen[of "[]" "\<lambda>_. True"] by (auto simp: union_values_def seen_ok_def simp del: fold_append)

lemma intersect_values_eq:
  "intersect_values a b = Inr w \<Longrightarrow>
     \<exists>xs ys zs. py_iter a = Inr xs \<and> py_iter b = Inr ys \<and> w = PList zs \<and> set zs = set xs \<inter> set ys"
  using fold_seen[of "[]" "\<lambda>v. vid v \<in> set (map vid ys)" for ys]
  by (force simp: intersect_values_def seen_ok_def)

section \<open>The contract of a kind\<close>

definition dist_fields :: "pydict \<Rightarrow> bool" where
  "dist_fields c = (\<forall>K. distinct (map fst (fields_of c K)))"

locale narrowing_kind =
  fixes merge :: "pyval option \<Rightarrow> pyval \<Rightarrow> pyval res"
    and ok :: "pyval \<Rightarrow> pyval option \<Rightarrow> bool"
    and good :: "pyval \<Rightarrow> bool"
    and adm :: "pyval \<Rightarrow> bool"
  assumes narrows: "merge (Some a) b = Inr w \<Longrightarrow> adm a \<Longrightarrow> good w \<Longrightarrow> ok w x \<Longrightarrow> ok a x"
begin

definition step :: "ustr \<times> pyval \<Rightarrow> pydict \<Rightarrow> pydict res" where
  "step kv d = rbind (merge (map_of d (fst kv)) (snd kv)) (\<lambda>w. Inr (dict_set (fst kv) w d))"

lemma fold_step:
  assumes "rfold step es d = Inr d'" "distinct (map fst es)"
  shows "(map_of es f = None \<longrightarrow> map_of d' f = map_of d f) \<and>
    (\<forall>b. map_of es f = Some b \<longrightarrow> (\<exists>w. merge (map_of d f) b = Inr w \<and> map_of d' f = Some w))"
  using assms
proof (induction es arbitrary: d)
  case (Cons kv es)
  obtain w where w: "merge (map_of d (fst kv)) (snd kv) = Inr w"
    and r: "rfold step es (dict_set (fst kv) w d) = Inr d'" using Cons.prems(1) by (auto simp: step_def[of kv])
  have "map_of es (fst kv) = None" using Cons.prems(2) by (simp add: map_of_eq_None_iff)
  then show ?case using Cons.IH[OF r] Cons.prems(2) w by (cases kv) auto
qed simp

lemma merge_kind_fields:
  assumes "merge_kind merge err K e out = Inr out'"
  shows "\<exists>es. py_items (dict_get e K (PDict [])) = Inr es \<and> rfold step es (fields_of out K) = Inr (fields_of out' K)"
    and "K' \<noteq> K \<Longrightarrow> map_of out' K' = map_of out K'"
proof -
  obtain es where es: "py_items (dict_get e K (PDict [])) = Inr es" "rfold (merge_field merge err K) es out = Inr out'"
    using assms by (auto simp: merge_kind_def)
  have "rfold step es (fields_of out K) = Inr (fields_of out' K) \<and> (K' \<noteq> K \<longrightarrow> map_of out' K' = map_of out K')"
    using es(2)
  proof (induction es arbitrary: out)
    case (Cons kv es)
    obtain d w where d: "dict_get out K (PDict []) = PDict d" and w: "merge (map_of d (fst kv)) (snd kv) = Inr w"
      and r: "rfold (merge_field merge err K) es (dict_set K (PDict (dict_set (fst kv) w d)) out) = Inr out'"
      using Cons.prems by (auto simp: merge_field_def[of _ _ _ kv] split: pyval.splits)
    have "fields_of out K = d" using d by (auto simp: dict_get_def fields_of_def split: option.splits)
    then show ?case using Cons.IH[OF r] w by (simp add: step_def fields_of_def)
  qed simp
  with es(1) show "\<exists>es. py_items (dict_get e K (PDict [])) = Inr es \<and>
      rfold step es (fields_of out K) = Inr (fields_of out' K)"
    and "K' \<noteq> K \<Longrightarrow> map_of out' K' = map_of out K'" by blast+
qed

lemma fold_step_distinct: "rfold step es d = Inr d' \<Longrightarrow> distinct (map fst d) \<Longrightarrow> distinct (map fst d')"
  by (rule rfold_invariant[where P = "\<lambda>d. distinct (map fst d)"]) (auto simp: step_def distinct_dict_set)

lemma merge_kind_distinct:
  assumes "merge_kind merge err K e out = Inr out'" "dist_fields out"
  shows "dist_fields out'"
  unfolding dist_fields_def
proof
  fix K'
  show "distinct (map fst (fields_of out' K'))"
  proof (cases "K' = K")
    case True
    then show ?thesis using merge_kind_fields(1)[OF assms(1)] fold_step_distinct assms(2) unfolding dist_fields_def by blast
  next
    case False
    then have "fields_of out' K' = fields_of out K'"
      using merge_kind_fields(2)[OF assms(1)] by (simp add: fields_of_def)
    then show ?thesis using assms(2) by (simp add: dist_fields_def)
  qed
qed

lemma wf_items: "wf_val (PDict e) \<Longrightarrow> py_items (dict_get e K (PDict [])) = Inr es \<Longrightarrow> distinct (map fst es)"
  by (auto simp: dict_get_def split: option.splits dest!: map_of_SomeD)

lemma merge_kind_narrows:
  assumes "merge_kind merge err K e out = Inr out'" "wf_val (PDict e)"
    and "\<forall>f v. map_of (fields_of out K) f = Some v \<longrightarrow> adm v"
    and "\<forall>f v. map_of (fields_of out' K) f = Some v \<longrightarrow> good v"
    and "all_fields ok (fields_of out' K) args"
  shows "all_fields ok (fields_of out K) args"
  unfolding all_fields_def
proof (intro allI impI)
  fix f v
  assume v: "map_of (fields_of out K) f = Some v"
  obtain es where es: "py_items (dict_get e K (PDict [])) = Inr es" "rfold step es (fields_of out K) = Inr (fields_of out' K)"
    using merge_kind_fields(1)[OF assms(1)] by blast
  note fs = fold_step[OF es(2) wf_items[OF assms(2) es(1)], of f]
  show "ok v (map_of args f)"
  proof (cases "map_of es f")
    case None
    then show ?thesis using fs v assms(5) by (simp add: all_fields_def)
  next
    case (Some b)
    then obtain w where "merge (Some v) b = Inr w" "map_of (fields_of out' K) f = Some w" using fs v by auto
    then show ?thesis using narrows assms(3,4,5) v by (auto simp: all_fields_def)
  qed
qed

end

interpretation forbidden_kind: narrowing_kind merge_forbidden forbidden_ok scalar_list scalar_list
proof
  fix a b w x
  assume "merge_forbidden (Some a) b = Inr w" "scalar_list a" "forbidden_ok w x"
  moreover from this(2) have "py_iter a = Inr (vals a)" by (cases a) (auto simp: scalar_list_def py_iter_def vals_def)
  ultimately have "set (vals a) \<subseteq> set (vals w)" by (auto simp: merge_forbidden_def vals_def dest: union_values_eq)
  with \<open>forbidden_ok w x\<close> show "forbidden_ok a x" by (auto simp: forbidden_ok_def split: option.splits)
qed

interpretation allowed_kind: narrowing_kind merge_allowed allowed_ok scalar_list scalar_list
proof
  fix a b w x
  assume "merge_allowed (Some a) b = Inr w" "scalar_list a" "allowed_ok w x"
  moreover from this(2) have "py_iter a = Inr (vals a)" by (cases a) (auto simp: scalar_list_def py_iter_def vals_def)
  ultimately have "set (vals w) \<subseteq> set (vals a)" by (auto simp: merge_allowed_def vals_def dest: intersect_values_eq)
  with \<open>allowed_ok w x\<close> show "allowed_ok a x"
    unfolding allowed_ok_def some_scalars_def by (cases x) (simp, fastforce)
qed

text \<open>
  For prefixes the contract needs the parent's prefix not to be a \<open>file://\<close> URI: the gate compares such
  prefixes in canonical form, which the merge does not look at.
\<close>

definition plain_prefix :: "pyval \<Rightarrow> bool" where
  "plain_prefix v = (is_str v \<and> \<not> startswith (str_of v) (lit ''file://''))"

lemma canonical_file_uri_plain: "plain_prefix v \<Longrightarrow> canonical_file_uri E v = None"
  by (simp add: plain_prefix_def canonical_file_uri_def)

lemma canonical_file_uri_SomeD: "canonical_file_uri E v = Some u \<Longrightarrow> is_str v \<and> prefix (lit ''file://'') (str_of v)"
  by (auto simp: canonical_file_uri_def startswith_iff split: if_splits)

interpretation starts_kind: narrowing_kind merge_starts_with "starts_ok E" is_str plain_prefix
proof
  fix a b w x
  assume m: "merge_starts_with (Some a) b = Inr w" and a: "plain_prefix a" and ok: "starts_ok E w x"
  obtain e where e: "a = PStr e" using a by (auto simp: plain_prefix_def is_str_iff)
  then obtain p where p: "w = PStr p" "prefix e p"
    using m by (cases b) (auto simp: merge_starts_with_def py_none_def startswith_iff split: if_splits)
  obtain s where s: "x = Some (PStr s)" using ok by (auto simp: starts_ok_def split: option.splits pyval.splits)
  have "prefix e s"
  proof (cases "prefix p s")
    case True
    with p(2) show ?thesis by (rule prefix_order.trans)
  next
    case False
    then obtain cp cv where "canonical_file_uri E (PStr p) = Some cp" "canonical_file_uri E (PStr s) = Some cv"
      using ok by (auto simp: starts_ok_def p s split: option.splits)
    then have fp: "prefix (lit ''file://'') p" "prefix (lit ''file://'') s"
      by (auto dest: canonical_file_uri_SomeD)
    have "\<not> prefix (lit ''file://'') e" using a by (simp add: e plain_prefix_def startswith_iff)
    then have "prefix e (lit ''file://'')" using prefix_same_cases[OF p(2) fp(1)] by blast
    from this fp(2) show ?thesis by (rule prefix_order.trans)
  qed
  then show "starts_ok E a x" using canonical_file_uri_plain[OF a] by (simp add: starts_ok_def e s)
qed

lemma int_merge:
  assumes "is_int a" "is_int w"
  shows "py_min a b = Inr w \<Longrightarrow> int_of w \<le> int_of a" "py_max a b = Inr w \<Longrightarrow> int_of a \<le> int_of w"
  using assms by (auto simp: py_min_def py_max_def int_of_def split: if_splits dest!: is_intE)

interpretation max_kind: narrowing_kind merge_max max_ok is_int is_int
proof
  fix a b w x
  assume m: "merge_max (Some a) b = Inr w" and t: "is_int a" "is_int w" and ok: "max_ok w x"
  have "py_min a b = Inr w" using m t by (auto simp: merge_max_def py_none_def is_int_def split: if_splits)
  then have "int_of w \<le> int_of a" by (rule int_merge[OF t])
  then have "rat_of_int (int_of w) \<le> rat_of_int (int_of a)" by simp
  with ok show "max_ok a x" unfolding max_ok_def some_scalars_def by (fastforce split: option.splits)
qed

interpretation min_kind: narrowing_kind merge_min min_ok is_int is_int
proof
  fix a b w x
  assume m: "merge_min (Some a) b = Inr w" and t: "is_int a" "is_int w" and ok: "min_ok w x"
  have "py_max a b = Inr w" using m t by (auto simp: merge_min_def py_none_def is_int_def split: if_splits)
  then have "int_of a \<le> int_of w" by (rule int_merge[OF t])
  then have "rat_of_int (int_of a) \<le> rat_of_int (int_of w)" by simp
  with ok show "min_ok a x" unfolding min_ok_def some_scalars_def by (fastforce split: option.splits)
qed

section \<open>The list kinds\<close>

lemma merge_required_frame:
  "merge_required e out = Inr out' \<Longrightarrow> K \<noteq> RP \<Longrightarrow> map_of out' K = map_of out K"
  by (auto simp: merge_required_def split: option.splits)

lemma merge_combos_frame:
  "merge_combos e out = Inr out' \<Longrightarrow> K \<noteq> FC \<Longrightarrow> map_of out' K = map_of out K"
  by (auto simp: merge_combos_def split: option.splits)

lemma merge_required_grows:
  assumes "merge_required e out = Inr out'" "kind_list is_str out RP"
  shows "set (members out RP) \<subseteq> set (members out' RP)"
proof (cases "map_of e RP")
  case (Some names)
  then obtain xs ys u zs where xs: "py_set_of (dict_get out RP (PList [])) = Inr xs" and "py_set xs ys = Inr u"
    and "py_sort u = Inr zs" and out': "out' = dict_set RP (PList zs) out"
    using assms(1) by (auto simp: merge_required_def)
  moreover have "py_set [] (members out RP) = Inr xs"
    using xs kind_listD(1)[OF assms(2)] by (simp add: py_set_of_def)
  ultimately have "x \<in> set zs" if "x \<in> set (members out RP)" for x
    using that kind_listD(2)[OF assms(2) that] py_set_strings py_sort_set py_set_sound
    by (fastforce simp: is_str_iff)
  then show ?thesis by (auto simp: out' members_def)
qed (use assms in \<open>simp add: merge_required_def\<close>)

lemma tuple_set_keeps:
  "(\<And>y. list_all2 py_eq x y \<Longrightarrow> y = x) \<Longrightarrow> x \<in> set seen \<union> set xs \<Longrightarrow> x \<in> set (tuple_set seen xs)"
proof (induction xs arbitrary: seen)
  case (Cons y xs)
  let ?seen = "if list_ex (list_all2 py_eq y) seen then seen else seen @ [y]"
  have "x \<in> set ?seen \<union> set xs" using Cons.prems by (auto simp: list_ex_iff)
  then show ?case using Cons.IH[of ?seen] Cons.prems(1) by simp
qed simp

lemma py_eq_PStr: "py_eq (PStr s) y \<longleftrightarrow> y = PStr s"
  by (cases y) (auto simp: num_eq_def)

lemma string_tuple_unique: "\<forall>v\<in>set x. is_str v \<Longrightarrow> list_all2 py_eq x y \<Longrightarrow> y = x"
  by (induction x arbitrary: y) (auto simp: list_all2_Cons1 is_str_iff py_eq_PStr)

lemma merge_combos_grows:
  assumes "merge_combos e out = Inr out'" "kind_list name_list out FC"
  shows "set ` vals ` set (members out FC) \<subseteq> set ` vals ` set (members out' FC)"
proof (cases "map_of e FC")
  case (Some combos)
  then obtain xs ys zs ws where xs: "rmap sorted_tuple (members out FC) = Inr xs"
    and zs: "rmap py_sort (tuple_set [] (xs @ ys)) = Inr zs"
    and ws: "py_sort (map PList zs) = Inr ws" and out': "out' = dict_set FC (PList ws) out"
    using assms(1) kind_listD(1)[OF assms(2)] by (auto simp: merge_combos_def)
  have "set (vals c) \<in> set ` vals ` set ws" if c: "c \<in> set (members out FC)" for c
  proof -
    obtain cs where cs: "c = PList cs" "\<forall>v\<in>set cs. is_str v"
      using kind_listD(2)[OF assms(2) c] by (cases c) (auto simp: name_list_def)
    obtain t where t: "t \<in> set xs" "sorted_tuple c = Inr t"
      using rmap_member[OF xs c] by blast
    then have st: "set t = set cs" by (auto simp: sorted_tuple_def cs py_iter_PList dest: py_sort_set)
    then have "t \<in> set (tuple_set [] (xs @ ys))"
      using t(1) cs(2) string_tuple_unique by (intro tuple_set_keeps) auto
    then obtain z where "z \<in> set zs" "py_sort t = Inr z"
      using rmap_member[OF zs] by blast
    then have "PList z \<in> set ws" "set z = set cs" using py_sort_set[OF ws] st by (auto dest: py_sort_set)
    then have "set (vals (PList z)) = set (vals c)" by (simp add: cs vals_def)
    then show ?thesis using \<open>PList z \<in> set ws\<close> by (metis image_eqI)
  qed
  then show ?thesis by (auto simp: out' members_def)
qed (use assms in \<open>simp add: merge_combos_def\<close>)

section \<open>The merge narrows\<close>

definition plain_prefixes :: "pydict \<Rightarrow> bool" where
  "plain_prefixes c = (\<forall>kv\<in>set (fields_of c SW). plain_prefix (snd kv))"

lemma kind_dict_map_of: "kind_dict P c K \<Longrightarrow> \<forall>f v. map_of (fields_of c K) f = Some v \<longrightarrow> P v"
  using kind_dictD(2)[of P c K] by (fastforce dest: map_of_SomeD)

lemma kind_cong:
  "map_of c K = map_of c' K \<Longrightarrow> fields_of c K = fields_of c' K"
  "map_of c K = map_of c' K \<Longrightarrow> members c K = members c' K"
  "map_of c K = map_of c' K \<Longrightarrow> kind_dict P c K = kind_dict P c' K"
  "map_of c K = map_of c' K \<Longrightarrow> kind_list P c K = kind_list P c' K"
  by (simp_all add: fields_of_def members_def kind_dict_def kind_list_def)

lemma merge_raw_narrows:
  assumes m: "merge_raw p e = Inr out" and e: "wf_val (PDict e)" and p: "shaped p" "plain_prefixes p"
    and out: "shaped out" "permits E out args"
  shows "permits E p args"
proof -
  obtain o1 o2 o3 o4 o5 o6 where
    1: "merge_kind merge_forbidden (AttributeError ''get'') FV e p = Inr o1" and
    2: "merge_kind merge_allowed (TypeError ''in'') AV e o1 = Inr o2" and
    3: "merge_kind merge_starts_with (AttributeError ''get'') SW e o2 = Inr o3" and
    4: "merge_kind merge_max (AttributeError ''get'') MX e o3 = Inr o4" and
    5: "merge_kind merge_min (AttributeError ''get'') MN e o4 = Inr o5" and
    6: "merge_required e o5 = Inr o6" and
    7: "merge_combos e o6 = Inr out"
    using m by (auto simp: merge_raw_def)
  note frames = forbidden_kind.merge_kind_fields(2)[OF 1] allowed_kind.merge_kind_fields(2)[OF 2]
    starts_kind.merge_kind_fields(2)[OF 3] max_kind.merge_kind_fields(2)[OF 4]
    min_kind.merge_kind_fields(2)[OF 5] merge_required_frame[OF 6] merge_combos_frame[OF 7]
  have before: "map_of o1 AV = map_of p AV" "map_of o2 SW = map_of p SW" "map_of o3 MX = map_of p MX"
    "map_of o4 MN = map_of p MN" "map_of o5 RP = map_of p RP" "map_of o6 FC = map_of p FC"
    by (simp_all add: frames)
  have after: "map_of o1 FV = map_of out FV" "map_of o2 AV = map_of out AV" "map_of o3 SW = map_of out SW"
    "map_of o4 MX = map_of out MX" "map_of o5 MN = map_of out MN" "map_of o6 RP = map_of out RP"
    by (simp_all add: frames)
  note cong = before[THEN kind_cong(1)] before[THEN kind_cong(2)] after[THEN kind_cong(1)] after[THEN kind_cong(2)]
    before[THEN kind_cong(3)] before[THEN kind_cong(4)] after[THEN kind_cong(3)] after[THEN kind_cong(4)]
  note sh = p(1)[unfolded shaped_def] out(1)[unfolded shaped_def]
  note ok = out(2)[unfolded permits_def]
  have "all_fields forbidden_ok (fields_of p FV) args"
    using forbidden_kind.merge_kind_narrows[OF 1 e kind_dict_map_of kind_dict_map_of, of args] sh ok by (simp add: cong)
  moreover have "all_fields allowed_ok (fields_of p AV) args"
    using allowed_kind.merge_kind_narrows[OF 2 e kind_dict_map_of kind_dict_map_of, of args] sh ok by (simp add: cong)
  moreover have "all_fields (starts_ok E) (fields_of p SW) args"
    using starts_kind.merge_kind_narrows[OF 3 e _ kind_dict_map_of, of E args] sh ok p(2)
    by (fastforce simp: cong plain_prefixes_def dest: map_of_SomeD)
  moreover have "all_fields max_ok (fields_of p MX) args"
    using max_kind.merge_kind_narrows[OF 4 e kind_dict_map_of kind_dict_map_of, of args] sh ok by (simp add: cong)
  moreover have "all_fields min_ok (fields_of p MN) args"
    using min_kind.merge_kind_narrows[OF 5 e kind_dict_map_of kind_dict_map_of, of args] sh ok by (simp add: cong)
  moreover have "\<forall>fld\<in>set (members p RP). has_key args (str_of fld)"
    using merge_required_grows[OF 6] sh ok by (auto simp: cong)
  moreover have "\<forall>combo\<in>set (members p FC). \<not> (\<forall>fld\<in>set (vals combo). has_key args (str_of fld))"
  proof -
    have sub: "set ` vals ` set (members p FC) \<subseteq> set ` vals ` set (members out FC)"
      using merge_combos_grows[OF 7] sh by (simp add: cong)
    have "\<forall>combo\<in>set (members out FC). \<not> (\<forall>fld\<in>set (vals combo). has_key args (str_of fld))"
      using ok by blast
    then show ?thesis unfolding combos_permit_iff using sub by (meson subsetD)
  qed
  ultimately show ?thesis unfolding permits_def by blast
qed

lemma merge_required_distinct:
  "merge_required e out = Inr out' \<Longrightarrow> dist_fields out \<Longrightarrow>
    dist_fields out'"
  by (auto simp: merge_required_def dist_fields_def fields_of_def split: option.splits if_splits)

lemma merge_combos_distinct:
  "merge_combos e out = Inr out' \<Longrightarrow> dist_fields out \<Longrightarrow>
    dist_fields out'"
  by (auto simp: merge_combos_def dist_fields_def fields_of_def split: option.splits if_splits)

lemmas merge_distinct = forbidden_kind.merge_kind_distinct allowed_kind.merge_kind_distinct
  starts_kind.merge_kind_distinct max_kind.merge_kind_distinct min_kind.merge_kind_distinct
  merge_required_distinct merge_combos_distinct

lemma merge_raw_distinct:
  "merge_raw p e = Inr out \<Longrightarrow> dist_fields p \<Longrightarrow>
    dist_fields out"
  unfolding merge_raw_def rbind_eq_Inr_iff by (elim exE conjE, (drule (1) merge_distinct)+, assumption)

lemma norm_fields_distinct:
  "norm_fields E R (map_of c K) (map_of n K) \<Longrightarrow> distinct (map fst (fields_of c K)) \<Longrightarrow>
    distinct (map fst (fields_of n K))"
  using same_entry_keys by (fastforce simp: norm_fields_def fields_of_def)

lemma normalise_distinct:
  assumes "normalise_constraints E c = Inr n" "dist_fields c"
  shows "distinct (map fst n) \<and> dist_fields n"
proof -
  have R: "norm_rel E c n" and n: "n = assemble (map_of n)" using assms(1) by (auto simp: normalise_iff)
  have "distinct (map fst (fields_of n K))" for K
  proof (cases "K \<in> {FV, AV, SW, MX, MN}")
    case True
    then obtain Q where "norm_fields E Q (map_of c K) (map_of n K)" using R by (auto simp: norm_rel_def)
    then show ?thesis using norm_fields_distinct assms(2) unfolding dist_fields_def by blast
  next
    case False
    then have "K \<in> {RP, FC} \<or> K \<notin> KNOWN_CONSTRAINT_KEYS" by (auto simp: known_keys_eq)
    moreover have "map_of n K = None" if "K \<notin> KNOWN_CONSTRAINT_KEYS" using n that by (metis map_of_assemble)
    moreover have "fields_of n RP = []" "fields_of n FC = []"
      using R by (auto simp: norm_rel_def norm_required_def norm_combos_def sorted_names_def fields_of_def)
    ultimately show ?thesis by (auto simp: fields_of_def)
  qed
  then show ?thesis using distinct_assemble[of "map_of n"] n by (simp add: dist_fields_def)
qed

lemma merge_narrows:
  assumes "merge_narrowing E p e = Inr m" "wf_val (PDict e)" "shaped p" "plain_prefixes p" "permits E m args"
  shows "permits E p args"
proof -
  obtain out where out: "merge_raw p e = Inr out" "normalise_constraints E out = Inr m"
    using assms(1) by (auto simp: merge_narrowing_def)
  have "permits E out args" using normalise_permits[OF out(2)] assms(5) by simp
  with out assms(2-4) show ?thesis using merge_raw_narrows normalise_shaped(1) by blast
qed

end
