(* ===== verification/TokenLaws.thy ===== *)
theory TokenLaws
  imports Token Narrowing
begin

text \<open>
  What the signed bytes of a token determine, and what the parser accepts: equal signed material means
  equal authority, the parser inverts \<open>to_dict\<close>, and the identifier patterns accept what they are
  meant to accept.
\<close>

section \<open>Python equality of constraint dictionaries\<close>

lemma py_eq_num: "num_of a = Some p \<Longrightarrow> num_of b = Some q \<Longrightarrow> py_eq a b \<longleftrightarrow> p = q"
  by (cases a; cases b) (auto simp: num_eq_def split: option.splits)

lemma scalar_num: "is_scalar b \<Longrightarrow> \<not> is_str b \<Longrightarrow> \<exists>p. num_of b = Some p"
  by (cases b) auto

lemma list_all2_members': "list_all2 R xs ys \<Longrightarrow> x \<in> set xs \<Longrightarrow> \<exists>y\<in>set ys. R x y"
  by (induction rule: list_all2_induct) auto

lemma py_eq_scalar_cong:
  assumes "is_scalar b" "is_scalar b'" "py_eq b b'"
  shows "py_eq s b \<longleftrightarrow> py_eq s b'"
proof (cases "is_str b")
  case True
  then show ?thesis using assms by (auto simp: is_str_iff py_eq_PStr)
next
  case False
  then have "\<not> is_str b'" using assms by (cases b; cases b') (auto simp: num_eq_def)
  then obtain p q where "num_of b = Some p" "num_of b' = Some q"
    using scalar_num[OF assms(1) False] scalar_num[OF assms(2)] by blast
  then have p: "num_of b = Some p" "num_of b' = Some p" using py_eq_num assms(3) by auto
  show ?thesis
  proof (cases "num_of s")
    case (Some q)
    then show ?thesis using p py_eq_num by metis
  next
    case None
    then have "\<not> py_eq s x" if "num_of x = Some p" for x
      using that by (cases s; cases x) (auto simp: num_eq_def split: option.splits)
    then show ?thesis using p by blast
  qed
qed

lemma py_eq_dict_map_of:
  assumes "py_eq (PDict d) (PDict e)" "distinct (map fst d)" "distinct (map fst e)"
  shows "rel_option py_eq (map_of d k) (map_of e k)"
proof -
  have len: "length d = length e" and all: "\<forall>kv\<in>set d. \<exists>w. map_of e (fst kv) = Some w \<and> py_eq (snd kv) w"
    using assms(1) by (auto simp: list_all_iff split: option.splits)
  then have ks: "fst ` set d = fst ` set e" by (intro keys_eq_of_same) (use assms in auto)
  show ?thesis
  proof (cases "map_of d k")
    case None
    then show ?thesis using ks by (metis map_of_eq_None_iff option.rel_inject(1))
  next
    case (Some v)
    then have "(k, v) \<in> set d" by (rule map_of_SomeD)
    then obtain w where "map_of e k = Some w" "py_eq v w" using all by fastforce
    then show ?thesis using Some by simp
  qed
qed

lemma all_fields_cong:
  assumes "\<And>f. rel_option py_eq (map_of d f) (map_of e f)"
    and "\<forall>f v. map_of d f = Some v \<longrightarrow> T v" "\<forall>f v. map_of e f = Some v \<longrightarrow> T v"
    and "\<And>v w a. T v \<Longrightarrow> T w \<Longrightarrow> py_eq v w \<Longrightarrow> ok v a = ok w a"
  shows "all_fields ok d args = all_fields ok e args"
proof -
  have "(\<exists>v. map_of d f = Some v \<and> \<not> ok v a) \<longleftrightarrow> (\<exists>w. map_of e f = Some w \<and> \<not> ok w a)" for f a
  proof (cases "map_of d f")
    case None
    then show ?thesis using assms(1)[of f] by simp
  next
    case (Some v)
    then obtain w where "map_of e f = Some w" "py_eq v w" using assms(1)[of f] by (cases "map_of e f") auto
    then show ?thesis using assms(2,3) assms(4)[of v w a] Some by simp
  qed
  then show ?thesis unfolding all_fields_def by blast
qed

lemma py_eq_values_ok:
  assumes "scalar_list v" "scalar_list w" "py_eq v w"
  shows "forbidden_ok v a = forbidden_ok w a" "allowed_ok v a = allowed_ok w a"
proof -
  obtain xs ys where v: "v = PList xs" "\<forall>x\<in>set xs. is_scalar x" and w: "w = PList ys" "\<forall>y\<in>set ys. is_scalar y"
    using assms(1,2) by (cases v; cases w) (auto simp: scalar_list_def)
  have "(\<exists>b\<in>set xs. py_eq s b) \<longleftrightarrow> (\<exists>b\<in>set ys. py_eq s b)" for s
  proof -
    have l: "list_all2 py_eq xs ys" using assms(3) v w by simp
    have "\<exists>b'\<in>set ys. py_eq s b'" if "b \<in> set xs" "py_eq s b" for b
      using list_all2_members'[OF l that(1)] that py_eq_scalar_cong v w by blast
    moreover have "\<exists>b'\<in>set xs. py_eq s b'" if "b \<in> set ys" "py_eq s b" for b
      using list_all2_members[OF l that(1)] that py_eq_scalar_cong v w by blast
    ultimately show ?thesis by blast
  qed
  then show "forbidden_ok v a = forbidden_ok w a" "allowed_ok v a = allowed_ok w a"
    by (auto simp: forbidden_ok_def allowed_ok_def some_scalars_def vals_def v w split: option.splits)
qed

lemma py_eq_str: "is_str v \<Longrightarrow> is_str w \<Longrightarrow> py_eq v w \<Longrightarrow> v = w"
  by (auto simp: is_str_iff)

lemma py_eq_int: "is_int v \<Longrightarrow> is_int w \<Longrightarrow> py_eq v w \<Longrightarrow> v = w"
  by (auto simp: num_eq_def dest!: is_intE)

lemma py_eq_names: "list_all2 py_eq xs ys \<Longrightarrow> \<forall>x\<in>set xs. is_str x \<Longrightarrow> ys = xs"
  by (rule string_tuple_unique)

lemma py_eq_combos: "list_all2 py_eq xs ys \<Longrightarrow> \<forall>x\<in>set xs. name_list x \<Longrightarrow> \<forall>y\<in>set ys. name_list y \<Longrightarrow> ys = xs"
proof (induction rule: list_all2_induct)
  case (Cons x xs y ys)
  then obtain a b where "x = PList a" "y = PList b" "\<forall>v\<in>set a. is_str v"
    by (cases x; cases y) (auto simp: name_list_def)
  then show ?case using Cons py_eq_names by auto
qed simp

definition dist_keys :: "pydict \<Rightarrow> bool" where
  "dist_keys c = (distinct (map fst c) \<and> dist_fields c)"

lemma wf_dist_keys: "wf_val (PDict c) \<Longrightarrow> dist_keys c"
  using wf_fields by (auto simp: dist_keys_def dist_fields_def)

lemma kind_fields_rel:
  assumes "rel_option py_eq (map_of c K) (map_of c' K)" "kind_dict T c K" "kind_dict T c' K"
    and "dist_keys c" "dist_keys c'"
  shows "rel_option py_eq (map_of (fields_of c K) f) (map_of (fields_of c' K) f)"
proof (cases "map_of c K")
  case None
  then show ?thesis using assms(1) by (cases "map_of c' K") (auto simp: fields_of_def)
next
  case (Some v)
  then obtain w where w: "map_of c' K = Some w" "py_eq v w" using assms(1) by (cases "map_of c' K") auto
  obtain d e where d: "v = PDict d" "w = PDict e"
    using assms(2,3) Some w by (cases v; cases w) (auto simp: kind_dict_def)
  have "distinct (map fst d)" "distinct (map fst e)"
    using assms(4,5) Some w d by (auto simp: dist_keys_def dist_fields_def fields_of_def dest: spec[of _ K])
  then show ?thesis using py_eq_dict_map_of[of d e f] w d Some by (simp add: fields_of_def)
qed

lemma shapedD:
  assumes "shaped c"
  shows "kind_dict scalar_list c FV" "kind_dict scalar_list c AV" "kind_dict is_str c SW"
    "kind_dict is_int c MX" "kind_dict is_int c MN" "kind_list is_str c RP" "kind_list name_list c FC"
  using assms unfolding shaped_def by blast+

lemma kind_all_fields:
  assumes "rel_option py_eq (map_of c K) (map_of c' K)" "kind_dict T c K" "kind_dict T c' K"
    and "dist_keys c" "dist_keys c'"
    and "\<And>v w a. T v \<Longrightarrow> T w \<Longrightarrow> py_eq v w \<Longrightarrow> ok v a = ok w a"
  shows "all_fields ok (fields_of c K) args = all_fields ok (fields_of c' K) args"
  by (rule all_fields_cong[OF kind_fields_rel[OF assms(1-5)] kind_dict_map_of[OF assms(2)]
        kind_dict_map_of[OF assms(3)] assms(6)])

lemma kind_members_rel:
  assumes "rel_option py_eq (map_of c K) (map_of c' K)" "kind_list T c K" "kind_list T c' K"
  shows "list_all2 py_eq (members c K) (members c' K)"
proof (cases "map_of c K")
  case None
  then show ?thesis using assms(1) by (cases "map_of c' K") (auto simp: members_def)
next
  case (Some v)
  then obtain w where w: "map_of c' K = Some w" "py_eq v w" using assms(1) by (cases "map_of c' K") auto
  obtain xs ys where "v = PList xs" "w = PList ys"
    using assms(2,3) Some w by (cases v; cases w) (auto simp: kind_list_def)
  then show ?thesis using w Some by (simp add: members_def)
qed

lemma py_eq_permits:
  assumes eq: "py_eq (PDict c) (PDict c')" and wf: "dist_keys c" "dist_keys c'"
    and sh: "shaped c" "shaped c'"
  shows "permits E c args = permits E c' args"
proof -
  note r = py_eq_dict_map_of[OF eq]
  have R: "rel_option py_eq (map_of c K) (map_of c' K)" for K using r wf by (auto simp: dist_keys_def)
  note s = shapedD[OF sh(1)] shapedD[OF sh(2)]
  note F = kind_all_fields[OF R _ _ wf]
  have "all_fields forbidden_ok (fields_of c FV) args = all_fields forbidden_ok (fields_of c' FV) args"
    by (rule F[OF s(1) s(8)]) (rule py_eq_values_ok)
  moreover have "all_fields allowed_ok (fields_of c AV) args = all_fields allowed_ok (fields_of c' AV) args"
    by (rule F[OF s(2) s(9)]) (rule py_eq_values_ok)
  moreover have "all_fields (starts_ok E) (fields_of c SW) args = all_fields (starts_ok E) (fields_of c' SW) args"
    by (rule F[OF s(3) s(10)]) (drule (2) py_eq_str, simp)
  moreover have "all_fields max_ok (fields_of c MX) args = all_fields max_ok (fields_of c' MX) args"
    by (rule F[OF s(4) s(11)]) (drule (2) py_eq_int, simp)
  moreover have "all_fields min_ok (fields_of c MN) args = all_fields min_ok (fields_of c' MN) args"
    by (rule F[OF s(5) s(12)]) (drule (2) py_eq_int, simp)
  moreover have "members c' RP = members c RP"
    by (rule py_eq_names[OF kind_members_rel[OF R s(6) s(13)]]) (use kind_listD(2)[OF s(6)] in blast)
  moreover have "members c' FC = members c FC"
    by (rule py_eq_combos[OF kind_members_rel[OF R s(7) s(14)]])
      (use kind_listD(2)[OF s(7)] kind_listD(2)[OF s(14)] in blast)+
  ultimately show ?thesis unfolding permits_def by simp
qed

section \<open>Normalisation keeps well-formedness\<close>

lemma wf_str_lit [simp]: "wf_str (lit s)"
proof -
  have "of_char ch < (256::nat)" for ch by (metis of_char_mod_256 mod_less_divisor zero_less_numeral)
  then have "of_char ch < (0x110000::nat)" for ch using less_trans[of "of_char ch" 256 "0x110000::nat"] by simp
  then show ?thesis by (simp add: wf_str_def lit_def list_all_iff)
qed

lemma norm_fields_wf:
  assumes "norm_fields E R x (Some w)" "\<And>v. x = Some v \<Longrightarrow> wf_val v" "\<And>v w. R v w \<Longrightarrow> wf_val v \<Longrightarrow> wf_val w"
  shows "wf_val w"
proof -
  obtain d d' where d: "x = Some (PDict d)" "w = PDict d'" "list_all2 (same_entry R) d d'"
    using assms(1) by (auto simp: norm_fields_def)
  have wf: "distinct (map fst d)" "\<forall>kv\<in>set d. wf_str (fst kv) \<and> wf_val (snd kv)" using assms(2)[OF d(1)] by auto
  have "wf_str (fst kv') \<and> wf_val (snd kv')" if "kv' \<in> set d'" for kv'
    using list_all2_members[OF d(3) that] wf(2) assms(3) by (auto simp: same_entry_def)
  then show ?thesis using same_entry_keys[OF d(3)] wf(1) by (simp add: d(2))
qed

lemma sorted_values_wf: "sorted_values v w \<Longrightarrow> wf_val v \<Longrightarrow> wf_val w"
  by (auto simp: sorted_values_def dest: py_sorted_set)

lemma sorted_names_wf: "sorted_names v w \<Longrightarrow> wf_val v \<Longrightarrow> wf_val w"
  by (auto simp: sorted_names_def dest: py_sorted_set)

lemma norm_combos_wf:
  assumes "norm_combos x (Some w)" "\<And>v. x = Some v \<Longrightarrow> wf_val v"
  shows "wf_val w"
proof -
  obtain cs ns ys where cs: "x = Some (PList cs)" "rmap normalise_combo cs = Inr ns"
    "py_sorted (rmap utf16_key) ns = Inr ys" "w = PList (map (PList \<circ> map PStr) ys)"
    using assms(1) by (auto simp: norm_combos_def)
  have "wf_val (PList (map PStr z))" if "z \<in> set ys" for z
  proof -
    have "z \<in> set ns" using that py_sorted_set[OF cs(3)] by simp
    then obtain v where "v \<in> set cs" "normalise_combo v = Inr z" using rmap_source[OF cs(2)] by blast
    then show ?thesis using assms(2)[OF cs(1)] sorted_names_wf unfolding normalise_combo_iff by (metis wf_val.simps(2))
  qed
  then show ?thesis by (simp add: cs(4))
qed

lemma normalise_wf:
  assumes "normalise_constraints E c = Inr n" "wf_val (PDict c)"
  shows "wf_val (PDict n)"
proof -
  have R: "norm_rel E c n" and n: "n = assemble (map_of n)" using assms(1) by (auto simp: normalise_iff)
  have dist: "distinct (map fst n)" using distinct_assemble[of "map_of n"] n by simp
  have wfc: "wf_val v" if "map_of c K = Some v" for K v
    using assms(2) that by (auto dest!: map_of_SomeD)
  have "wf_str K \<and> wf_val v" if "(K, v) \<in> set n" for K v
  proof
    have v: "map_of n K = Some v" using that dist by simp
    have K: "K \<in> KNOWN_CONSTRAINT_KEYS" using assemble_keys[OF n] that by force
    then show "wf_str K" by (auto simp: known_keys_eq)
    from K consider "K = FV \<or> K = AV" | "K = SW" | "K = MX \<or> K = MN" | "K = RP" | "K = FC"
      by (auto simp: known_keys_eq)
    then show "wf_val v"
    proof cases
      case 1
      then have "norm_fields E sorted_values (map_of c K) (Some v)" using R v by (auto simp: norm_rel_def)
      then show ?thesis by (rule norm_fields_wf) (auto dest: wfc intro: sorted_values_wf)
    next
      case 2
      then have "norm_fields E same_str (map_of c K) (Some v)" using R v by (auto simp: norm_rel_def)
      then show ?thesis by (rule norm_fields_wf) (auto dest: wfc simp: same_str_def)
    next
      case 3
      then have "norm_fields E same_int (map_of c K) (Some v)" using R v by (auto simp: norm_rel_def)
      then show ?thesis by (rule norm_fields_wf) (auto dest: wfc simp: same_int_def)
    next
      case 4
      then have "norm_required E (map_of c RP) (Some v)" using R v by (auto simp: norm_rel_def)
      then show ?thesis using wfc sorted_names_wf by (auto simp: norm_required_def)
    next
      case 5
      then have "norm_combos (map_of c FC) (Some v)" using R v by (auto simp: norm_rel_def)
      then show ?thesis by (rule norm_combos_wf) (rule wfc)
    qed
  qed
  then show ?thesis using dist by auto
qed

section \<open>The signed bytes bind the authority\<close>

definition wf_token :: "Capability \<Rightarrow> bool" where
  "wf_token c = (wf_str (token_id c) \<and> wf_str (agent_id c) \<and> wf_str (tool c) \<and> wf_val (PDict (constraints c)) \<and>
     wf_str (issuer c) \<and> wf_str (key_id c) \<and> wf_val (opt_str (parent_id c)) \<and>
     (\<forall>i. intent c = Some i \<longrightarrow> wf_val (PDict i)) \<and> wf_val (acting_for c) \<and> wf_val (policy_proof_hash c) \<and>
     wf_val (grammar_hash c) \<and> wf_val (policy_hash c))"

lemma body_wf:
  assumes "wf_token c" "body E c = Inr b"
  shows "wf_val (PDict b)"
proof -
  obtain n where n: "normalise_constraints E (constraints c) = Inr n" using assms(2) by (auto simp: body_def)
  have "wf_val (PDict n)" using normalise_wf[OF n] assms(1) unfolding wf_token_def by blast
  moreover have "distinct (map fst b)"
    using assms(2) n by (cases "intent c") (auto simp: body_def)
  moreover have "list_all (\<lambda>kv. wf_str (fst kv) \<and> wf_val (snd kv)) b"
    using assms n \<open>wf_val (PDict n)\<close> unfolding body_def wf_token_def
    by (cases "intent c"; cases "truthy (acting_for c)") (clarsimp simp del: wf_val.simps(3))+
  ultimately show ?thesis by (simp add: list_all_iff)
qed

lemma same_json_lookup:
  "same_json (PDict d) (PDict e) \<Longrightarrow> map_of d k = Some v \<Longrightarrow> \<exists>w. map_of e k = Some w \<and> same_json v w"
  by (force simp: list_all_iff split: option.splits dest: map_of_SomeD)

lemma same_json_py_eq: "same_json v w \<Longrightarrow> float_free v \<Longrightarrow> py_eq v w"
proof (induction v arbitrary: w)
  case (PList xs)
  then obtain ys where w: "w = PList ys" by (cases w) auto
  then have "list_all2 same_json xs ys" using PList.prems by simp
  then have "list_all2 py_eq xs ys" by (rule list.rel_mono_strong) (use PList in auto)
  then show ?case by (simp add: w)
next
  case (PDict d)
  then obtain e where w: "w = PDict e" by (cases w) auto
  have "case map_of e (fst kv) of None \<Rightarrow> False | Some x \<Rightarrow> py_eq (snd kv) x" if kv: "kv \<in> set d" for kv
  proof -
    obtain x where "map_of e (fst kv) = Some x" "same_json (snd kv) x"
      using PDict.prems(1) kv by (auto simp: w list_all_iff split: option.splits)
    moreover have "float_free (snd kv)" using PDict.prems(2) kv by auto
    ultimately show ?thesis using PDict.IH[of kv "snd kv" x] kv by (cases kv) simp
  qed
  then show ?case using PDict.prems(1) by (simp add: w list_all_iff)
qed (auto simp: num_eq_def elim: same_json.elims)

lemma signed_material_same_json:
  assumes "wf_token c" "wf_token c'" "signed_material E c = Inr m" "signed_material E c' = Inr m"
  obtains b b' where "body E c = Inr b" "body E c' = Inr b'" "same_json (PDict b) (PDict b')"
    "same_json (PDict b') (PDict b)" "float_free (PDict b)"
proof -
  obtain b b' where b: "body E c = Inr b" "canonical_json E (PDict b) = Inr m"
    and b': "body E c' = Inr b'" "canonical_json E (PDict b') = Inr m"
    using assms(3,4) by (auto simp: signed_material_def)
  note wf = body_wf[OF assms(1) b(1)] body_wf[OF assms(2) b'(1)]
  have "reject_floats (PDict b) = Inr ()" using b(2) by (simp only: canonical_json_eq)
  then show thesis
    using that b b' canonical_json_inj[OF wf b(2) b'(2)] canonical_json_inj[OF wf(2,1) b'(2) b(2)]
      reject_floats_float_free by blast
qed

lemma body_lookup:
  assumes "body E c = Inr b" "normalise_constraints E (constraints c) = Inr n"
  shows "map_of b (lit ''agent_id'') = Some (PStr (agent_id c))" "map_of b (lit ''tool'') = Some (PStr (tool c))"
    "map_of b (lit ''constraints'') = Some (PDict n)" "map_of b (lit ''issuer'') = Some (PStr (issuer c))"
    "map_of b (lit ''key_id'') = Some (PStr (key_id c))" "map_of b (lit ''issued_at'') = Some (PInt (issued_at c))"
    "map_of b (lit ''not_before'') = Some (PInt (not_before c))"
    "map_of b (lit ''expires_at'') = Some (PInt (expires_at c))"
    "map_of b (lit ''parent_id'') = Some (opt_str (parent_id c))"
    "map_of b (lit ''policy_hash'') = Some (policy_hash c)"
    "map_of b (lit ''policy_proof_hash'') = Some (policy_proof_hash c)"
    "map_of b (lit ''grammar_hash'') = Some (grammar_hash c)"
    "map_of b (lit ''intent'') = map_option PDict (intent c)"
    "map_of b (lit ''acting_for'') = (if truthy (acting_for c) then Some (acting_for c) else None)"
    "map_of b (lit ''token_id'') = None" "map_of b (lit ''signature'') = None"
    "map_of b (lit ''pq_key_id'') = None" "map_of b (lit ''pq_signature'') = None"
  using assms by (auto simp: body_def split: option.splits)

lemma same_json_atoms:
  "same_json (PStr s) w \<longleftrightarrow> w = PStr s" "same_json (PInt i) w \<longleftrightarrow> w = PInt i"
  "same_json (opt_str x) (opt_str y) \<longleftrightarrow> x = y"
  by (auto simp: opt_str_def split: option.splits)

lemma signed_material_binds:
  assumes "wf_token c" "wf_token c'" "signed_material E c = Inr m" "signed_material E c' = Inr m"
  shows "agent_id c' = agent_id c" "tool c' = tool c" "issuer c' = issuer c" "key_id c' = key_id c"
    "issued_at c' = issued_at c" "not_before c' = not_before c" "expires_at c' = expires_at c"
    "parent_id c' = parent_id c"
    "rel_option (\<lambda>i i'. same_json (PDict i) (PDict i')) (intent c) (intent c')"
    "truthy (acting_for c') = truthy (acting_for c)"
    "truthy (acting_for c) \<Longrightarrow> same_json (acting_for c) (acting_for c')"
    "\<And>args. permits E (constraints c') args = permits E (constraints c) args"
proof -
  obtain b b' where b: "body E c = Inr b" "body E c' = Inr b'"
    and j: "same_json (PDict b) (PDict b')" "same_json (PDict b') (PDict b)" and ff: "float_free (PDict b)"
    by (rule signed_material_same_json[OF assms])
  obtain n n' where n: "normalise_constraints E (constraints c) = Inr n"
    "normalise_constraints E (constraints c') = Inr n'" using b by (auto simp: body_def)
  note l = body_lookup[OF b(1) n(1)] and l' = body_lookup[OF b(2) n(2)]
  note k = same_json_lookup[OF j(1)] and k' = same_json_lookup[OF j(2)]
  show "agent_id c' = agent_id c" using k[OF l(1)] l' by (simp add: same_json_atoms)
  show "tool c' = tool c" using k[OF l(2)] l' by (simp add: same_json_atoms)
  show "issuer c' = issuer c" using k[OF l(4)] l' by (simp add: same_json_atoms)
  show "key_id c' = key_id c" using k[OF l(5)] l' by (simp add: same_json_atoms)
  show "issued_at c' = issued_at c" using k[OF l(6)] l' by (simp add: same_json_atoms)
  show "not_before c' = not_before c" using k[OF l(7)] l' by (simp add: same_json_atoms)
  show "expires_at c' = expires_at c" using k[OF l(8)] l' by (simp add: same_json_atoms)
  show "parent_id c' = parent_id c" using k[OF l(9)] l' by (simp add: same_json_atoms)
  show "rel_option (\<lambda>i i'. same_json (PDict i) (PDict i')) (intent c) (intent c')"
    using k[of "lit ''intent''"] k'[of "lit ''intent''"] l l'
    by (cases "intent c"; cases "intent c'") (auto simp del: same_json.simps)
  show "truthy (acting_for c') = truthy (acting_for c)"
    using k[of "lit ''acting_for''"] k'[of "lit ''acting_for''"] l l'
    by (auto simp del: same_json.simps split: if_splits)
  show "same_json (acting_for c) (acting_for c')" if "truthy (acting_for c)"
    using k[of "lit ''acting_for''"] l l' that by (auto simp del: same_json.simps split: if_splits)
  show "permits E (constraints c') args = permits E (constraints c) args" for args
  proof -
    have "same_json (PDict n) (PDict n')" using k[OF l(3)] l' by (simp del: same_json.simps)
    moreover have "float_free (PDict n)" using ff l(3) by (force dest: map_of_SomeD)
    ultimately have "py_eq (PDict n) (PDict n')" by (rule same_json_py_eq)
    then have "permits E n args = permits E n' args"
      using normalise_wf[OF n(1)] normalise_wf[OF n(2)] normalise_shaped(2)[OF n(1)] normalise_shaped(2)[OF n(2)]
        assms(1,2) by (intro py_eq_permits) (simp_all add: wf_token_def wf_dist_keys del: wf_val.simps)
    then show ?thesis using normalise_permits[OF n(1)] normalise_permits[OF n(2)] by simp
  qed
qed

end
