(* ===== verification/Parse.thy ===== *)
theory Parse
  imports TokenLaws
begin

text \<open>
  The parse boundary: what \<open>from_dict\<close> accepts, that it inverts \<open>to_dict\<close>, and the language of the
  identifier patterns.
\<close>

section \<open>Accepted tokens\<close>

definition parsed_ok :: "Capability \<Rightarrow> bool" where
  "parsed_ok c = (token_id c \<noteq> [] \<and> agent_id c \<noteq> [] \<and> tool c \<noteq> [] \<and> issuer c \<noteq> [] \<and> key_id c \<noteq> [] \<and>
     re_match AGENT_ID_RE (agent_id c) \<and> re_match TOOL_RE (tool c) \<and> parent_id c \<noteq> Some [] \<and>
     (\<forall>i. intent c = Some i \<longrightarrow> check_intent_block i = Inr ()) \<and>
     (truthy (acting_for c) \<longrightarrow> validate_principal (acting_for c) = Inr ()))"

lemma require_token_str_field_iff:
  "require_token_str_field d k = Inr s \<longleftrightarrow> map_of d (lit k) = Some (PStr s) \<and> s \<noteq> []"
  by (auto simp: require_token_str_field_def dict_get_def split: option.splits pyval.splits)

lemma parse_iffs:
  "parse_constraints d = Inr c \<longleftrightarrow> map_of d (lit ''constraints'') = Some (PDict c)"
  "parse_signature d = Inr s \<longleftrightarrow> map_of d (lit ''signature'') = Some (PStr s)"
  "parse_timestamp d k = Inr i \<longleftrightarrow> map_of d (lit k) = Some (PInt i)"
  by (auto simp: parse_constraints_def parse_signature_def parse_timestamp_def dict_get_def
      split: option.splits pyval.splits)

lemma parse_token_parent_id_iff:
  "parse_token_parent_id d = Inr x \<longleftrightarrow> get_or_none d ''parent_id'' = opt_str x \<and> x \<noteq> Some []"
  by (cases x) (auto simp: parse_token_parent_id_def opt_str_def split: pyval.splits)

lemma parse_token_intent_iff:
  "parse_token_intent d = Inr x \<longleftrightarrow> (case x of None \<Rightarrow> get_or_none d ''intent'' = PNone
     | Some i \<Rightarrow> get_or_none d ''intent'' = PDict i \<and> check_intent_block i = Inr ())"
  by (auto simp: parse_token_intent_def split: pyval.splits option.splits)

lemma parse_token_acting_for_iff:
  "parse_token_acting_for d = Inr a \<longleftrightarrow> a = dict_get d (lit ''acting_for'') (PStr []) \<and>
     (truthy a \<longrightarrow> validate_principal a = Inr ())"
  by (auto simp: parse_token_acting_for_def Let_def)

lemma from_dict_ok: "from_dict v = Inr c \<Longrightarrow> parsed_ok c"
proof (cases v)
  case (PDict d)
  assume "from_dict v = Inr c"
  then show ?thesis
    unfolding from_dict_def PDict pyval.case rbind_eq_Inr_iff
    by (elim exE conjE)
      (clarsimp simp: parsed_ok_def require_token_str_field_iff validate_agent_id_def validate_tool_def
        parse_token_parent_id_iff parse_token_intent_iff parse_token_acting_for_iff)
qed (simp_all add: from_dict_def)

text \<open>What a serialised token parses back to.\<close>

definition reparsed :: "Capability \<Rightarrow> pydict \<Rightarrow> Capability" where
  "reparsed c n = c\<lparr>constraints := n,
     acting_for := (if truthy (acting_for c) then acting_for c else PStr []),
     pq_signature := (if pq_key_id c = PNone then PNone
       else if truthy (pq_signature c) then pq_signature c else PStr [])\<rparr>"

lemma to_dict_lookup:
  assumes "to_dict E c = Inr d" "body E c = Inr b"
  shows "map_of b k = Some v \<Longrightarrow> map_of d k = Some v"
    and "map_of b k = None \<Longrightarrow> map_of d k =
      (if k = lit ''token_id'' then Some (PStr (token_id c))
       else if k = lit ''signature'' then Some (PStr (signature c))
       else if pq_key_id c = PNone then None
       else if k = lit ''pq_key_id'' then Some (pq_key_id c)
       else if k = lit ''pq_signature'' then Some (if truthy (pq_signature c) then pq_signature c else PStr [])
       else None)"
  using assms by (auto simp: to_dict_def map_add_def)

lemma from_dict_to_dict:
  assumes "parsed_ok c" "to_dict E c = Inr d" "normalise_constraints E (constraints c) = Inr n"
  shows "from_dict (PDict d) = Inr (reparsed c n)"
proof -
  obtain b where b: "body E c = Inr b" using assms(2) by (auto simp: to_dict_def)
  note bl = body_lookup[OF b assms(3)]
  note some = to_dict_lookup(1)[OF assms(2) b] and none = to_dict_lookup(2)[OF assms(2) b]
  note l = bl(1-12)[THEN some] none[OF bl(15)] none[OF bl(16)] none[OF bl(17)] none[OF bl(18)]
  have i: "map_of d (lit ''intent'') = map_option PDict (intent c)"
    using bl(13) some none by (cases "intent c") auto
  have a: "map_of d (lit ''acting_for'') = (if truthy (acting_for c) then Some (acting_for c) else None)"
    using bl(14) some none by (cases "truthy (acting_for c)") auto
  have p: "require_token_str_field d ''token_id'' = Inr (token_id c)"
    "require_token_str_field d ''agent_id'' = Inr (agent_id c)" "require_token_str_field d ''tool'' = Inr (tool c)"
    "require_token_str_field d ''issuer'' = Inr (issuer c)" "require_token_str_field d ''key_id'' = Inr (key_id c)"
    "validate_agent_id (agent_id c) = Inr ()" "validate_tool (tool c) = Inr ()" "parse_constraints d = Inr n"
    "parse_signature d = Inr (signature c)"
    "parse_token_timestamps d = Inr (issued_at c, not_before c, expires_at c)"
    "parse_token_parent_id d = Inr (parent_id c)"
    using assms(1) l by (simp_all add: require_token_str_field_iff validate_agent_id_def validate_tool_def
        parse_iffs parse_token_timestamps_def parse_token_parent_id_iff dict_get_def parsed_ok_def)
  have "parse_token_intent d = Inr (intent c)"
    using assms(1) i by (cases "intent c") (auto simp: parse_token_intent_iff dict_get_def parsed_ok_def)
  moreover have "parse_token_acting_for d = Inr (if truthy (acting_for c) then acting_for c else PStr [])"
    using assms(1) a by (auto simp: parse_token_acting_for_iff dict_get_def parsed_ok_def)
  ultimately show ?thesis
    using l by (auto simp: from_dict_def p reparsed_def dict_get_def)
qed

lemma reparsed_body:
  assumes "normalise_constraints E (constraints c) = Inr n"
  shows "body E (reparsed c n) = body E c"
  using normalise_idem[OF assms] assms by (simp add: body_def reparsed_def)

section \<open>The language of agent identifiers\<close>

lemma upto_rest_numeral:
  "upto_rest f (numeral k) s = s # concat (map (upto_rest f (pred_numeral k)) (f s))"
  by (simp add: numeral_eq_Suc)

lemma upto_restE:
  assumes "u \<in> set (upto_rest f n s)" "\<And>s u. u \<in> set (f s) \<Longrightarrow> \<exists>c. s = c # u \<and> Q c u"
  shows "\<exists>w. s = w @ u \<and> length w \<le> n \<and> (\<forall>i<length w. Q (w ! i) (drop (Suc i) w @ u))"
  using assms(1)
proof (induction n arbitrary: s)
  case (Suc n)
  show ?case
  proof (cases "u = s")
    case False
    then obtain t where t: "t \<in> set (f s)" "u \<in> set (upto_rest f n t)" using Suc.prems by auto
    obtain c where c: "s = c # t" "Q c t" using assms(2)[OF t(1)] by blast
    obtain w where w: "t = w @ u" "length w \<le> n" "\<forall>i<length w. Q (w ! i) (drop (Suc i) w @ u)"
      using Suc.IH[OF t(2)] by blast
    have "\<forall>i<length (c # w). Q ((c # w) ! i) (drop (Suc i) (c # w) @ u)"
      using c w by (auto simp: less_Suc_eq_0_disj)
    then show ?thesis using c w by (intro exI[of _ "c # w"]) auto
  qed auto
qed auto

text \<open>A tail: dots only before an alphanumeric.\<close>

definition id_interior :: "nat \<Rightarrow> ustr \<Rightarrow> bool" where
  "id_interior c rest = (lower_alnum c \<or> c = 95 \<or> c = 45 \<or>
     c = 46 \<and> (\<exists>d r. rest = d # r \<and> lower_alnum d))"

lemma id_tail_language:
  assumes "re_match id_tail_rx s"
  shows "\<exists>c t nl. s = c # t @ nl \<and> lower_alnum c \<and> (nl = [] \<or> nl = [10]) \<and> length t \<le> 127 \<and>
     (\<forall>i<length t. id_interior (t ! i) (drop (Suc i) t @ nl))"
proof -
  let ?int = "rx_rest (Alt (Cls (\<lambda>c. lower_alnum c \<or> c = 95 \<or> c = 45))
                         (Cat (Cls (\<lambda>c. c = 46)) (Ahead (Cls lower_alnum))))"
  obtain c r u nl where s: "s = c # r" "lower_alnum c" and u: "u \<in> set (upto_rest ?int 126 r)"
    and nl: "nl \<in> set (upto_rest (rx_rest (Cls lower_alnum)) 1 u)" "nl = [] \<or> nl = [10]"
    using assms by (cases s) (auto simp: re_match_def id_tail_rx_def split: if_splits simp del: upto_rest.simps)
  have "\<exists>c. s = c # u \<and> id_interior c u" if "u \<in> set (?int s)" for s u
    using that by (cases s; cases u) (auto simp: id_interior_def split: if_splits list.splits)
  from upto_restE[OF u this] obtain w where w: "r = w @ u" "length w \<le> 126"
    "\<forall>i<length w. id_interior (w ! i) (drop (Suc i) w @ u)" by blast
  have "\<exists>c. s = c # u \<and> lower_alnum c" if "u \<in> set (rx_rest (Cls lower_alnum) s)" for s u
    using that by (cases s) (auto split: if_splits)
  from upto_restE[OF nl(1) this] obtain e where e: "u = e @ nl" "length e \<le> 1"
    "\<forall>i<length e. lower_alnum (e ! i)" by blast
  have "id_interior ((w @ e) ! i) (drop (Suc i) (w @ e) @ nl)" if "i < length (w @ e)" for i
  proof (cases "i < length w")
    case True
    then show ?thesis using w(3) e(1) by (simp add: nth_append)
  next
    case False
    then show ?thesis using e(3) that by (simp add: nth_append id_interior_def)
  qed
  then show ?thesis using s w e nl(2) by (intro exI[of _ c] exI[of _ "w @ e"] exI[of _ nl]) auto
qed

lemma agent_id_language:
  "re_match AGENT_ID_RE s \<Longrightarrow> \<exists>r. s = lit ''agent:'' @ r \<and> re_match id_tail_rx r"
proof -
  assume "re_match AGENT_ID_RE s"
  then obtain t u where "t \<in> set (rx_rest (word_rx (lit ''agent:'')) s)" "u \<in> set (rx_rest id_tail_rx t)"
    unfolding re_match_def AGENT_ID_RE_def by (auto simp: neq_Nil_conv) (metis list.set_intros(1))+
  then show ?thesis unfolding word_rx_rest re_match_def by (metis empty_iff list.set(1))
qed

end
