(* ===== verification/Issuer.thy ===== *)
theory Issuer
  imports Parse
begin

text \<open>
  Minting and attenuation, \<open>raucle/capability.py\<close>: \<open>CapabilityIssuer\<close> with \<open>mint\<close>,
  \<open>_bind_proof_hashes\<close> and \<open>attenuate\<close>, the narrowing helpers, and \<open>_attenuation_violation\<close>, by which
  the gate checks a link of a presented chain.  The private keys are the signing functions of the
  issuer record; the clock is an argument.
\<close>

section \<open>The issuer\<close>

record CapabilityIssuer =
  iss_issuer :: ustr
  iss_pem :: ustr
  iss_key_id :: ustr
  iss_require_proof :: bool
  iss_sign :: "bytes \<Rightarrow> bytes"
  iss_pq :: "(ustr \<times> (bytes \<Rightarrow> bytes)) option"

text \<open>\<open>env_strict\<close> is whether \<open>RAUCLE_REQUIRE_PROOF\<close> asks for strict mode.\<close>

definition new_issuer ::
  "env \<Rightarrow> ustr \<Rightarrow> ustr \<Rightarrow> (bytes \<Rightarrow> bytes) \<Rightarrow> (ustr \<times> (bytes \<Rightarrow> bytes)) option \<Rightarrow> bool option \<Rightarrow> bool \<Rightarrow>
     CapabilityIssuer res" where
  "new_issuer E name pem sign pq require_proof env_strict =
     (if name = [] then Inl (ValueError ''issuer must not be empty'')
      else Inr \<lparr>iss_issuer = name, iss_pem = pem, iss_key_id = take 16 (sha256_hex E (utf8_encode pem)),
        iss_require_proof = (case require_proof of None \<Rightarrow> env_strict | Some b \<Rightarrow> b),
        iss_sign = sign, iss_pq = pq\<rparr>)"

record ProofResult =
  pr_status :: ustr
  pr_hash :: ustr
  pr_grammar_hash :: ustr
  pr_policy_hash :: ustr

abbreviation PROVEN :: ustr where "PROVEN \<equiv> lit ''PROVEN''"

definition conflicts :: "pyval \<Rightarrow> ustr \<Rightarrow> bool" where
  "conflicts claimed actual = (claimed \<noteq> PNone \<and> \<not> py_eq claimed (PStr actual))"

definition bind_proof_hashes ::
  "ProofResult \<Rightarrow> pyval \<Rightarrow> pyval \<Rightarrow> pyval \<Rightarrow> (pyval \<times> pyval \<times> pyval) res" where
  "bind_proof_hashes pr proof_hash grammar policy =
     rbind (rcheck (pr_status pr = PROVEN) (PolicyUnproven ''non-PROVEN'')) (\<lambda>_.
     rbind (rcheck (\<not> conflicts proof_hash (pr_hash pr)) (ValueError ''policy_proof_hash conflicts'')) (\<lambda>_.
     rbind (rcheck (\<not> conflicts grammar (pr_grammar_hash pr)) (PolicyUnproven ''grammar_hash'')) (\<lambda>_.
     rbind (rcheck (\<not> conflicts policy (pr_policy_hash pr)) (PolicyUnproven ''policy_hash'')) (\<lambda>_.
     Inr (PStr (pr_hash pr), PStr (pr_grammar_hash pr), PStr (pr_policy_hash pr))))))"

definition MAX_TTL_SECONDS :: int where "MAX_TTL_SECONDS = 366 * 24 * 60 * 60"

definition check_ttl :: "pyval \<Rightarrow> int res" where
  "check_ttl ttl = (case ttl of
       PInt t \<Rightarrow> if t \<le> 0 then Inl (ValueError ''ttl_seconds must be positive'')
         else if t > MAX_TTL_SECONDS then Inl (ValueError ''ttl_seconds exceeds the maximum'')
         else Inr t
     | _ \<Rightarrow> Inl (ValueError ''ttl_seconds must be an int''))"

text \<open>The keyword arguments of \<open>mint\<close>.\<close>

record MintRequest =
  rq_agent_id :: ustr
  rq_tool :: ustr
  rq_constraints :: "pydict option"
  rq_ttl :: pyval
  rq_not_before_offset :: int
  rq_policy_proof_hash :: pyval
  rq_proof :: "ProofResult option"
  rq_grammar_hash :: pyval
  rq_policy_hash :: pyval
  rq_quantum :: bool
  rq_intent :: pyval
  rq_acting_for :: pyval

definition strict_mint_check :: "CapabilityIssuer \<Rightarrow> ProofResult option \<Rightarrow> unit res" where
  "strict_mint_check I p = (if \<not> iss_require_proof I then Inr () else (case p of
       None \<Rightarrow> Inl (PolicyUnproven ''requires a ProofResult'')
     | Some pr \<Rightarrow> rcheck (pr_status pr = PROVEN) (PolicyUnproven ''requires a PROVEN ProofResult'')))"

text \<open>The derivation of \<open>token_id\<close> and the classical signature, shared by \<open>mint\<close> and \<open>attenuate\<close>.\<close>

definition sign_token :: "env \<Rightarrow> CapabilityIssuer \<Rightarrow> Capability \<Rightarrow> Capability res" where
  "sign_token E I c = rbind (signed_material E c) (\<lambda>m.
     Inr (c\<lparr>token_id := derive_token_id E m, signature := b64 (iss_sign I m)\<rparr>))"

definition quantum_sign :: "env \<Rightarrow> CapabilityIssuer \<Rightarrow> bool \<Rightarrow> Capability \<Rightarrow> Capability res" where
  "quantum_sign E I quantum c = (if \<not> quantum then Inr c else (case iss_pq I of
       None \<Rightarrow> Inl (ValueError ''quantum=True requires an ML-DSA-65 key'')
     | Some (kid, pqsign) \<Rightarrow> rbind (signed_material E c) (\<lambda>m.
         Inr (c\<lparr>pq_key_id := PStr kid, pq_signature := PStr (b64 (pqsign m))\<rparr>))))"

definition mint :: "env \<Rightarrow> CapabilityIssuer \<Rightarrow> int \<Rightarrow> MintRequest \<Rightarrow> Capability res" where
  "mint E I now rq =
     rbind (validate_agent_id (rq_agent_id rq)) (\<lambda>_.
     rbind (validate_tool (rq_tool rq)) (\<lambda>_.
     rbind (validate_intent (rq_intent rq)) (\<lambda>itn.
     rbind (if truthy (rq_acting_for rq) then validate_principal (rq_acting_for rq) else Inr ()) (\<lambda>_.
     rbind (check_ttl (rq_ttl rq)) (\<lambda>ttl.
     rbind (strict_mint_check I (rq_proof rq)) (\<lambda>_.
     rbind (case rq_proof rq of
         None \<Rightarrow> Inr (rq_policy_proof_hash rq, rq_grammar_hash rq, rq_policy_hash rq)
       | Some pr \<Rightarrow> bind_proof_hashes pr (rq_policy_proof_hash rq) (rq_grammar_hash rq) (rq_policy_hash rq))
       (\<lambda>(pph, gh, ph).
     rbind (normalise_constraints E (case rq_constraints rq of None \<Rightarrow> [] | Some c \<Rightarrow> c)) (\<lambda>cons.
     rbind (sign_token E I
       \<lparr>token_id = [], agent_id = rq_agent_id rq, tool = rq_tool rq, constraints = cons,
        issuer = iss_issuer I, key_id = iss_key_id I, issued_at = now,
        not_before = now + rq_not_before_offset rq, expires_at = now + ttl, parent_id = None,
        intent = itn, acting_for = rq_acting_for rq, policy_proof_hash = pph, grammar_hash = gh,
        policy_hash = ph, signature = [], pq_key_id = PNone, pq_signature = PNone\<rparr>) (\<lambda>cap.
     quantum_sign E I (rq_quantum rq) cap)))))))))"

section \<open>Attenuation\<close>

definition narrow_agent_id :: "Capability \<Rightarrow> ustr option \<Rightarrow> ustr res" where
  "narrow_agent_id parent narrower = (case narrower of
       None \<Rightarrow> Inr (agent_id parent)
     | Some a \<Rightarrow>
         if a = [] then Inr (agent_id parent)
         else if a = agent_id parent then Inr a
         else rbind (validate_agent_id a) (\<lambda>_.
           rbind (rcheck (startswith a (agent_id parent @ [46])) (ValueError ''not a sub-scope'')) (\<lambda>_.
           Inr a)))"

definition narrow_acting_for :: "Capability \<Rightarrow> pyval \<Rightarrow> pyval res" where
  "narrow_acting_for parent acting =
     (if truthy (acting_for parent) \<and> truthy acting \<and> \<not> py_eq acting (acting_for parent)
      then Inl (ValueError ''attenuation re-targeted the acting-for user'')
      else Inr (if truthy acting then acting else acting_for parent))"

definition set_subset :: "pyval \<Rightarrow> pyval \<Rightarrow> bool res" where
  "set_subset a b = rbind (py_set_of a) (\<lambda>xs. rbind (py_set_of b) (\<lambda>ys.
     Inr (list_all (\<lambda>x. list_ex (py_eq x) ys) xs)))"

text \<open>The constraints of an intent that passed the parser or \<open>mint\<close> are an object.\<close>

definition as_dict :: "pyval \<Rightarrow> pydict res" where
  "as_dict v = (case v of PDict d \<Rightarrow> Inr d | _ \<Rightarrow> Inl (AttributeError ''setdefault''))"

definition narrow_intent :: "env \<Rightarrow> Capability \<Rightarrow> pydict option \<Rightarrow> pydict option res" where
  "narrow_intent E parent wanted = (case (wanted, intent parent) of
       (None, p) \<Rightarrow> Inr p
     | (Some i, None) \<Rightarrow> Inr (Some i)
     | (Some i, Some p) \<Rightarrow>
         rbind (if get_or_none p ''tools'' \<noteq> PNone \<and> get_or_none i ''tools'' \<noteq> PNone
                then set_subset (get_or_none i ''tools'') (get_or_none p ''tools'') else Inr True) (\<lambda>ok.
         rbind (rcheck ok (ValueError ''attenuation widened intent.tools'')) (\<lambda>_.
         if truthy (get_or_none p ''constraints'') \<and> truthy (get_or_none i ''constraints'')
         then rbind (as_dict (get_or_none p ''constraints'')) (\<lambda>pc.
              rbind (as_dict (get_or_none i ''constraints'')) (\<lambda>ic.
              rbind (merge_narrowing E pc ic) (\<lambda>narrowed.
              rbind (assert_narrowing pc narrowed) (\<lambda>_.
              Inr (Some (dict_set (lit ''constraints'') (PDict narrowed) i))))))
         else Inr (Some i))))"

definition narrow_expiry :: "Capability \<Rightarrow> int \<Rightarrow> int option \<Rightarrow> int res" where
  "narrow_expiry parent now narrower_ttl =
     (let ttl = (case narrower_ttl of Some t \<Rightarrow> t | None \<Rightarrow> expires_at parent - now);
          new_exp = now + ttl
      in rbind (rcheck (\<not> new_exp > expires_at parent) (ValueError ''child token cannot outlive its parent'')) (\<lambda>_.
         Inr new_exp))"

text \<open>\<open>now0\<close> and \<open>now\<close> are the two readings of the clock.\<close>

definition attenuate ::
  "env \<Rightarrow> CapabilityIssuer \<Rightarrow> int \<Rightarrow> int \<Rightarrow> Capability \<Rightarrow> pydict option \<Rightarrow> int option \<Rightarrow> ustr option \<Rightarrow>
     pyval \<Rightarrow> pyval \<Rightarrow> Capability res" where
  "attenuate E I now0 now parent extra narrower_ttl narrower_agent wanted acting =
     rbind (rcheck (signature parent \<noteq> []) (ValueError ''parent token is unsigned'')) (\<lambda>_.
     rbind (rcheck (\<not> expires_at parent \<le> now0) (ValueError ''parent token has expired'')) (\<lambda>_.
     rbind (narrow_agent_id parent narrower_agent) (\<lambda>child_agent.
     rbind (merge_narrowing E (constraints parent) (case extra of None \<Rightarrow> [] | Some e \<Rightarrow> e)) (\<lambda>merged.
     rbind (assert_narrowing (constraints parent) merged) (\<lambda>_.
     rbind (validate_intent wanted) (\<lambda>valid_int.
     rbind (narrow_acting_for parent acting) (\<lambda>child_acting.
     rbind (narrow_intent E parent valid_int) (\<lambda>child_intent.
     rbind (narrow_expiry parent now narrower_ttl) (\<lambda>new_exp.
     sign_token E I
       \<lparr>token_id = [], agent_id = child_agent, tool = tool parent, constraints = merged,
        issuer = iss_issuer I, key_id = iss_key_id I, issued_at = now,
        not_before = max now (not_before parent), expires_at = new_exp,
        parent_id = Some (token_id parent), intent = child_intent, acting_for = child_acting,
        policy_proof_hash = policy_proof_hash parent, grammar_hash = PNone, policy_hash = PNone,
        signature = [], pq_key_id = PNone, pq_signature = PNone\<rparr>)))))))))"

definition attenuation_violation :: "env \<Rightarrow> Capability \<Rightarrow> Capability \<Rightarrow> string option res" where
  "attenuation_violation E child parent =
     (if tool child \<noteq> tool parent then Inr (Some ''child tool != parent tool'')
      else if \<not> (agent_id child = agent_id parent \<or> startswith (agent_id child) (agent_id parent @ [46]))
        then Inr (Some ''child agent_id is not a descendant'')
      else if expires_at child > expires_at parent then Inr (Some ''child token outlives its parent'')
      else if not_before child < not_before parent then Inr (Some ''child not_before precedes its parent'')
      else case merge_narrowing E (constraints parent) (constraints child) of
          Inl (ValueError e) \<Rightarrow> Inr (Some ''child constraints broaden the parent'')
        | Inl e \<Rightarrow> Inl e
        | Inr merged \<Rightarrow> rbind (normalise_constraints E (constraints child)) (\<lambda>n.
            Inr (if py_eq (PDict merged) (PDict n) then None
                 else Some ''child constraints are not a narrowing of the parent's'')))"

end
