(* ===== verification/Gate.thy ===== *)
theory Gate
  imports Issuer Checker
begin

text \<open>
  The choke point, \<open>CapabilityGate\<close> of \<open>raucle/capability.py\<close>: construction, revocation, every check
  stage, the ancestor walk and \<open>check\<close>.  A stage returns a denial, or nothing; an exception the code does
  not catch is the left side.  The walk up the chain may not end when the resolver answers in a cycle,
  so it is a partial function into \<open>option\<close>, with \<open>None\<close> for a call that never returns.
\<close>

section \<open>State\<close>

datatype proof_mode = Off | Lenient | Strict

record GateDecision =
  allowed :: bool
  reason :: string
  gd_token_id :: ustr
  gd_chain :: "ustr list"
  attributable :: bool

definition deny :: "string \<Rightarrow> ustr \<Rightarrow> GateDecision" where
  "deny why tid = \<lparr>allowed = False, reason = why, gd_token_id = tid, gd_chain = [], attributable = False\<rparr>"

definition deny_attributable :: "string \<Rightarrow> ustr \<Rightarrow> GateDecision" where
  "deny_attributable why tid =
     \<lparr>allowed = False, reason = why, gd_token_id = tid, gd_chain = [], attributable = True\<rparr>"

definition denied :: "GateDecision \<Rightarrow> bool" where
  "denied d = (\<not> allowed d)"

type_synonym resolver = "ustr \<Rightarrow> Capability option"

record CapabilityGate =
  g_issuers :: "(ustr \<times> ustr) list"
  g_resolver :: "resolver option"
  g_proof_mode :: proof_mode
  g_trusted_proofs :: "(ustr \<times> ProofResult) list"
  g_revoked :: "ustr list"
  g_pq_public_keys :: "(ustr \<times> ustr option) list"

definition proof_mode_of :: "ustr \<Rightarrow> proof_mode res" where
  "proof_mode_of s = (if s = lit ''off'' then Inr Off else if s = lit ''lenient'' then Inr Lenient
     else if s = lit ''strict'' then Inr Strict else Inl (ValueError ''proof_enforcement_mode''))"

definition new_gate ::
  "env \<Rightarrow> (ustr \<times> ustr) list \<Rightarrow> resolver option \<Rightarrow> ustr \<Rightarrow> (ustr \<times> ProofResult) list \<Rightarrow> ustr list \<Rightarrow>
     (ustr \<times> ustr) list \<Rightarrow> CapabilityGate res" where
  "new_gate E issuers R mode proofs revoked pq =
     rbind (rcheck (issuers \<noteq> []) (ValueError ''requires at least one trusted issuer'')) (\<lambda>_.
     rbind (proof_mode_of mode) (\<lambda>pm. Inr
       \<lparr>g_issuers = issuers, g_resolver = R, g_proof_mode = pm, g_trusted_proofs = proofs,
        g_revoked = revoked, g_pq_public_keys = map (\<lambda>(kid, pem). (kid, pq_load E pem)) pq\<rparr>))"

definition revoke :: "CapabilityGate \<Rightarrow> ustr \<Rightarrow> CapabilityGate" where
  "revoke G tid = G\<lparr>g_revoked := List.insert tid (g_revoked G)\<rparr>"

section \<open>The stages\<close>

type_synonym stage = "GateDecision option res"

definition pass :: stage where "pass = Inr None"

definition refuse :: "GateDecision \<Rightarrow> stage" where "refuse d = Inr (Some d)"

definition stages :: "stage \<Rightarrow> stage \<Rightarrow> stage" where
  "stages a b = rbind a (\<lambda>r. case r of None \<Rightarrow> b | Some d \<Rightarrow> Inr (Some d))"

text \<open>
  \<open>_verify_signature\<close>: a decoding or verification failure is a \<open>ValueError\<close>; any other exception of
  the body's construction goes through.
\<close>

definition verify_signature :: "env \<Rightarrow> Capability \<Rightarrow> ustr \<Rightarrow> unit res" where
  "verify_signature E token pem =
     (case rbind (b64d (signature token)) (\<lambda>sig.
           rbind (signed_material E token) (\<lambda>m.
           rcheck (ed_verify E pem sig m) (ValueError ''invalid signature''))) of
        Inl (TypeError e) \<Rightarrow> Inl (ValueError e)
      | r \<Rightarrow> r)"

definition check_revocation :: "CapabilityGate \<Rightarrow> Capability \<Rightarrow> stage" where
  "check_revocation G token =
     (if token_id token \<in> set (g_revoked G) then refuse (deny ''token is revoked'' (token_id token))
      else case parent_id token of
          Some p \<Rightarrow> if p \<in> set (g_revoked G) then refuse (deny ''parent token is revoked'' (token_id token)) else pass
        | None \<Rightarrow> pass)"

definition check_agent_id :: "Capability \<Rightarrow> ustr \<Rightarrow> stage" where
  "check_agent_id token a =
     (if \<not> re_match AGENT_ID_RE a then refuse (deny_attributable ''malformed caller agent_id'' (token_id token))
      else if a \<noteq> agent_id token \<and> \<not> startswith a (agent_id token @ [46])
        then refuse (deny_attributable ''agent_id does not match'' (token_id token))
      else pass)"

text \<open>\<open>d.get(k)\<close> for a raw key.\<close>

definition lookup_raw :: "(ustr \<times> 'v) list \<Rightarrow> pyval \<Rightarrow> 'v option res" where
  "lookup_raw d k = (if \<not> py_hashable k then Inl (TypeError ''unhashable'')
     else Inr (if is_str k then map_of d (str_of k) else None))"

definition pq_component_ok :: "env \<Rightarrow> Capability \<Rightarrow> ustr \<Rightarrow> bool" where
  "pq_component_ok E token key =
     (let sig = (if truthy (pq_signature token) then pq_signature token else PStr []) in
      case sig of
        PStr s \<Rightarrow> (case (b64d s, signed_material E token) of
            (Inr bs, Inr m) \<Rightarrow> length bs = 3309 \<and> pq_verify E key bs m
          | _ \<Rightarrow> False)
      | _ \<Rightarrow> False)"

definition check_hybrid_signature :: "env \<Rightarrow> CapabilityGate \<Rightarrow> Capability \<Rightarrow> stage" where
  "check_hybrid_signature E G token =
     (if pq_key_id token = PNone then pass
      else rbind (lookup_raw (g_pq_public_keys G) (pq_key_id token)) (\<lambda>k. case k of
          Some (Some key) \<Rightarrow>
            if pq_component_ok E token key then pass
            else refuse (deny ''hybrid ML-DSA-65 component failed verification'' (token_id token))
        | _ \<Rightarrow> refuse (deny ''no matching ML-DSA-65 key'' (token_id token))))"

definition check_time_bounds :: "Capability \<Rightarrow> int \<Rightarrow> stage" where
  "check_time_bounds token ts =
     (if ts < not_before token then refuse (deny ''token not yet valid'' (token_id token))
      else if ts \<ge> expires_at token then refuse (deny ''token expired'' (token_id token))
      else pass)"

definition check_tool_binding :: "Capability \<Rightarrow> ustr \<Rightarrow> stage" where
  "check_tool_binding token t =
     (if tool token \<noteq> t then refuse (deny_attributable ''token bound to another tool'' (token_id token)) else pass)"

definition check_caller_identity :: "Capability \<Rightarrow> ustr option \<Rightarrow> pyval \<Rightarrow> stage" where
  "check_caller_identity token agent acting =
     stages (case agent of None \<Rightarrow> pass | Some a \<Rightarrow> check_agent_id token a)
       (if truthy (acting_for token) \<and> (\<not> truthy acting \<or> \<not> py_eq acting (acting_for token))
        then refuse (deny_attributable ''acting-for mismatch'' (token_id token)) else pass)"

definition check_call_args :: "env \<Rightarrow> Capability \<Rightarrow> pydict \<Rightarrow> stage" where
  "check_call_args E token args =
     (case check_constraints E (constraints token) args of
        Inl e \<Rightarrow> refuse (deny_attributable ''constraint evaluation error (deny)'' (token_id token))
      | Inr None \<Rightarrow> pass
      | Inr (Some why) \<Rightarrow> refuse (deny_attributable (''constraint violated: '' @ why) (token_id token)))"

definition check_intent_scope :: "env \<Rightarrow> Capability \<Rightarrow> pydict \<Rightarrow> stage" where
  "check_intent_scope E token args = (case intent token of
       None \<Rightarrow> pass
     | Some i \<Rightarrow>
         rbind (if get_or_none i ''tools'' = PNone then Inr True
                else py_in (PStr (tool token)) (get_or_none i ''tools'')) (\<lambda>inside.
         if \<not> inside then refuse (deny_attributable ''intent scope: tool outside the task'' (token_id token))
         else if \<not> truthy (get_or_none i ''constraints'') then pass
         else rbind (as_dict (get_or_none i ''constraints'')) (\<lambda>ic.
              rbind (check_constraints E ic args) (\<lambda>why. case why of
                None \<Rightarrow> pass
              | Some w \<Rightarrow> refuse (deny_attributable (''intent constraint violated: '' @ w) (token_id token))))))"

definition hash_mismatch :: "pyval \<Rightarrow> ustr \<Rightarrow> bool" where
  "hash_mismatch claimed actual = (truthy claimed \<and> \<not> py_eq claimed (PStr actual))"

definition check_proof_hash_mismatch :: "Capability \<Rightarrow> ProofResult \<Rightarrow> stage" where
  "check_proof_hash_mismatch token pr =
     (if pr_status pr \<noteq> PROVEN then refuse (deny_attributable ''proof is not PROVEN'' (token_id token))
      else if hash_mismatch (grammar_hash token) (pr_grammar_hash pr)
        then refuse (deny_attributable ''grammar_hash mismatch'' (token_id token))
      else if hash_mismatch (policy_hash token) (pr_policy_hash pr)
        then refuse (deny_attributable ''policy_hash mismatch'' (token_id token))
      else pass)"

definition enforced_hash :: "env \<Rightarrow> Capability \<Rightarrow> ustr res" where
  "enforced_hash E token =
     rbind (normalise_constraints E (constraints token)) (\<lambda>n.
     rbind (canonical_json E (PDict n)) (\<lambda>m.
     Inr (lit ''sha256:'' @ sha256_hex E m)))"

definition check_proof_binding :: "env \<Rightarrow> CapabilityGate \<Rightarrow> Capability \<Rightarrow> stage" where
  "check_proof_binding E G token =
     (let strict = (g_proof_mode G = Strict) in
      if \<not> truthy (policy_proof_hash token) then
        (if strict then refuse (deny_attributable ''token has no policy_proof_hash'' (token_id token)) else pass)
      else rbind (lookup_raw (g_trusted_proofs G) (policy_proof_hash token)) (\<lambda>p. case p of
          None \<Rightarrow> if strict then refuse (deny_attributable ''not in trusted_proofs cache'' (token_id token)) else pass
        | Some pr \<Rightarrow>
            stages (check_proof_hash_mismatch token pr)
           (stages (if strict \<and> \<not> (truthy (grammar_hash token) \<and> truthy (policy_hash token))
                    then refuse (deny_attributable ''missing grammar_hash or policy_hash'' (token_id token)) else pass)
            (if \<not> strict then pass
             else rbind (enforced_hash E token) (\<lambda>h.
               if py_eq (policy_hash token) (PStr h) then pass
               else refuse (deny ''policy_hash does not match the enforced constraints'' (token_id token)))))))"

definition check_proof_enforcement :: "env \<Rightarrow> CapabilityGate \<Rightarrow> Capability \<Rightarrow> stage" where
  "check_proof_enforcement E G token = (if g_proof_mode G = Off then pass else check_proof_binding E G token)"

definition check_token_id :: "env \<Rightarrow> Capability \<Rightarrow> stage" where
  "check_token_id E token = rbind (signed_material E token) (\<lambda>m.
     if derive_token_id E m \<noteq> token_id token
     then refuse (deny ''token_id does not match body'' (token_id token)) else pass)"

definition check_signature :: "env \<Rightarrow> CapabilityGate \<Rightarrow> Capability \<Rightarrow> stage" where
  "check_signature E G token = (case map_of (g_issuers G) (key_id token) of
       None \<Rightarrow> refuse (deny ''unknown key_id'' (token_id token))
     | Some pem \<Rightarrow> (case verify_signature E token pem of
           Inl (ValueError e) \<Rightarrow> refuse (deny ''bad signature'' (token_id token))
         | Inl e \<Rightarrow> Inl e
         | Inr _ \<Rightarrow> pass))"

definition check_token_identity :: "env \<Rightarrow> CapabilityGate \<Rightarrow> Capability \<Rightarrow> int \<Rightarrow> stage" where
  "check_token_identity E G token ts =
     stages (check_signature E G token)
    (stages (check_hybrid_signature E G token)
    (stages (check_token_id E token)
    (stages (check_revocation G token)
            (check_time_bounds token ts))))"

definition check_attributable_binding ::
  "env \<Rightarrow> Capability \<Rightarrow> ustr \<Rightarrow> ustr option \<Rightarrow> pyval \<Rightarrow> pydict \<Rightarrow> stage" where
  "check_attributable_binding E token t agent acting args =
     stages (check_tool_binding token t)
    (stages (check_caller_identity token agent acting)
    (stages (check_call_args E token args)
            (check_intent_scope E token args)))"

section \<open>The ancestor chain\<close>

text \<open>One turn of the walk: the checks on the resolved parent.\<close>

definition deny_chain :: "string \<Rightarrow> ustr \<Rightarrow> ustr list \<Rightarrow> GateDecision" where
  "deny_chain why tid chain = (deny why tid)\<lparr>gd_chain := chain\<rparr>"

definition ancestor_link ::
  "env \<Rightarrow> CapabilityGate \<Rightarrow> ustr \<Rightarrow> ustr list \<Rightarrow> Capability \<Rightarrow> Capability option \<Rightarrow> stage" where
  "ancestor_link E G tid chain current resolved = (case resolved of
       None \<Rightarrow> refuse (deny_chain ''unresolved parent'' tid chain)
     | Some parent \<Rightarrow> (case map_of (g_issuers G) (key_id parent) of
           None \<Rightarrow> refuse (deny_chain ''parent signed by untrusted key'' tid chain)
         | Some pem \<Rightarrow> (case verify_signature E parent pem of
               Inl (ValueError e) \<Rightarrow> refuse (deny_chain ''parent bad signature'' tid chain)
             | Inl e \<Rightarrow> Inl e
             | Inr _ \<Rightarrow>
                 if token_id parent \<in> set (g_revoked G)
                 then refuse (deny_chain ''ancestor token is revoked'' tid chain)
                 else rbind (attenuation_violation E current parent) (\<lambda>att.
                   if att \<noteq> None then refuse (deny_chain ''invalid attenuation'' tid chain) else pass))))"

partial_function (option) verify_ancestor_chain ::
  "env \<Rightarrow> CapabilityGate \<Rightarrow> resolver \<Rightarrow> ustr \<Rightarrow> Capability \<Rightarrow> ustr list \<Rightarrow>
     (ustr list \<times> GateDecision option) res option" where
  "verify_ancestor_chain E G R tid current chain = (case parent_id current of
       None \<Rightarrow> Some (Inr (chain, None))
     | Some pid \<Rightarrow>
         if pid = [] then Some (Inr (chain, None))
         else (case ancestor_link E G tid chain current (R pid) of
             Inl e \<Rightarrow> Some (Inl e)
           | Inr (Some d) \<Rightarrow> Some (Inr (chain, Some d))
           | Inr None \<Rightarrow> verify_ancestor_chain E G R tid (the (R pid)) (chain @ [token_id (the (R pid))])))"

definition check_chain :: "env \<Rightarrow> CapabilityGate \<Rightarrow> Capability \<Rightarrow> (ustr list \<times> GateDecision option) res option" where
  "check_chain E G token = (case parent_id token of
       None \<Rightarrow> Some (Inr ([], None))
     | Some pid \<Rightarrow> (case g_resolver G of
           None \<Rightarrow> Some (Inr ([], Some (deny ''no parent_resolver is configured'' (token_id token))))
         | Some R \<Rightarrow> verify_ancestor_chain E G R (token_id token) token []))"

definition check ::
  "env \<Rightarrow> CapabilityGate \<Rightarrow> Capability \<Rightarrow> ustr \<Rightarrow> ustr option \<Rightarrow> pydict \<Rightarrow> pyval \<Rightarrow> int \<Rightarrow> GateDecision res option" where
  "check E G token t agent args acting ts =
     (case stages (check_token_identity E G token ts)
          (stages (check_attributable_binding E token t agent acting args)
                  (check_proof_enforcement E G token)) of
        Inl e \<Rightarrow> Some (Inl e)
      | Inr (Some d) \<Rightarrow> Some (Inr d)
      | Inr None \<Rightarrow> (case check_chain E G token of
            None \<Rightarrow> None
          | Some (Inl e) \<Rightarrow> Some (Inl e)
          | Some (Inr (chain, Some d)) \<Rightarrow> Some (Inr d)
          | Some (Inr (chain, None)) \<Rightarrow> Some (Inr
              \<lparr>allowed = True, reason = ''ok'', gd_token_id = token_id token, gd_chain = chain,
               attributable = False\<rparr>)))"

end
