(* ===== verification/Ledger.thy ===== *)
theory Ledger
  imports Gate
begin

text \<open>
  The delegation ledger, \<open>DelegationLedger\<close> of \<open>raucle/capability.py\<close>: an append-only file of signed
  capability records and containment markers, with an in-memory index that is reloaded when the file has
  changed.  The file is the list of its JSON rows; its modification time is a counter that every append
  advances.  Revocations written for a hold are appended to the rows of the file the marker names.
  Identifiers, scopes and paths inside the rows are the strings \<open>register\<close> and the containment module
  write there.
\<close>

section \<open>State\<close>

record LedgerDisk =
  d_rows :: "pydict list"
  d_mtime :: "nat option"
  d_revocations :: "(ustr \<times> pydict) list"

record DelegationLedger =
  l_records :: "(ustr \<times> pydict) list"
  l_control_rows :: "pydict list"
  l_mtime :: "nat option"

section \<open>Loading\<close>

text \<open>\<open>rec["capability"].get("token_id", "")\<close>; the identifier is used as a dictionary key.\<close>

definition record_id :: "pyval \<Rightarrow> ustr res" where
  "record_id cap = (case cap of
       PDict d \<Rightarrow> (case dict_get d (lit ''token_id'') (PStr []) of
           PStr s \<Rightarrow> Inr s
         | _ \<Rightarrow> Inl (TypeError ''token_id''))
     | _ \<Rightarrow> Inl (AttributeError ''get''))"

definition load_row :: "pydict \<Rightarrow> DelegationLedger \<Rightarrow> DelegationLedger res" where
  "load_row row L = (case map_of row (lit ''capability'') of
       None \<Rightarrow> Inr (L\<lparr>l_control_rows := l_control_rows L @ [row]\<rparr>)
     | Some cap \<Rightarrow> rbind (record_id cap) (\<lambda>i. Inr (L\<lparr>l_records := dict_set i row (l_records L)\<rparr>)))"

definition load :: "LedgerDisk \<Rightarrow> DelegationLedger res" where
  "load D = rfold load_row (d_rows D) \<lparr>l_records = [], l_control_rows = [], l_mtime = d_mtime D\<rparr>"

definition new_ledger :: "LedgerDisk \<Rightarrow> DelegationLedger res" where
  "new_ledger D = (if d_mtime D = None then Inr \<lparr>l_records = [], l_control_rows = [], l_mtime = None\<rparr> else load D)"

definition ensure_loaded :: "LedgerDisk \<Rightarrow> DelegationLedger \<Rightarrow> DelegationLedger res" where
  "ensure_loaded D L = (if d_mtime D \<noteq> l_mtime L then load D else Inr L)"

section \<open>Containment holds\<close>

definition marker_key :: "pydict \<Rightarrow> pyval \<times> pyval" where
  "marker_key row = (dict_get row (lit ''scope'') (PStr []), dict_get row (lit ''scope_id'') (PStr []))"

definition kind_is :: "pydict \<Rightarrow> string \<Rightarrow> bool" where
  "kind_is row k = py_eq (get_or_none row ''kind'') (PStr (lit k))"

definition hold_step :: "pydict \<Rightarrow> ((pyval \<times> pyval) \<times> pydict) list \<Rightarrow> ((pyval \<times> pyval) \<times> pydict) list" where
  "hold_step row active =
     (if kind_is row ''containment_hold_active'' then dict_set (marker_key row) row active
      else if kind_is row ''containment_resume'' then dict_pop (marker_key row) active
      else active)"

definition active_containment_holds :: "DelegationLedger \<Rightarrow> pydict list" where
  "active_containment_holds L =
     filter (\<lambda>row. kind_is row ''containment_hold_active'') (map snd (fold hold_step (l_control_rows L) []))"

text \<open>The parent a record cites; an empty or missing one ends the walk.\<close>

definition cited_parent :: "pyval \<Rightarrow> ustr option" where
  "cited_parent v = (case v of PStr s \<Rightarrow> if s = [] then None else Some s | _ \<Rightarrow> None)"

definition record_parent :: "pydict \<Rightarrow> ustr option" where
  "record_parent row = (case dict_get row (lit ''capability'') (PDict []) of
       PDict d \<Rightarrow> cited_parent (get_or_none d ''parent_id'')
     | _ \<Rightarrow> None)"

lemma fresh_key_decreases:
  "map_of records i = Some row \<Longrightarrow> i \<notin> set ids \<Longrightarrow>
    card (fst ` set records - set (ids @ [i])) < card (fst ` set records - set ids)"
proof (rule psubset_card_mono)
  assume "map_of records i = Some row" "i \<notin> set ids"
  then have "i \<in> fst ` set records - set ids" by (force dest: map_of_SomeD)
  then show "fst ` set records - set (ids @ [i]) \<subset> fst ` set records - set ids" by auto
qed simp

function chain_walk :: "(ustr \<times> pydict) list \<Rightarrow> ustr option \<Rightarrow> ustr list \<Rightarrow> ustr list" where
  "chain_walk records current ids = (case current of
       None \<Rightarrow> ids
     | Some i \<Rightarrow>
         if i \<in> set ids then ids
         else (case map_of records i of
             None \<Rightarrow> ids @ [i]
           | Some row \<Rightarrow> chain_walk records (record_parent row) (ids @ [i])))"
  by pat_completeness auto

termination
  by (relation "measure (\<lambda>(records, current, ids). card (fst ` set records - set ids))")
    (use fresh_key_decreases in auto)

declare chain_walk.simps [simp del]

definition chain_ids :: "DelegationLedger \<Rightarrow> pydict \<Rightarrow> ustr list" where
  "chain_ids L token =
     chain_walk (l_records L) (cited_parent (get_or_none token ''parent_id''))
       [str_of (dict_get token (lit ''token_id'') (PStr []))]"

text \<open>
  \<open>writable\<close> says whether the revocations file can be opened for appending, \<open>stamp\<close> is the current
  time as printed.
\<close>

definition revocation_row :: "ustr \<Rightarrow> pydict \<Rightarrow> pydict \<Rightarrow> pydict" where
  "revocation_row stamp token marker =
     [(lit ''token_id'', dict_get token (lit ''token_id'') (PStr [])),
      (lit ''reason'', PStr (lit ''containment hold_active: authority re-minted into a held scope'')),
      (lit ''actor'', dict_get marker (lit ''actor'') (PStr (lit ''containment''))),
      (lit ''timestamp'', PStr stamp),
      (lit ''path'', PStr (lit ''containment'')),
      (lit ''hold_receipt_id'', dict_get marker (lit ''receipt_id'') (PStr []))]"

definition revocations_path :: "pydict \<Rightarrow> ustr" where
  "revocations_path marker =
     (let p = dict_get marker (lit ''revocations_path'') (PStr []);
          q = dict_get marker (lit ''target_path'') (PStr [])
      in str_of (if truthy p then p else q))"

definition propagate_hold_revocation ::
  "(ustr \<Rightarrow> bool) \<Rightarrow> ustr \<Rightarrow> pydict \<Rightarrow> pydict \<Rightarrow> LedgerDisk \<Rightarrow> LedgerDisk res" where
  "propagate_hold_revocation writable stamp token marker D =
     (let path = revocations_path marker in
      if path = [] then Inl (ValueError ''no revocations surface to cover the held scope'')
      else if \<not> writable path then Inl (ValueError ''revocations surface is unwritable'')
      else Inr (D\<lparr>d_revocations := d_revocations D @ [(path, revocation_row stamp token marker)]\<rparr>))"

definition hits_hold :: "ustr \<Rightarrow> ustr list \<Rightarrow> pydict \<Rightarrow> bool" where
  "hits_hold delegated_to chain marker =
     (let scope = fst (marker_key marker); scope_id = snd (marker_key marker) in
      py_eq scope (PStr (lit ''agent'')) \<and> py_eq (PStr delegated_to) scope_id \<or>
      py_eq scope (PStr (lit ''chain'')) \<and> is_str scope_id \<and> str_of scope_id \<in> set chain)"

definition hold_check ::
  "(ustr \<Rightarrow> bool) \<Rightarrow> ustr \<Rightarrow> pydict \<Rightarrow> ustr \<Rightarrow> LedgerDisk \<Rightarrow> DelegationLedger \<Rightarrow>
     (LedgerDisk \<times> DelegationLedger) res" where
  "hold_check writable stamp token delegated_to D L =
     rbind (ensure_loaded D L) (\<lambda>L.
     case List.find (hits_hold delegated_to (chain_ids L token)) (active_containment_holds L) of
       None \<Rightarrow> Inr (D, L)
     | Some marker \<Rightarrow> rbind (propagate_hold_revocation writable stamp token marker D) (\<lambda>D. Inr (D, L)))"

section \<open>Registration\<close>

text \<open>\<open>json.dumps(..., sort_keys=True)\<close>: keys by code point, at every level.\<close>

fun sort_keys :: "pyval \<Rightarrow> pyval" where
  "sort_keys (PDict d) = PDict (map (\<lambda>kv. (fst kv, sort_keys (snd kv))) (sort_key fst d))"
| "sort_keys (PList xs) = PList (map sort_keys xs)"
| "sort_keys v = v"

definition ledger_record_hash :: "env \<Rightarrow> pydict \<Rightarrow> ustr res" where
  "ledger_record_hash E row =
     rbind (utf8_encode_strict (json_text (float_repr E) (sort_keys (PDict row)))) (\<lambda>bs.
     Inr (sha256_hex E bs))"

text \<open>\<open>key\<close> is the Ed25519 key the caller passed or the ledger's own, if any.\<close>

definition ledger_verify :: "env \<Rightarrow> ustr option \<Rightarrow> Capability \<Rightarrow> unit res" where
  "ledger_verify E key c = (case key of
       None \<Rightarrow> Inl (ValueError ''no verifying key for record'')
     | Some pem \<Rightarrow> (case (b64d (signature c), signed_material E c) of
           (Inr sig, Inr m) \<Rightarrow> rcheck (ed_verify E pem sig m) (ValueError ''capability signature failed'')
         | _ \<Rightarrow> Inl (ValueError ''capability signature failed'')))"

definition register ::
  "env \<Rightarrow> (ustr \<Rightarrow> bool) \<Rightarrow> ustr \<Rightarrow> LedgerDisk \<Rightarrow> DelegationLedger \<Rightarrow> Capability \<Rightarrow> ustr \<Rightarrow> ustr option \<Rightarrow>
     (LedgerDisk \<times> DelegationLedger \<times> ustr) res" where
  "register E writable stamp D L c delegated_to key =
     rbind (to_dict E c) (\<lambda>token.
     rbind (rcheck (signature c \<noteq> []) (ValueError ''refusing unsigned capability record'')) (\<lambda>_.
     rbind (ledger_verify E key c) (\<lambda>_.
     let record0 = [(lit ''capability'', PDict token), (lit ''delegated_to_agent'', PStr delegated_to)] in
     rbind (hold_check writable stamp token delegated_to D L) (\<lambda>(D, L).
     rbind (ledger_record_hash E record0) (\<lambda>h.
     let row = record0 @ [(lit ''record_hash'', PStr h)];
         mtime = Some (case d_mtime D of None \<Rightarrow> 0 | Some n \<Rightarrow> Suc n)
     in Inr (D\<lparr>d_rows := d_rows D @ [row], d_mtime := mtime\<rparr>,
             L\<lparr>l_records := dict_set (token_id c) row (l_records L), l_mtime := mtime\<rparr>, h))))))"

section \<open>Queries\<close>

definition children_of :: "DelegationLedger \<Rightarrow> ustr \<Rightarrow> ustr list" where
  "children_of L i = map fst (filter (\<lambda>(cid, row). record_parent row = Some i) (l_records L))"

text \<open>The queue of \<open>descendants\<close> is a stack: \<open>pop()\<close> takes the last element.\<close>

partial_function (option) descend :: "DelegationLedger \<Rightarrow> ustr list \<Rightarrow> ustr list \<Rightarrow> ustr list option" where
  "descend L out queue = (if queue = [] then Some out
     else let current = last queue; cs = children_of L current
          in descend L (out @ cs) (butlast queue @ cs))"

definition descendants :: "LedgerDisk \<Rightarrow> DelegationLedger \<Rightarrow> ustr \<Rightarrow> (DelegationLedger \<times> ustr list) res option" where
  "descendants D L tid = (case ensure_loaded D L of
       Inl e \<Rightarrow> Some (Inl e)
     | Inr L' \<Rightarrow> map_option (\<lambda>out. Inr (L', out)) (descend L' [tid] [tid]))"

definition tokens_for_agent :: "LedgerDisk \<Rightarrow> DelegationLedger \<Rightarrow> ustr \<Rightarrow> (DelegationLedger \<times> ustr list) res" where
  "tokens_for_agent D L agent = rbind (ensure_loaded D L) (\<lambda>L.
     Inr (L, map fst (filter (\<lambda>(cid, row).
       py_eq (dict_get row (lit ''delegated_to_agent'') (PStr [])) (PStr agent)) (l_records L))))"

text \<open>
  The resolver: an unparsable record resolves to nothing, a reload that fails raises.  \<open>ledger_resolver\<close> is
  what a gate over a ledger whose file loads is given.
\<close>

definition parse_record :: "pydict \<Rightarrow> Capability option" where
  "parse_record row = (case map_of row (lit ''capability'') of
       None \<Rightarrow> None
     | Some cap \<Rightarrow> (case from_dict cap of Inl e \<Rightarrow> None | Inr c \<Rightarrow> Some c))"

definition resolve :: "LedgerDisk \<Rightarrow> DelegationLedger \<Rightarrow> ustr \<Rightarrow> Capability option res" where
  "resolve D L i = (case map_of (l_records L) i of
       Some row \<Rightarrow> Inr (parse_record row)
     | None \<Rightarrow> rbind (ensure_loaded D L) (\<lambda>L'.
         Inr (case map_of (l_records L') i of None \<Rightarrow> None | Some row \<Rightarrow> parse_record row)))"

definition ledger_resolver :: "LedgerDisk \<Rightarrow> DelegationLedger \<Rightarrow> resolver" where
  "ledger_resolver D L i = (case resolve D L i of Inl e \<Rightarrow> None | Inr r \<Rightarrow> r)"

end
