(* ===== verification/IssuerLaws.thy ===== *)
theory IssuerLaws
  imports Issuer
begin

text \<open>
  What minting and attenuation promise: the signature and the identifier are over the canonical body, the
  lifetime is bounded, strict mode binds a proven proof, and every accepted attenuation is a narrowing of
  the parent in each dimension.
\<close>

section \<open>Minting\<close>

lemma body_ignores [simp]:
  "body E (c\<lparr>token_id := t\<rparr>) = body E c" "body E (c\<lparr>signature := s\<rparr>) = body E c"
  "body E (c\<lparr>pq_key_id := k\<rparr>) = body E c" "body E (c\<lparr>pq_signature := q\<rparr>) = body E c"
  by (simp_all add: body_def)

lemma signed_material_ignores [simp]:
  "signed_material E (c\<lparr>token_id := t\<rparr>) = signed_material E c"
  "signed_material E (c\<lparr>signature := s\<rparr>) = signed_material E c"
  "signed_material E (c\<lparr>pq_key_id := k\<rparr>) = signed_material E c"
  "signed_material E (c\<lparr>pq_signature := q\<rparr>) = signed_material E c"
  by (simp_all add: signed_material_def)

definition well_signed :: "env \<Rightarrow> CapabilityIssuer \<Rightarrow> Capability \<Rightarrow> bool" where
  "well_signed E I c = (\<exists>m. signed_material E c = Inr m \<and> token_id c = derive_token_id E m \<and>
     signature c = b64 (iss_sign I m))"

lemma sign_token_iff:
  "sign_token E I c = Inr c' \<longleftrightarrow> (\<exists>m. signed_material E c = Inr m \<and>
     c' = c\<lparr>token_id := derive_token_id E m, signature := b64 (iss_sign I m)\<rparr>)"
  by (auto simp: sign_token_def)

lemma sign_token_well_signed: "sign_token E I c = Inr c' \<Longrightarrow> well_signed E I c'"
  by (auto simp: sign_token_iff well_signed_def)

lemma quantum_sign_iff:
  "quantum_sign E I q c = Inr c' \<longleftrightarrow> \<not> q \<and> c' = c \<or>
     q \<and> (\<exists>kid pqs m. iss_pq I = Some (kid, pqs) \<and> signed_material E c = Inr m \<and>
       c' = c\<lparr>pq_key_id := PStr kid, pq_signature := PStr (b64 (pqs m))\<rparr>)"
  by (auto simp: quantum_sign_def split: option.splits)

lemma mintE:
  assumes "mint E I now rq = Inr c"
  obtains itn ttl pph gh ph n c0 where
    "re_match AGENT_ID_RE (rq_agent_id rq)" "re_match TOOL_RE (rq_tool rq)"
    "validate_intent (rq_intent rq) = Inr itn"
    "truthy (rq_acting_for rq) \<longrightarrow> validate_principal (rq_acting_for rq) = Inr ()"
    "check_ttl (rq_ttl rq) = Inr ttl" "strict_mint_check I (rq_proof rq) = Inr ()"
    "(case rq_proof rq of
         None \<Rightarrow> Inr (rq_policy_proof_hash rq, rq_grammar_hash rq, rq_policy_hash rq)
       | Some pr \<Rightarrow> bind_proof_hashes pr (rq_policy_proof_hash rq) (rq_grammar_hash rq) (rq_policy_hash rq))
       = Inr (pph, gh, ph)"
    "normalise_constraints E (case rq_constraints rq of None \<Rightarrow> [] | Some c \<Rightarrow> c) = Inr n"
    "sign_token E I
       \<lparr>token_id = [], agent_id = rq_agent_id rq, tool = rq_tool rq, constraints = n,
        issuer = iss_issuer I, key_id = iss_key_id I, issued_at = now,
        not_before = now + rq_not_before_offset rq, expires_at = now + ttl, parent_id = None,
        intent = itn, acting_for = rq_acting_for rq, policy_proof_hash = pph, grammar_hash = gh,
        policy_hash = ph, signature = [], pq_key_id = PNone, pq_signature = PNone\<rparr> = Inr c0"
    "quantum_sign E I (rq_quantum rq) c0 = Inr c"
  using assms
  by (simp only: mint_def rbind_eq_Inr_iff split_paired_Ex prod.case validate_agent_id_def
      validate_tool_def rcheck_eq_Inr_iff)
    (elim exE conjE, rule that; (assumption | simp split: if_splits))

lemma quantum_sign_well_signed: "quantum_sign E I q c = Inr c' \<Longrightarrow> well_signed E I c \<Longrightarrow> well_signed E I c'"
  by (auto simp: quantum_sign_iff well_signed_def)

lemma mint_well_signed: "mint E I now rq = Inr c \<Longrightarrow> well_signed E I c"
  by (erule mintE) (blast intro: quantum_sign_well_signed sign_token_well_signed)

lemma mint_fields:
  assumes "mint E I now rq = Inr c"
  shows "agent_id c = rq_agent_id rq" "tool c = rq_tool rq" "issuer c = iss_issuer I" "key_id c = iss_key_id I"
    "issued_at c = now" "not_before c = now + rq_not_before_offset rq" "parent_id c = None"
    "acting_for c = rq_acting_for rq" "rq_constraints rq = Some r \<Longrightarrow> normalise_constraints E r = Inr (constraints c)"
    "rq_constraints rq = None \<Longrightarrow> constraints c = []"
  using assms by (erule_tac mintE, force simp: sign_token_iff quantum_sign_iff normalise_constraints_def
      normalise_value_list_constraint_def normalise_starts_with_def normalise_int_bound_def
      normalise_required_present_def normalise_forbidden_field_combinations_def keys_def)+

lemma check_ttl_iff: "check_ttl v = Inr t \<longleftrightarrow> v = PInt t \<and> 0 < t \<and> t \<le> MAX_TTL_SECONDS"
  by (auto simp: check_ttl_def split: pyval.splits if_splits)

lemma mint_lifetime:
  assumes "mint E I now rq = Inr c"
  shows "0 < expires_at c - issued_at c \<and> expires_at c - issued_at c \<le> MAX_TTL_SECONDS"
  using assms by (rule mintE) (auto simp: sign_token_iff quantum_sign_iff check_ttl_iff)

lemma mint_strict:
  assumes "mint E I now rq = Inr c" "iss_require_proof I"
  shows "\<exists>pr. rq_proof rq = Some pr \<and> pr_status pr = PROVEN \<and> policy_proof_hash c = PStr (pr_hash pr) \<and>
    grammar_hash c = PStr (pr_grammar_hash pr) \<and> policy_hash c = PStr (pr_policy_hash pr)"
  using assms(1)
proof (rule mintE)
  assume "strict_mint_check I (rq_proof rq) = Inr ()"
  then obtain pr where "rq_proof rq = Some pr" "pr_status pr = PROVEN"
    using assms(2) by (auto simp: strict_mint_check_def split: option.splits)
  then show ?thesis
    using assms(1) by (elim mintE) (auto simp: sign_token_iff quantum_sign_iff bind_proof_hashes_def)
qed

lemma re_match_Nil: "\<not> re_match AGENT_ID_RE []" "\<not> re_match TOOL_RE []"
proof -
  have "lit ''agent:'' \<noteq> []" by simp
  then show "\<not> re_match AGENT_ID_RE []" using agent_id_language[of "[]"] by auto
  show "\<not> re_match TOOL_RE []" by (simp add: re_match_def TOOL_RE_def)
qed

lemma validate_intent_iff:
  "validate_intent v = Inr x \<longleftrightarrow> (case x of None \<Rightarrow> v = PNone
     | Some i \<Rightarrow> v = PDict i \<and> check_intent_block i = Inr ())"
  by (auto simp: validate_intent_def split: pyval.splits option.splits)

lemma mint_parsed_ok:
  assumes "mint E I now rq = Inr c" "iss_issuer I \<noteq> []" "iss_key_id I \<noteq> []"
  shows "parsed_ok c"
  using assms(1)
proof (rule mintE)
  fix itn ttl pph gh ph n c0
  assume a: "re_match AGENT_ID_RE (rq_agent_id rq)" "re_match TOOL_RE (rq_tool rq)"
    "validate_intent (rq_intent rq) = Inr itn"
    "truthy (rq_acting_for rq) \<longrightarrow> validate_principal (rq_acting_for rq) = Inr ()"
    "sign_token E I
       \<lparr>token_id = [], agent_id = rq_agent_id rq, tool = rq_tool rq, constraints = n,
        issuer = iss_issuer I, key_id = iss_key_id I, issued_at = now,
        not_before = now + rq_not_before_offset rq, expires_at = now + ttl, parent_id = None,
        intent = itn, acting_for = rq_acting_for rq, policy_proof_hash = pph, grammar_hash = gh,
        policy_hash = ph, signature = [], pq_key_id = PNone, pq_signature = PNone\<rparr> = Inr c0"
    "quantum_sign E I (rq_quantum rq) c0 = Inr c"
  have "rq_agent_id rq \<noteq> []" "rq_tool rq \<noteq> []" using a(1,2) re_match_Nil by metis+
  then show ?thesis
    using a assms(2,3)
    by (auto simp: parsed_ok_def sign_token_iff quantum_sign_iff derive_token_id_def validate_intent_iff)
qed

section \<open>Attenuation\<close>

text \<open>The dimensions in which the gate requires a child to narrow its parent.\<close>

definition sub_agent :: "ustr \<Rightarrow> ustr \<Rightarrow> bool" where
  "sub_agent child parent = (child = parent \<or> prefix (parent @ [46]) child)"

lemma sub_agent_trans: "sub_agent a b \<Longrightarrow> sub_agent b c \<Longrightarrow> sub_agent a c"
  by (auto simp: sub_agent_def prefix_def)

definition narrower :: "env \<Rightarrow> Capability \<Rightarrow> Capability \<Rightarrow> bool" where
  "narrower E child parent = (tool child = tool parent \<and> sub_agent (agent_id child) (agent_id parent) \<and>
     expires_at child \<le> expires_at parent \<and> not_before parent \<le> not_before child \<and>
     (\<forall>args. permits E (constraints child) args \<longrightarrow> permits E (constraints parent) args))"

lemma narrower_refl: "narrower E c c"
  by (simp add: narrower_def sub_agent_def)

lemma narrower_trans: "narrower E a b \<Longrightarrow> narrower E b c \<Longrightarrow> narrower E a c"
  unfolding narrower_def using sub_agent_trans by fastforce

lemma narrow_agent_id_sub: "narrow_agent_id p n = Inr a \<Longrightarrow> sub_agent a (agent_id p)"
  by (auto simp: narrow_agent_id_def sub_agent_def startswith_iff split: option.splits if_splits)

lemma narrow_expiry_le: "narrow_expiry p now t = Inr x \<Longrightarrow> x \<le> expires_at p"
  by (auto simp: narrow_expiry_def Let_def)

lemma attenuateE:
  assumes "attenuate E I now0 now p extra ttl narrower_agent wanted acting = Inr c"
  obtains a m vi ca ci x where
    "signature p \<noteq> []" "now0 < expires_at p" "narrow_agent_id p narrower_agent = Inr a"
    "merge_narrowing E (constraints p) (case extra of None \<Rightarrow> [] | Some e \<Rightarrow> e) = Inr m"
    "assert_narrowing (constraints p) m = Inr ()" "validate_intent wanted = Inr vi"
    "narrow_acting_for p acting = Inr ca" "narrow_intent E p vi = Inr ci" "narrow_expiry p now ttl = Inr x"
    "sign_token E I
       \<lparr>token_id = [], agent_id = a, tool = tool p, constraints = m,
        issuer = iss_issuer I, key_id = iss_key_id I, issued_at = now,
        not_before = max now (not_before p), expires_at = x,
        parent_id = Some (token_id p), intent = ci, acting_for = ca,
        policy_proof_hash = policy_proof_hash p, grammar_hash = PNone, policy_hash = PNone,
        signature = [], pq_key_id = PNone, pq_signature = PNone\<rparr> = Inr c"
  using assms unfolding attenuate_def rbind_eq_Inr_iff rcheck_eq_Inr_iff
  by (elim exE conjE) (rule that; (assumption | simp))

lemma attenuate_narrower:
  assumes att: "attenuate E I now0 now p extra ttl na wanted acting = Inr c"
    and wf: "wf_val (PDict (case extra of None \<Rightarrow> [] | Some e \<Rightarrow> e))"
    and p: "normalise_constraints E (constraints p) = Inr np" "plain_prefixes (constraints p)"
  shows "narrower E c p" "parent_id c = Some (token_id p)" "well_signed E I c"
    "truthy (acting_for p) \<Longrightarrow> py_eq (acting_for c) (acting_for p) \<or> acting_for c = acting_for p"
proof -
  from att obtain a m vi ca ci x where m: "merge_narrowing E (constraints p) (case extra of None \<Rightarrow> [] | Some e \<Rightarrow> e) = Inr m"
    and a: "narrow_agent_id p na = Inr a" and ca: "narrow_acting_for p acting = Inr ca"
    and x: "narrow_expiry p now ttl = Inr x"
    and c: "sign_token E I
       \<lparr>token_id = [], agent_id = a, tool = tool p, constraints = m,
        issuer = iss_issuer I, key_id = iss_key_id I, issued_at = now,
        not_before = max now (not_before p), expires_at = x,
        parent_id = Some (token_id p), intent = ci, acting_for = ca,
        policy_proof_hash = policy_proof_hash p, grammar_hash = PNone, policy_hash = PNone,
        signature = [], pq_key_id = PNone, pq_signature = PNone\<rparr> = Inr c" by (rule attenuateE)
  show "well_signed E I c" by (rule sign_token_well_signed[OF c])
  show "parent_id c = Some (token_id p)" using c by (auto simp: sign_token_iff)
  show "narrower E c p"
    using c narrow_agent_id_sub[OF a] narrow_expiry_le[OF x] merge_narrows[OF m wf normalise_shaped(1)[OF p(1)] p(2)]
    by (auto simp: sign_token_iff narrower_def)
  show "py_eq (acting_for c) (acting_for p) \<or> acting_for c = acting_for p" if "truthy (acting_for p)"
    using c ca that by (auto simp: sign_token_iff narrow_acting_for_def split: if_splits)
qed

lemma attenuation_violation_sound:
  assumes v: "attenuation_violation E c p = Inr None"
    and wf: "wf_token c" "wf_token p"
    and p: "normalise_constraints E (constraints p) = Inr np" "plain_prefixes (constraints p)"
  shows "narrower E c p"
proof -
  obtain m n where m: "merge_narrowing E (constraints p) (constraints c) = Inr m"
    and n: "normalise_constraints E (constraints c) = Inr n" and eq: "py_eq (PDict m) (PDict n)"
    and d: "tool c = tool p" "agent_id c = agent_id p \<or> startswith (agent_id c) (agent_id p @ [46])"
      "expires_at c \<le> expires_at p" "not_before p \<le> not_before c"
    using v by (auto simp: attenuation_violation_def simp del: py_eq.simps
        split: if_splits sum.splits pyexc.splits)
  obtain out where out: "merge_raw (constraints p) (constraints c) = Inr out" "normalise_constraints E out = Inr m"
    using m by (auto simp: merge_narrowing_def)
  have wfc: "wf_val (PDict (constraints c))" using wf(1) unfolding wf_token_def by blast
  have "permits E (constraints p) args" if "permits E (constraints c) args" for args
  proof -
    have "permits E n args" using that normalise_permits[OF n] by simp
    moreover have "permits E m args = permits E n args"
    proof (rule py_eq_permits[OF eq])
      have "dist_fields (constraints p)"
        using wf_dist_keys wf(2) unfolding wf_token_def dist_keys_def by blast
      then show "dist_keys m"
        using normalise_distinct[OF out(2)] merge_raw_distinct[OF out(1)] unfolding dist_keys_def by blast
      show "dist_keys n" using wf_dist_keys[OF normalise_wf[OF n wfc]] .
      show "shaped m" "shaped n" using normalise_shaped(2) out(2) n by blast+
    qed
    ultimately show ?thesis using merge_narrows[OF m wfc normalise_shaped(1)[OF p(1)] p(2)] by blast
  qed
  then show ?thesis using d by (auto simp: narrower_def sub_agent_def startswith_iff)
qed

end
