(* ===== verification/GateLaws.thy ===== *)
theory GateLaws
  imports Gate IssuerLaws
begin

text \<open>
  What a decision of the gate means.  \<open>authentic\<close> and the other predicates state each stage without
  exceptions; \<open>ancestry\<close> is the chain of verified links above a token, and the walk of the gate is shown
  to accept exactly those chains.
\<close>

section \<open>Stages\<close>

lemma stages_pass [simp]: "stages a b = Inr None \<longleftrightarrow> a = Inr None \<and> b = Inr None"
  by (auto simp: stages_def split: option.splits)

lemma stages_refuse:
  "stages a b = Inr (Some d) \<longleftrightarrow> a = Inr (Some d) \<or> a = Inr None \<and> b = Inr (Some d)"
  by (cases a) (auto simp: stages_def split: option.splits)

lemma pass_iff [simp]: "pass = Inr r \<longleftrightarrow> r = None" "pass \<noteq> Inl e" "refuse d = Inr r \<longleftrightarrow> r = Some d"
  "refuse d \<noteq> Inl e" "refuse d \<noteq> pass" "pass \<noteq> refuse d"
  by (auto simp: pass_def refuse_def)

lemma pass_eq: "pass = Inr None"
  by (simp add: pass_def)

lemma deny_fields [simp]:
  "\<not> allowed (deny w t)" "\<not> allowed (deny_attributable w t)" "\<not> allowed (deny_chain w t c)"
  "\<not> attributable (deny w t)" "attributable (deny_attributable w t)" "\<not> attributable (deny_chain w t c)"
  by (simp_all add: deny_def deny_attributable_def deny_chain_def)

definition authentic :: "env \<Rightarrow> CapabilityGate \<Rightarrow> Capability \<Rightarrow> bool" where
  "authentic E G c = (\<exists>pem sig m. map_of (g_issuers G) (key_id c) = Some pem \<and> b64d (signature c) = Inr sig \<and>
     signed_material E c = Inr m \<and> ed_verify E pem sig m)"

lemma verify_signature_iff:
  "verify_signature E c pem = Inr u \<longleftrightarrow> (\<exists>sig m. b64d (signature c) = Inr sig \<and>
     signed_material E c = Inr m \<and> ed_verify E pem sig m)"
  by (auto simp: verify_signature_def rbind_def rcheck_def split: sum.splits pyexc.splits)

lemma verify_signature_Inl:
  "verify_signature E c pem = Inl e \<Longrightarrow> b64d (signature c) = Inr sig \<Longrightarrow> signed_material E c = Inr m \<Longrightarrow>
    \<not> ed_verify E pem sig m"
  using verify_signature_iff[of E c pem "()"] by auto

lemma check_signature_pass: "check_signature E G c = Inr None \<longleftrightarrow> authentic E G c"
  by (auto simp: check_signature_def authentic_def verify_signature_iff
      split: option.splits sum.splits pyexc.splits dest: verify_signature_Inl)

lemma check_revocation_pass:
  "check_revocation G c = Inr None \<longleftrightarrow> token_id c \<notin> set (g_revoked G) \<and> parent_id c \<notin> Some ` set (g_revoked G)"
  by (auto simp: check_revocation_def split: option.splits)

lemma check_time_bounds_pass: "check_time_bounds c ts = Inr None \<longleftrightarrow> not_before c \<le> ts \<and> ts < expires_at c"
  by (auto simp: check_time_bounds_def)

lemma check_token_id_pass:
  "check_token_id E c = Inr None \<longleftrightarrow> (\<exists>m. signed_material E c = Inr m \<and> token_id c = derive_token_id E m)"
  by (auto simp: check_token_id_def)

definition hybrid_ok :: "env \<Rightarrow> CapabilityGate \<Rightarrow> Capability \<Rightarrow> bool" where
  "hybrid_ok E G c = (pq_key_id c = PNone \<or> (\<exists>kid key. pq_key_id c = PStr kid \<and>
     map_of (g_pq_public_keys G) kid = Some (Some key) \<and> pq_component_ok E c key))"

lemma check_hybrid_pass: "check_hybrid_signature E G c = Inr None \<longleftrightarrow> hybrid_ok E G c"
  by (auto simp: check_hybrid_signature_def hybrid_ok_def lookup_raw_def is_str_iff py_hashable_def
      split: option.splits if_splits)

definition identified :: "env \<Rightarrow> CapabilityGate \<Rightarrow> Capability \<Rightarrow> int \<Rightarrow> bool" where
  "identified E G c ts = (authentic E G c \<and> hybrid_ok E G c \<and>
     (\<exists>m. signed_material E c = Inr m \<and> token_id c = derive_token_id E m) \<and>
     token_id c \<notin> set (g_revoked G) \<and> parent_id c \<notin> Some ` set (g_revoked G) \<and>
     not_before c \<le> ts \<and> ts < expires_at c)"

lemma check_token_identity_pass: "check_token_identity E G c ts = Inr None \<longleftrightarrow> identified E G c ts"
  by (simp add: check_token_identity_def identified_def check_signature_pass check_hybrid_pass
      check_token_id_pass check_revocation_pass check_time_bounds_pass)

definition caller_ok :: "Capability \<Rightarrow> ustr option \<Rightarrow> pyval \<Rightarrow> bool" where
  "caller_ok c agent acting = ((\<forall>a. agent = Some a \<longrightarrow> re_match AGENT_ID_RE a \<and> sub_agent a (agent_id c)) \<and>
     (truthy (acting_for c) \<longrightarrow> truthy acting \<and> py_eq acting (acting_for c)))"

lemma check_caller_pass: "check_caller_identity c agent acting = Inr None \<longleftrightarrow> caller_ok c agent acting"
  by (auto simp: check_caller_identity_def caller_ok_def check_agent_id_def sub_agent_def startswith_iff
      split: option.splits)

lemma check_call_args_pass: "check_call_args E c args = Inr None \<longleftrightarrow> check_constraints E (constraints c) args = Inr None"
  by (auto simp: check_call_args_def split: sum.splits option.splits)

lemma check_call_args_permits:
  assumes "authentic E G c" "wf_token c"
  shows "check_call_args E c args = Inr None \<longleftrightarrow> permits E (constraints c) args"
proof -
  obtain n where "normalise_constraints E (constraints c) = Inr n"
    using assms(1) by (auto simp: authentic_def signed_material_def body_def)
  then have "shaped (constraints c)" by (rule normalise_shaped)
  then have "decides (check_constraints E (constraints c) args) (permits E (constraints c) args)"
    using assms(2) unfolding wf_token_def by (blast intro: check_decides)
  then show ?thesis by (auto simp: check_call_args_pass decides_def)
qed

text \<open>What an intent block permits.\<close>

definition intent_ok :: "env \<Rightarrow> Capability \<Rightarrow> pydict \<Rightarrow> bool" where
  "intent_ok E c args = (case intent c of None \<Rightarrow> True | Some i \<Rightarrow>
     (get_or_none i ''tools'' = PNone \<or> py_in (PStr (tool c)) (get_or_none i ''tools'') = Inr True) \<and>
     (truthy (get_or_none i ''constraints'') \<longrightarrow>
        (\<exists>ic. get_or_none i ''constraints'' = PDict ic \<and> check_constraints E ic args = Inr None)))"

lemma as_dict_iff: "as_dict v = Inr d \<longleftrightarrow> v = PDict d"
  by (cases v) (auto simp: as_dict_def)

lemma check_intent_pass: "check_intent_scope E c args = Inr None \<longleftrightarrow> intent_ok E c args"
  by (auto simp: check_intent_scope_def intent_ok_def as_dict_iff split: option.splits if_splits)

section \<open>The ancestor walk\<close>

definition is_root :: "Capability \<Rightarrow> bool" where
  "is_root c = (parent_id c = None \<or> parent_id c = Some [])"

inductive ancestry :: "env \<Rightarrow> CapabilityGate \<Rightarrow> resolver \<Rightarrow> Capability \<Rightarrow> Capability list \<Rightarrow> bool"
  for E G R where
  root: "is_root c \<Longrightarrow> ancestry E G R c []"
| link: "parent_id c = Some pid \<Longrightarrow> pid \<noteq> [] \<Longrightarrow> R pid = Some p \<Longrightarrow> authentic E G p \<Longrightarrow>
    token_id p \<notin> set (g_revoked G) \<Longrightarrow> attenuation_violation E c p = Inr None \<Longrightarrow> ancestry E G R p ps \<Longrightarrow>
    ancestry E G R c (p # ps)"

inductive_simps ancestry_Cons: "ancestry E G R c (p # ps)"
inductive_cases ancestry_NilE: "ancestry E G R c []"

lemma ancestor_link_pass:
  "ancestor_link E G tid chain c r = Inr None \<longleftrightarrow> (\<exists>p. r = Some p \<and> authentic E G p \<and>
     token_id p \<notin> set (g_revoked G) \<and> attenuation_violation E c p = Inr None)"
  by (auto simp: ancestor_link_def authentic_def verify_signature_iff split: option.splits sum.splits pyexc.splits
      dest: verify_signature_Inl)

lemma walk_complete:
  "ancestry E G R c ps \<Longrightarrow>
    verify_ancestor_chain E G R tid c chain = Some (Inr (chain @ map token_id ps, None))"
proof (induction arbitrary: chain rule: ancestry.induct)
  case (root c)
  then show ?case by (subst verify_ancestor_chain.simps) (auto simp: is_root_def)
next
  case (link c pid p ps)
  have "ancestor_link E G tid chain c (R pid) = Inr None" using link by (simp add: ancestor_link_pass)
  then show ?case using link by (subst verify_ancestor_chain.simps) simp
qed

lemmas walk_induct = verify_ancestor_chain.raw_induct[rotated, consumes 1, case_names step]

lemma walk_sound:
  "verify_ancestor_chain E G R tid c chain = Some r \<Longrightarrow> r = Inr (ch, None) \<Longrightarrow>
    \<exists>ps. ancestry E G R c ps \<and> ch = chain @ map token_id ps"
proof (induction arbitrary: ch rule: walk_induct)
  case (step walk E G R tid c chain r)
  show ?case
  proof (cases "is_root c")
    case True
    then show ?thesis using step(2,3) ancestry.root by (auto simp: is_root_def)
  next
    case False
    then obtain pid where pid: "parent_id c = Some pid" "pid \<noteq> []" by (auto simp: is_root_def)
    then have al: "ancestor_link E G tid chain c (R pid) = Inr None"
      and w: "walk E G R tid (the (R pid)) (chain @ [token_id (the (R pid))]) = Some r"
      using step(2,3) by (auto split: sum.splits option.splits)
    obtain p where p: "R pid = Some p" "authentic E G p" "token_id p \<notin> set (g_revoked G)"
      "attenuation_violation E c p = Inr None" using al by (auto simp: ancestor_link_pass)
    obtain ps where "ancestry E G R p ps" "ch = (chain @ [token_id p]) @ map token_id ps"
      using step(1)[OF w step(3)] p(1) by auto
    then have "ancestry E G R c (p # ps) \<and> ch = chain @ map token_id (p # ps)"
      using pid p by (simp add: ancestry.link)
    then show ?thesis by blast
  qed
qed

lemma ancestry_narrower:
  assumes "ancestry E G R c ps" "wf_token c" "\<forall>p\<in>set ps. wf_token p \<and> plain_prefixes (constraints p)" "p \<in> set ps"
  shows "narrower E c p"
  using assms
proof (induction rule: ancestry.induct)
  case (link c pid q ps)
  obtain n where "normalise_constraints E (constraints q) = Inr n"
    using link(4) by (auto simp: authentic_def signed_material_def body_def)
  then have cq: "narrower E c q" using link.prems by (intro attenuation_violation_sound[OF link(6)]) auto
  show ?case
  proof (cases "p = q")
    case False
    then show ?thesis using link narrower_trans[OF cq] by auto
  qed (use cq in simp)
qed simp

text \<open>The ancestors a resolver names, verified or not.\<close>

inductive ancestor :: "resolver \<Rightarrow> Capability \<Rightarrow> Capability \<Rightarrow> bool" for R where
  parent: "parent_id c = Some pid \<Longrightarrow> pid \<noteq> [] \<Longrightarrow> R pid = Some p \<Longrightarrow> ancestor R c p"
| further: "parent_id c = Some pid \<Longrightarrow> pid \<noteq> [] \<Longrightarrow> R pid = Some p \<Longrightarrow> ancestor R p q \<Longrightarrow> ancestor R c q"

lemma ancestor_in_chain: "ancestor R c p \<Longrightarrow> ancestry E G R c ps \<Longrightarrow> p \<in> set ps"
proof (induction arbitrary: ps rule: ancestor.induct)
  case (parent c pid p)
  then show ?case by (auto elim: ancestry.cases simp: is_root_def)
next
  case (further c pid p q)
  from further.prems further.hyps(1-3) obtain ps' where "ps = p # ps'" "ancestry E G R p ps'"
    by (auto elim: ancestry.cases simp: is_root_def)
  then show ?case using further.IH by simp
qed

lemma ancestry_not_revoked: "ancestry E G R c ps \<Longrightarrow> p \<in> set ps \<Longrightarrow> token_id p \<notin> set (g_revoked G) \<and> authentic E G p"
  by (induction rule: ancestry.induct) auto

text \<open>A resolver whose answers descend in some rank makes the walk end.\<close>

definition ranked :: "resolver \<Rightarrow> (Capability \<Rightarrow> nat) \<Rightarrow> bool" where
  "ranked R rk = (\<forall>c pid p. parent_id c = Some pid \<longrightarrow> R pid = Some p \<longrightarrow> rk p < rk c)"

lemma walk_terminates:
  assumes "ranked R rk"
  shows "\<exists>r. verify_ancestor_chain E G R tid c chain = Some r"
proof (induction "rk c" arbitrary: c chain rule: less_induct)
  case less
  show ?case
  proof (cases "is_root c")
    case True
    then show ?thesis by (subst verify_ancestor_chain.simps) (auto simp: is_root_def)
  next
    case False
    then obtain pid where pid: "parent_id c = Some pid" "pid \<noteq> []" by (auto simp: is_root_def)
    show ?thesis
    proof (cases "ancestor_link E G tid chain c (R pid) = Inr None")
      case True
      then obtain p where p: "R pid = Some p" by (auto simp: ancestor_link_pass)
      then have "rk p < rk c" using assms pid by (auto simp: ranked_def)
      then show ?thesis using less True pid p by (subst verify_ancestor_chain.simps) simp
    next
      case False
      then show ?thesis using pid by (subst verify_ancestor_chain.simps) (auto split: sum.splits option.splits)
    qed
  qed
qed

lemma walk_diverges:
  assumes "parent_id c = Some pid" "pid \<noteq> []" "R pid = Some c" "authentic E G c"
    "token_id c \<notin> set (g_revoked G)" "attenuation_violation E c c = Inr None"
  shows "verify_ancestor_chain E G R tid c chain = None"
proof -
  have al: "ancestor_link E G tid chain c (R pid) = Inr None" for chain using assms by (simp add: ancestor_link_pass)
  have "E' = E \<Longrightarrow> G' = G \<Longrightarrow> R' = R \<Longrightarrow> tid' = tid \<Longrightarrow> c' = c \<Longrightarrow> False"
    if "verify_ancestor_chain E' G' R' tid' c' chain = Some r" for E' G' R' tid' c' chain r
    using that
  proof (induction rule: walk_induct)
    case (step walk E' G' R' tid' c' chain r)
    then have "walk E G R tid c (chain @ [token_id c]) = Some r" using assms(1-3) al by simp
    then show ?case using step(1) by blast
  qed
  from this[of E G R tid c chain] show ?thesis by (cases "verify_ancestor_chain E G R tid c chain") blast+
qed

section \<open>Decisions\<close>

text \<open>No stage that refuses allows.\<close>

definition only_denies :: "stage \<Rightarrow> bool" where
  "only_denies s = (\<forall>d. s = Inr (Some d) \<longrightarrow> \<not> allowed d)"

lemma only_denies_stages: "only_denies a \<Longrightarrow> only_denies b \<Longrightarrow> only_denies (stages a b)"
  by (auto simp: only_denies_def stages_refuse)

lemma only_denies_simps [simp]:
  "only_denies pass" "only_denies (Inl e)" "only_denies (refuse d) \<longleftrightarrow> \<not> allowed d"
  by (auto simp: only_denies_def)

lemma only_denies_rbind: "(\<And>x. only_denies (f x)) \<Longrightarrow> only_denies (rbind m f)"
  by (cases m) auto

lemma only_denies_identity_stages:
  "only_denies (check_signature E G c)" "only_denies (check_hybrid_signature E G c)"
  "only_denies (check_token_id E c)" "only_denies (check_revocation G c)" "only_denies (check_time_bounds c ts)"
  unfolding check_signature_def check_hybrid_signature_def check_token_id_def check_revocation_def
    check_time_bounds_def
  by (auto intro!: only_denies_rbind split: option.split sum.split pyexc.split)

lemma only_denies_binding_stages:
  "only_denies (check_tool_binding c t)" "only_denies (check_caller_identity c agent acting)"
  "only_denies (check_call_args E c args)" "only_denies (check_intent_scope E c args)"
  unfolding check_tool_binding_def check_caller_identity_def check_agent_id_def check_call_args_def
    check_intent_scope_def
  by (auto intro!: only_denies_rbind only_denies_stages split: option.split sum.split)

lemma only_denies_proof: "only_denies (check_proof_enforcement E G c)"
  unfolding check_proof_enforcement_def check_proof_binding_def check_proof_hash_mismatch_def Let_def
  by (auto intro!: only_denies_rbind only_denies_stages split: option.split)

lemmas only_denies_basic = only_denies_identity_stages only_denies_binding_stages only_denies_proof

lemma only_denies_identity: "only_denies (check_token_identity E G c ts)"
  unfolding check_token_identity_def by (intro only_denies_stages only_denies_basic)

lemma only_denies_binding: "only_denies (check_attributable_binding E c t agent acting args)"
  unfolding check_attributable_binding_def by (intro only_denies_stages only_denies_basic)

lemma only_denies_link: "only_denies (ancestor_link E G tid chain c r)"
  by (auto simp: only_denies_def ancestor_link_def split: if_splits option.splits sum.splits pyexc.splits)

lemma walk_only_denies:
  "verify_ancestor_chain E G R tid c chain = Some r \<Longrightarrow> r = Inr (ch, Some d) \<Longrightarrow> \<not> allowed d \<and> \<not> attributable d"
proof (induction rule: walk_induct)
  case (step walk E G R tid c chain r)
  have "\<not> allowed d \<and> \<not> attributable d" if "ancestor_link E G tid chain c x = Inr (Some d)" for x
    using that by (auto simp: ancestor_link_def split: if_splits option.splits sum.splits pyexc.splits)
  then show ?case using step by (auto split: option.splits if_splits sum.splits)
qed

lemma check_chain_only_denies:
  "check_chain E G c = Some (Inr (ch, Some d)) \<Longrightarrow> \<not> allowed d \<and> \<not> attributable d"
  by (auto simp: check_chain_def split: option.splits dest: walk_only_denies)

definition verified_chain :: "env \<Rightarrow> CapabilityGate \<Rightarrow> Capability \<Rightarrow> Capability list \<Rightarrow> bool" where
  "verified_chain E G c ps = (parent_id c = None \<and> ps = [] \<or>
     (\<exists>R. parent_id c \<noteq> None \<and> g_resolver G = Some R \<and> ancestry E G R c ps))"

lemma check_chain_iff:
  "check_chain E G c = Some (Inr (ch, None)) \<longleftrightarrow> (\<exists>ps. verified_chain E G c ps \<and> ch = map token_id ps)"
proof (cases "parent_id c")
  case None
  then show ?thesis by (auto simp: check_chain_def verified_chain_def)
next
  case (Some pid)
  show ?thesis
  proof (cases "g_resolver G")
    case None
    then show ?thesis using Some by (auto simp: check_chain_def verified_chain_def)
  next
    case r: (Some R)
    have "verify_ancestor_chain E G R (token_id c) c [] = Some (Inr (ch, None)) \<longleftrightarrow>
        (\<exists>ps. ancestry E G R c ps \<and> ch = map token_id ps)"
      using walk_sound[of E G R "token_id c" c "[]"] walk_complete[of E G R c _ "token_id c" "[]"] by auto
    then show ?thesis using Some r by (simp add: check_chain_def verified_chain_def)
  qed
qed

definition admitted ::
  "env \<Rightarrow> CapabilityGate \<Rightarrow> Capability \<Rightarrow> ustr \<Rightarrow> ustr option \<Rightarrow> pydict \<Rightarrow> pyval \<Rightarrow> int \<Rightarrow> Capability list \<Rightarrow> bool" where
  "admitted E G c t agent args acting ts ps = (identified E G c ts \<and> tool c = t \<and> caller_ok c agent acting \<and>
     permits E (constraints c) args \<and> intent_ok E c args \<and> check_proof_enforcement E G c = Inr None \<and>
     verified_chain E G c ps)"

lemma check_binding_pass:
  "check_attributable_binding E c t agent acting args = Inr None \<longleftrightarrow>
     tool c = t \<and> caller_ok c agent acting \<and> check_call_args E c args = Inr None \<and> intent_ok E c args"
  by (auto simp: check_attributable_binding_def check_tool_binding_def check_caller_pass check_intent_pass)

lemma check_allows_iff:
  assumes "wf_token c"
  shows "check E G c t agent args acting ts = Some (Inr d) \<and> allowed d \<longleftrightarrow>
    (\<exists>ps. admitted E G c t agent args acting ts ps \<and>
       d = \<lparr>allowed = True, reason = ''ok'', gd_token_id = token_id c, gd_chain = map token_id ps,
            attributable = False\<rparr>)"
proof -
  let ?s = "stages (check_token_identity E G c ts)
      (stages (check_attributable_binding E c t agent acting args) (check_proof_enforcement E G c))"
  have od: "only_denies ?s"
    by (intro only_denies_stages only_denies_identity only_denies_binding only_denies_basic)
  have pass: "?s = Inr None \<longleftrightarrow> identified E G c ts \<and> tool c = t \<and> caller_ok c agent acting \<and>
     permits E (constraints c) args \<and> intent_ok E c args \<and> check_proof_enforcement E G c = Inr None"
    using check_call_args_permits[OF _ assms, of E G args]
    by (auto simp: check_token_identity_pass check_binding_pass identified_def)
  show ?thesis
  proof (cases "?s = Inr None")
    case True
    then have eq: "check E G c t agent args acting ts = (case check_chain E G c of
            None \<Rightarrow> None
          | Some (Inl e) \<Rightarrow> Some (Inl e)
          | Some (Inr (chain, Some d)) \<Rightarrow> Some (Inr d)
          | Some (Inr (chain, None)) \<Rightarrow> Some (Inr
              \<lparr>allowed = True, reason = ''ok'', gd_token_id = token_id c, gd_chain = chain,
               attributable = False\<rparr>))" by (simp only: check_def sum.case option.case)
    have adm: "admitted E G c t agent args acting ts ps \<longleftrightarrow> verified_chain E G c ps" for ps
      using True pass by (simp only: admitted_def) blast
    have "check E G c t agent args acting ts = Some (Inr d) \<and> allowed d \<longleftrightarrow>
        (\<exists>ch. check_chain E G c = Some (Inr (ch, None)) \<and> d = \<lparr>allowed = True, reason = ''ok'',
           gd_token_id = token_id c, gd_chain = ch, attributable = False\<rparr>)"
      unfolding eq using check_chain_only_denies[of E G c]
      by (auto split: option.splits sum.splits)
    then show ?thesis unfolding adm check_chain_iff by blast
  next
    case False
    then have "\<not> (check E G c t agent args acting ts = Some (Inr d) \<and> allowed d)"
      using od by (auto simp: check_def only_denies_def split: sum.splits option.splits)
    then show ?thesis using False pass by (auto simp: admitted_def)
  qed
qed

lemma check_attributable:
  assumes "check E G c t agent args acting ts = Some (Inr d)" "attributable d"
  shows "identified E G c ts \<and> \<not> allowed d"
proof -
  have "\<not> attributable d" if "check_token_identity E G c ts = Inr (Some d)"
    using that by (auto simp: check_token_identity_def stages_refuse check_signature_def check_hybrid_signature_def
        check_token_id_def check_revocation_def check_time_bounds_def split: if_splits option.splits sum.splits pyexc.splits)
  moreover have "\<not> attributable d" if "check_chain E G c = Some (Inr (ch, Some d))" for ch
    using check_chain_only_denies that by blast
  moreover have "stages (check_attributable_binding E c t agent acting args) (check_proof_enforcement E G c)
      = Inr (Some d) \<Longrightarrow> \<not> allowed d"
    using only_denies_stages[OF only_denies_binding only_denies_basic(10)] unfolding only_denies_def by blast
  ultimately show ?thesis
    using assms unfolding check_def
    by (auto simp: stages_refuse check_token_identity_pass[symmetric] split: sum.splits option.splits prod.splits)
qed

lemma py_eq_PStr_right: "py_eq v (PStr s) \<longleftrightarrow> v = PStr s"
  by (cases v) (auto simp: num_eq_def split: option.splits)

lemma strict_proof_bound:
  assumes "check_proof_enforcement E G c = Inr None" "g_proof_mode G = Strict"
  shows "\<exists>h pr eh. policy_proof_hash c = PStr h \<and> map_of (g_trusted_proofs G) h = Some pr \<and> pr_status pr = PROVEN \<and>
    grammar_hash c = PStr (pr_grammar_hash pr) \<and> policy_hash c = PStr (pr_policy_hash pr) \<and>
    enforced_hash E c = Inr eh \<and> pr_policy_hash pr = eh"
  using assms
  by (auto simp: check_proof_enforcement_def check_proof_binding_def check_proof_hash_mismatch_def hash_mismatch_def
      Let_def lookup_raw_def py_eq_PStr_right is_str_iff split: if_splits option.splits)

lemma check_terminates:
  assumes "\<And>R. g_resolver G = Some R \<Longrightarrow> ranked R rk"
  shows "\<exists>r. check E G c t agent args acting ts = Some r"
proof -
  have "\<exists>r. check_chain E G c = Some r"
    using walk_terminates assms by (auto simp: check_chain_def split: option.splits)
  then show ?thesis by (auto simp: check_def split: sum.splits option.splits prod.splits)
qed

end
