(* ===== verification/LedgerLaws.thy ===== *)
theory LedgerLaws
  imports Ledger GateLaws
begin

text \<open>
  The invariant of the ledger, that its index is what a reload of the file gives, and the contract the
  gate relies on.  The locale \<open>token_store\<close> is that contract: a store answers an identifier with a token
  that carries it and that passed the parser, a registered token is found again with the same signed
  bytes, and other answers do not change.  It is interpreted on the ledger.
\<close>

section \<open>The contract\<close>

locale token_store =
  fixes inv :: "'s \<Rightarrow> bool"
    and find :: "'s \<Rightarrow> ustr \<Rightarrow> Capability option"
    and add :: "env \<Rightarrow> 's \<Rightarrow> Capability \<Rightarrow> 's option"
  assumes find_id: "inv s \<Longrightarrow> find s i = Some c \<Longrightarrow> token_id c = i \<and> parsed_ok c"
    and add_inv: "inv s \<Longrightarrow> add E s c = Some s' \<Longrightarrow> inv s'"
    and find_added: "inv s \<Longrightarrow> add E s c = Some s' \<Longrightarrow> parsed_ok c \<Longrightarrow>
      \<exists>c'. find s' (token_id c) = Some c' \<and> signed_material E c' = signed_material E c \<and> signature c' = signature c"
    and find_other: "inv s \<Longrightarrow> add E s c = Some s' \<Longrightarrow> i \<noteq> token_id c \<Longrightarrow> find s' i = find s i"
begin

text \<open>Along a verified chain every cited parent is the identifier of the next token, and none is revoked.\<close>

lemma chain_ids_cited:
  assumes "inv s" "ancestry E G (find s) c ps"
  shows "map Some (map token_id ps) = takeWhile (\<lambda>x. x \<noteq> None \<and> x \<noteq> Some []) (map parent_id (c # ps))"
  using assms(2)
proof (induction rule: ancestry.induct)
  case (link c pid p ps)
  then show ?case using find_id[OF assms(1)] by auto
qed (auto simp: is_root_def)

lemma cited_in_chain:
  assumes "inv s" "ancestry E G (find s) c ps" "d \<in> set (c # ps)" "parent_id d = Some i" "i \<noteq> []"
  shows "i \<in> token_id ` set ps"
  using assms(2-)
proof (induction rule: ancestry.induct)
  case (link c pid p ps)
  then show ?case using find_id[OF assms(1)] by auto
qed (auto simp: is_root_def)

lemma cited_not_revoked:
  assumes "inv s" "ancestry E G (find s) c ps" "d \<in> set (c # ps)" "parent_id d = Some i" "i \<noteq> []"
  shows "i \<notin> set (g_revoked G)"
  using assms(2-)
proof (induction rule: ancestry.induct)
  case (link c pid p ps)
  then show ?case using find_id[OF assms(1)] by auto
qed (auto simp: is_root_def)

fun add_all :: "env \<Rightarrow> 's \<Rightarrow> Capability list \<Rightarrow> 's option" where
  "add_all E s [] = Some s"
| "add_all E s (c # cs) = (case add E s c of None \<Rightarrow> None | Some s' \<Rightarrow> add_all E s' cs)"

lemma add_all_inv: "add_all E s cs = Some s' \<Longrightarrow> inv s \<Longrightarrow> inv s'"
  by (induction cs arbitrary: s) (auto split: option.splits dest: add_inv)

lemma add_all_other: "add_all E s cs = Some s' \<Longrightarrow> inv s \<Longrightarrow> i \<notin> token_id ` set cs \<Longrightarrow> find s' i = find s i"
proof (induction cs arbitrary: s)
  case (Cons d cs)
  then obtain s1 where s1: "add E s d = Some s1" "add_all E s1 cs = Some s'" by (auto split: option.splits)
  have "inv s1" using add_inv Cons.prems(2) s1(1) by blast
  then show ?case using Cons s1 find_other[OF Cons.prems(2) s1(1), of i] by simp
qed simp

lemma add_all_found:
  assumes "add_all E s cs = Some s'" "inv s" "c \<in> set cs" "distinct (map token_id cs)" "parsed_ok c"
  shows "\<exists>c'. find s' (token_id c) = Some c' \<and> signed_material E c' = signed_material E c"
  using assms
proof (induction cs arbitrary: s)
  case (Cons d cs)
  then obtain s1 where s1: "add E s d = Some s1" "add_all E s1 cs = Some s'" by (auto split: option.splits)
  have inv1: "inv s1" using add_inv Cons.prems(2) s1(1) by blast
  show ?case
  proof (cases "c \<in> set cs")
    case True
    then show ?thesis using Cons.IH[OF s1(2) inv1] Cons.prems by simp
  next
    case False
    then have "c = d" using Cons.prems(3) by simp
    then obtain c' where "find s1 (token_id c) = Some c'" "signed_material E c' = signed_material E c"
      using find_added[OF Cons.prems(2) s1(1)] Cons.prems(5) by blast
    moreover have "find s' (token_id c) = find s1 (token_id c)"
      using add_all_other[OF s1(2) inv1] Cons.prems(4) \<open>c = d\<close> by simp
    ultimately show ?thesis by simp
  qed
qed simp

end

section \<open>The ledger\<close>

definition indexed :: "(ustr \<times> pydict) list \<Rightarrow> bool" where
  "indexed rs = (distinct (map fst rs) \<and> (\<forall>i row. map_of rs i = Some row \<longrightarrow>
     (\<exists>cap. map_of row (lit ''capability'') = Some cap \<and> record_id cap = Inr i)))"

text \<open>The index is the file's.\<close>

definition coherent :: "LedgerDisk \<Rightarrow> DelegationLedger \<Rightarrow> bool" where
  "coherent D L = (load D = Inr L)"

lemma load_row_mtime: "load_row row L = Inr L' \<Longrightarrow> l_mtime L' = l_mtime L"
  by (auto simp: load_row_def split: option.splits)

lemma rfold_load_mtime: "rfold load_row rows L = Inr L' \<Longrightarrow> l_mtime L' = l_mtime L"
  by (induction rows arbitrary: L) (auto dest: load_row_mtime)

lemma load_row_indexed: "load_row row L = Inr L' \<Longrightarrow> indexed (l_records L) \<Longrightarrow> indexed (l_records L')"
  by (auto simp: load_row_def indexed_def distinct_dict_set split: option.splits if_splits)

lemma rfold_load_indexed: "rfold load_row rows L = Inr L' \<Longrightarrow> indexed (l_records L) \<Longrightarrow> indexed (l_records L')"
  by (induction rows arbitrary: L) (auto dest: load_row_indexed)

lemma coherent_indexed:
  assumes "coherent D L"
  shows "indexed (l_records L)" "l_mtime L = d_mtime D"
proof -
  have l: "rfold load_row (d_rows D) \<lparr>l_records = [], l_control_rows = [], l_mtime = d_mtime D\<rparr> = Inr L"
    using assms by (simp add: coherent_def load_def)
  show "indexed (l_records L)" by (rule rfold_load_indexed[OF l]) (simp add: indexed_def)
  show "l_mtime L = d_mtime D" using rfold_load_mtime[OF l] by simp
qed

lemma coherent_ensure_loaded: "coherent D L \<Longrightarrow> ensure_loaded D L = Inr L"
  by (simp add: ensure_loaded_def coherent_indexed(2))

lemma load_row_set_mtime:
  "load_row row (L\<lparr>l_mtime := m\<rparr>) = rbind (load_row row L) (\<lambda>L. Inr (L\<lparr>l_mtime := m\<rparr>))"
  by (auto simp: load_row_def rbind_def split: option.splits sum.splits)

lemma rfold_load_set_mtime:
  "rfold load_row rows (L\<lparr>l_mtime := m\<rparr>) = rbind (rfold load_row rows L) (\<lambda>L. Inr (L\<lparr>l_mtime := m\<rparr>))"
proof (induction rows arbitrary: L)
  case (Cons row rows)
  then show ?case by (cases "load_row row L") (auto simp: load_row_set_mtime)
qed simp

lemma to_dict_record_id:
  assumes "to_dict E c = Inr token"
  shows "record_id (PDict token) = Inr (token_id c)"
proof -
  obtain b where b: "body E c = Inr b" using assms by (auto simp: to_dict_def)
  then obtain n where n: "normalise_constraints E (constraints c) = Inr n" by (auto simp: body_def)
  show ?thesis using to_dict_lookup(2)[OF assms b body_lookup(15)[OF b n]] by (simp add: record_id_def dict_get_def)
qed

definition registered_row :: "pydict \<Rightarrow> ustr \<Rightarrow> ustr \<Rightarrow> pydict" where
  "registered_row token delegated_to h =
     [(lit ''capability'', PDict token), (lit ''delegated_to_agent'', PStr delegated_to), (lit ''record_hash'', PStr h)]"

lemma registerE:
  assumes "register E w st D L c dt key = Inr (D', L', h)" "coherent D L"
  obtains token D1 mtime where "to_dict E c = Inr token" "ledger_verify E key c = Inr ()" "signature c \<noteq> []"
    "hold_check w st token dt D L = Inr (D1, L)" "d_rows D1 = d_rows D" "d_mtime D1 = d_mtime D"
    "D' = D1\<lparr>d_rows := d_rows D @ [registered_row token dt h], d_mtime := mtime\<rparr>"
    "L' = L\<lparr>l_records := dict_set (token_id c) (registered_row token dt h) (l_records L), l_mtime := mtime\<rparr>"
proof -
  obtain token D1 L1 where t: "to_dict E c = Inr token" and v: "signature c \<noteq> []" "ledger_verify E key c = Inr ()"
    and h: "hold_check w st token dt D L = Inr (D1, L1)"
    and D': "D' = D1\<lparr>d_rows := d_rows D1 @ [registered_row token dt h],
        d_mtime := Some (case d_mtime D1 of None \<Rightarrow> 0 | Some n \<Rightarrow> Suc n)\<rparr>"
    and L': "L' = L1\<lparr>l_records := dict_set (token_id c) (registered_row token dt h) (l_records L1),
        l_mtime := Some (case d_mtime D1 of None \<Rightarrow> 0 | Some n \<Rightarrow> Suc n)\<rparr>"
    using assms(1) unfolding register_def Let_def rbind_eq_Inr_iff
    by (elim exE conjE) (simp add: registered_row_def rbind_eq_Inr_iff split: prod.splits)
  have "L1 = L" "d_rows D1 = d_rows D" "d_mtime D1 = d_mtime D"
    using h coherent_ensure_loaded[OF assms(2)]
    by (auto simp: hold_check_def propagate_hold_revocation_def Let_def split: option.splits if_splits)
  then show thesis using that t v h D' L' by simp
qed

lemma register_coherent:
  assumes "register E w st D L c dt key = Inr (D', L', h)" "coherent D L"
  shows "coherent D' L'"
proof -
  obtain token D1 mtime where t: "to_dict E c = Inr token" "d_rows D1 = d_rows D"
    and D': "D' = D1\<lparr>d_rows := d_rows D @ [registered_row token dt h], d_mtime := mtime\<rparr>"
    and L': "L' = L\<lparr>l_records := dict_set (token_id c) (registered_row token dt h) (l_records L), l_mtime := mtime\<rparr>"
    using assms by (rule registerE)
  let ?L0 = "\<lparr>l_records = [], l_control_rows = [], l_mtime = d_mtime D\<rparr>"
  have old: "rfold load_row (d_rows D) ?L0 = Inr L" using assms(2) by (simp add: coherent_def load_def)
  have row: "load_row (registered_row token dt h) X = Inr (X\<lparr>l_records := dict_set (token_id c) (registered_row token dt h) (l_records X)\<rparr>)" for X
    using to_dict_record_id[OF t(1)] by (simp add: load_row_def registered_row_def)
  have "rfold load_row (d_rows D @ [registered_row token dt h]) (?L0\<lparr>l_mtime := mtime\<rparr>) = Inr L'"
    unfolding rfold_append rfold_load_set_mtime old by (simp add: row L')
  then show ?thesis by (simp add: coherent_def load_def D')
qed

lemma resolver_coherent:
  "coherent D L \<Longrightarrow> ledger_resolver D L i = Option.bind (map_of (l_records L) i) parse_record"
  by (auto simp: ledger_resolver_def resolve_def coherent_ensure_loaded split: option.splits)

lemma parse_record_registered:
  assumes "parsed_ok c" "to_dict E c = Inr token"
  shows "\<exists>c'. parse_record (registered_row token dt h) = Some c' \<and> signed_material E c' = signed_material E c \<and>
    signature c' = signature c"
proof -
  obtain n where n: "normalise_constraints E (constraints c) = Inr n" using assms(2) by (auto simp: to_dict_def body_def)
  have "parse_record (registered_row token dt h) = Some (reparsed c n)"
    using from_dict_to_dict[OF assms n] by (simp add: parse_record_def registered_row_def)
  moreover have "signed_material E (reparsed c n) = signed_material E c"
    using reparsed_body[OF n] by (simp add: signed_material_def)
  ultimately show ?thesis by (simp add: reparsed_def)
qed

lemma from_dict_record_id: "from_dict cap = Inr c \<Longrightarrow> record_id cap = Inr i \<Longrightarrow> token_id c = i"
proof (cases cap)
  case (PDict d)
  assume "from_dict cap = Inr c" "record_id cap = Inr i"
  then show ?thesis
    unfolding from_dict_def PDict pyval.case rbind_eq_Inr_iff
    by (elim exE conjE) (clarsimp simp: require_token_str_field_iff record_id_def dict_get_def)
qed (auto simp: from_dict_def)

lemma registered_resolves:
  assumes reg: "register E w st D L c dt key = Inr (D', L', h)" and coh: "coherent D L"
    and c: "parsed_ok c" "normalise_constraints E (constraints c) = Inr n"
  shows "ledger_resolver D' L' (token_id c) = Some (reparsed c n)"
proof -
  obtain token mtime where t: "to_dict E c = Inr token"
    and L': "L' = L\<lparr>l_records := dict_set (token_id c) (registered_row token dt h) (l_records L), l_mtime := mtime\<rparr>"
    using reg coh by (rule registerE)
  show ?thesis
    using from_dict_to_dict[OF c(1) t c(2)] resolver_coherent[OF register_coherent[OF reg coh]]
    by (simp add: L' parse_record_def registered_row_def)
qed

definition ledger_add ::
  "(ustr \<Rightarrow> bool) \<Rightarrow> ustr \<Rightarrow> ustr \<Rightarrow> ustr option \<Rightarrow> env \<Rightarrow> LedgerDisk \<times> DelegationLedger \<Rightarrow> Capability \<Rightarrow>
     (LedgerDisk \<times> DelegationLedger) option" where
  "ledger_add w st dt key E s c = (case register E w st (fst s) (snd s) c dt key of
       Inl e \<Rightarrow> None | Inr (D', L', h) \<Rightarrow> Some (D', L'))"

lemma ledger_add_Some:
  "ledger_add w st dt key E s c = Some s' \<longleftrightarrow>
     (\<exists>h. register E w st (fst s) (snd s) c dt key = Inr (fst s', snd s', h))"
  by (cases s') (auto simp: ledger_add_def split: sum.splits)

interpretation ledger: token_store "\<lambda>s. coherent (fst s) (snd s)" "\<lambda>s. ledger_resolver (fst s) (snd s)"
  "ledger_add w st dt key" for w st dt key
proof
  fix s :: "LedgerDisk \<times> DelegationLedger" and s' i c E
  assume coh: "coherent (fst s) (snd s)"
  note res = resolver_coherent[OF coh]
  show "token_id c = i \<and> parsed_ok c" if found: "ledger_resolver (fst s) (snd s) i = Some c"
  proof -
    obtain r where r: "map_of (l_records (snd s)) i = Some r" "parse_record r = Some c"
      using found by (auto simp: res bind_eq_Some_conv)
    then obtain cap where "from_dict cap = Inr c" "record_id cap = Inr i"
      using coherent_indexed(1)[OF coh] by (fastforce simp: indexed_def parse_record_def split: option.splits sum.splits)
    then show ?thesis using from_dict_record_id from_dict_ok by blast
  qed
  assume "ledger_add w st dt key E s c = Some s'"
  then obtain h where reg: "register E w st (fst s) (snd s) c dt key = Inr (fst s', snd s', h)"
    by (auto simp: ledger_add_Some)
  show coh': "coherent (fst s') (snd s')" by (rule register_coherent[OF reg coh])
  note res' = resolver_coherent[OF coh']
  obtain token mtime where t: "to_dict E c = Inr token"
    and L': "snd s' = (snd s)\<lparr>l_records := dict_set (token_id c) (registered_row token dt h) (l_records (snd s)), l_mtime := mtime\<rparr>"
    using reg coh by (rule registerE)
  have recs: "l_records (snd s') = dict_set (token_id c) (registered_row token dt h) (l_records (snd s))"
    by (simp add: L')
  show "\<exists>c'. ledger_resolver (fst s') (snd s') (token_id c) = Some c' \<and>
      signed_material E c' = signed_material E c \<and> signature c' = signature c" if "parsed_ok c"
    using parse_record_registered[OF that t, of dt h] by (simp add: res' recs)
  show "ledger_resolver (fst s') (snd s') i = ledger_resolver (fst s) (snd s) i" if "i \<noteq> token_id c"
    using that by (simp add: res' res recs)
qed

section \<open>Holds\<close>

lemma hold_covers:
  assumes reg: "register E w st D L c dt key = Inr (D', L', h)" and coh: "coherent D L"
    and m: "marker \<in> set (active_containment_holds L)"
    and t: "to_dict E c = Inr token" and hit: "hits_hold dt (chain_ids L token) marker"
  shows "\<exists>path r. (path, r) \<in> set (d_revocations D') \<and> path \<noteq> [] \<and>
    map_of r (lit ''token_id'') = Some (PStr (token_id c))"
proof -
  obtain D1 mtime where hc: "hold_check w st token dt D L = Inr (D1, L)"
    and D': "D' = D1\<lparr>d_rows := d_rows D @ [registered_row token dt h], d_mtime := mtime\<rparr>"
    using registerE[OF reg coh] t by (metis sum.inject(2))
  obtain mk where mk: "List.find (hits_hold dt (chain_ids L token)) (active_containment_holds L) = Some mk"
    using m hit by (cases "List.find (hits_hold dt (chain_ids L token)) (active_containment_holds L)")
      (auto simp: find_None_iff)
  have "propagate_hold_revocation w st token mk D = Inr D1"
    using hc mk by (auto simp: hold_check_def coherent_ensure_loaded[OF coh])
  then have "(revocations_path mk, revocation_row st token mk) \<in> set (d_revocations D1)" "revocations_path mk \<noteq> []"
    by (auto simp: propagate_hold_revocation_def Let_def split: if_splits)
  moreover have "dict_get token (lit ''token_id'') (PStr []) = PStr (token_id c)"
    using to_dict_record_id[OF t] by (auto simp: record_id_def split: pyval.splits)
  ultimately show ?thesis
    by (intro exI[of _ "revocations_path mk"] exI[of _ "revocation_row st token mk"])
      (simp add: D' revocation_row_def)
qed

text \<open>A hold is active exactly when the last marker of its scope is a hold.\<close>

definition last_marker :: "pydict list \<Rightarrow> pyval \<times> pyval \<Rightarrow> pydict option" where
  "last_marker rows k = List.find (\<lambda>row. marker_key row = k \<and>
     (kind_is row ''containment_hold_active'' \<or> kind_is row ''containment_resume'')) (rev rows)"

lemma kinds_disjoint: "kind_is row ''containment_hold_active'' \<Longrightarrow> \<not> kind_is row ''containment_resume''"
  by (simp add: kind_is_def py_eq_PStr_right)

lemma hold_step_lookup:
  "map_of (hold_step row active) k =
     (if marker_key row = k \<and> kind_is row ''containment_hold_active'' then Some row
      else if marker_key row = k \<and> kind_is row ''containment_resume'' then None
      else map_of active k)"
  by (auto simp: hold_step_def delete_conv)

lemma fold_hold_step:
  "map_of (fold hold_step rows active) k = (case last_marker rows k of
       None \<Rightarrow> map_of active k
     | Some row \<Rightarrow> if kind_is row ''containment_hold_active'' then Some row else None)"
proof (induction rows rule: rev_induct)
  case (snoc row rows)
  then show ?case by (auto simp: last_marker_def hold_step_lookup)
qed (simp add: last_marker_def)

lemma distinct_hold_step: "distinct (map fst active) \<Longrightarrow> distinct (map fst (hold_step row active))"
  by (simp add: hold_step_def distinct_dict_set distinct_delete)

lemma distinct_fold_hold: "distinct (map fst active) \<Longrightarrow> distinct (map fst (fold hold_step rows active))"
  by (induction rows arbitrary: active) (auto simp: distinct_hold_step)

lemma active_holds_iff:
  "row \<in> set (active_containment_holds L) \<longleftrightarrow>
     (\<exists>k. last_marker (l_control_rows L) k = Some row \<and> kind_is row ''containment_hold_active'')"
proof -
  let ?f = "fold hold_step (l_control_rows L) []"
  have "row \<in> set (map snd ?f) \<longleftrightarrow> (\<exists>k. map_of ?f k = Some row)"
    using distinct_fold_hold[of "[]" "l_control_rows L"] by (force simp: map_of_eq_Some_iff)
  moreover have "map_of ?f k = Some row \<longleftrightarrow> last_marker (l_control_rows L) k = Some row \<and>
      kind_is row ''containment_hold_active''" for k
    unfolding fold_hold_step by (auto split: option.splits)
  ultimately show ?thesis unfolding active_containment_holds_def by auto
qed

section \<open>Chains and descendants\<close>

text \<open>The parent relation of the index.\<close>

definition parent_rel :: "DelegationLedger \<Rightarrow> (ustr \<times> ustr) set" where
  "parent_rel L = {(i, j). \<exists>row. map_of (l_records L) i = Some row \<and> record_parent row = Some j}"

lemma children_iff: "distinct (map fst (l_records L)) \<Longrightarrow> j \<in> set (children_of L i) \<longleftrightarrow> (j, i) \<in> parent_rel L"
  by (force simp: children_of_def parent_rel_def map_of_eq_Some_iff)

lemma descend_sound:
  "descend L out queue = Some r \<Longrightarrow> distinct (map fst (l_records L)) \<Longrightarrow>
    set r \<subseteq> set out \<union> {j. \<exists>i\<in>set queue. (j, i) \<in> (parent_rel L)\<^sup>*} \<and>
    set out \<union> {j. \<exists>i\<in>set queue. (j, i) \<in> (parent_rel L)\<^sup>+} \<subseteq> set r"
proof (induction rule: descend.raw_induct[rotated, consumes 1, case_names step])
  case (step walk L out queue r)
  show ?case
  proof (cases "queue = []")
    case False
    then obtain q x where q: "queue = q @ [x]" by (metis rev_exhaust)
    let ?cs = "children_of L x"
    have w: "walk L (out @ ?cs) (q @ ?cs) = Some r" using step(2) q by (simp add: Let_def)
    have cs: "set ?cs = {j. (j, x) \<in> parent_rel L}" using children_iff[OF step(3)] by auto
    have star: "(j, x) \<in> (parent_rel L)\<^sup>*" if "(j, i) \<in> (parent_rel L)\<^sup>*" "(i, x) \<in> parent_rel L" for i j
      using that by (rule rtrancl.rtrancl_into_rtrancl)
    have plus: "(j, x) \<in> parent_rel L \<or> (\<exists>i. (i, x) \<in> parent_rel L \<and> (j, i) \<in> (parent_rel L)\<^sup>+)"
      if "(j, x) \<in> (parent_rel L)\<^sup>+" for j
      using that by (meson trancl.cases)
    show ?thesis using step(1)[OF w step(3)] cs star plus q by (auto, blast+)
  qed (use step(2) in auto)
qed

lemma finite_parent_rel: "finite (parent_rel L)"
proof (rule finite_subset)
  show "parent_rel L \<subseteq> (\<lambda>(i, row). (i, the (record_parent row))) ` set (l_records L)"
    by (force simp: parent_rel_def dest: map_of_SomeD)
qed simp

lemma descend_terminates:
  assumes "acyclic (parent_rel L)" "distinct (map fst (l_records L))"
  shows "\<exists>r. descend L out queue = Some r"
proof -
  have "wf (mult1 (parent_rel L))"
    using finite_acyclic_wf[OF finite_parent_rel assms(1)] by (rule wf_mult1)
  then show ?thesis
  proof (induction "mset queue" arbitrary: out queue rule: wf_induct_rule)
    case less
    show ?case
    proof (cases "queue = []")
      case True
      then show ?thesis by (subst descend.simps) simp
    next
      case False
      then obtain q x where q: "queue = q @ [x]" by (metis rev_exhaust)
      have "(mset (q @ children_of L x), mset queue) \<in> mult1 (parent_rel L)"
        by (rule mult1I[of _ x "mset q" _ "mset (children_of L x)"])
          (simp_all add: q children_iff[OF assms(2)])
      then obtain r where "descend L (out @ children_of L x) (q @ children_of L x) = Some r"
        using less by blast
      then show ?thesis by (subst descend.simps) (simp add: q Let_def)
    qed
  qed
qed

section \<open>The ids of a chain\<close>

lemma chain_walk_mono: "set ids \<subseteq> set (chain_walk rs cur ids)"
proof (induction rs cur ids rule: chain_walk.induct)
  case (1 rs cur ids)
  show ?case
    by (subst chain_walk.simps) (use 1 in \<open>auto split: option.splits\<close>)
qed

text \<open>The walk returns a set closed under the parent relation.\<close>

lemma chain_walk_closed:
  assumes "\<forall>i\<in>set ids. \<forall>j. (i, j) \<in> parent_rel L \<longrightarrow> j \<in> set ids \<or> cur = Some j"
    and "i \<in> set (chain_walk (l_records L) cur ids)" "(i, j) \<in> parent_rel L"
  shows "j \<in> set (chain_walk (l_records L) cur ids)"
  using assms
proof (induction "l_records L" cur ids rule: chain_walk.induct)
  case (1 cur ids)
  show ?case
  proof (cases cur)
    case None
    then show ?thesis using 1 chain_walk.simps[of "l_records L" None ids] by simp
  next
    case (Some x)
    show ?thesis
    proof (cases "x \<in> set ids")
      case True
      then show ?thesis using 1(2-) Some chain_walk.simps[of "l_records L" "Some x" ids] by auto
    next
      case False
      show ?thesis
      proof (cases "map_of (l_records L) x")
        case None
        then have "(x, j) \<notin> parent_rel L" by (simp add: parent_rel_def)
        then show ?thesis using 1(2-) Some False None chain_walk.simps[of "l_records L" "Some x" ids] by auto
      next
        case row: (Some r)
        have eq: "chain_walk (l_records L) cur ids = chain_walk (l_records L) (record_parent r) (ids @ [x])"
          using Some False row chain_walk.simps[of "l_records L" "Some x" ids] by simp
        have "\<forall>i\<in>set (ids @ [x]). \<forall>j. (i, j) \<in> parent_rel L \<longrightarrow> j \<in> set (ids @ [x]) \<or> record_parent r = Some j"
          using 1(2) Some row by (auto simp: parent_rel_def)
        then show ?thesis using 1(1)[OF Some False row] 1(3,4) unfolding eq by blast
      qed
    qed
  qed
qed

lemma chain_walk_current: "cur = Some i \<Longrightarrow> i \<in> set (chain_walk rs cur ids)"
  by (subst chain_walk.simps)
    (use chain_walk_mono[of "ids @ [i]" rs] in \<open>auto split: option.splits\<close>)

lemma chain_ids_complete:
  assumes fresh: "map_of (l_records L) (str_of (dict_get token (lit ''token_id'') (PStr []))) = None"
    and cited: "cited_parent (get_or_none token ''parent_id'') = Some p" and up: "(p, j) \<in> (parent_rel L)\<^sup>*"
  shows "j \<in> set (chain_ids L token)"
  using up
proof (induction rule: rtrancl_induct)
  case base
  show ?case unfolding chain_ids_def by (rule chain_walk_current[OF cited])
next
  case (step i j)
  show ?case
    unfolding chain_ids_def
    by (rule chain_walk_closed[OF _ step(3)[unfolded chain_ids_def] step(2)])
      (use fresh in \<open>auto simp: parent_rel_def\<close>)
qed

end
