(* ===== verification/Delegation.thy ===== *)
theory Delegation
  imports LedgerLaws
begin

text \<open>
  The issuer and the gate together: a minted token is admitted, an allowed call is within the authority
  of every token above the one presented, and a revocation anywhere above it denies.
\<close>

section \<open>Minting and checking\<close>

text \<open>A gate that knows the issuer's key.\<close>

definition trusts :: "env \<Rightarrow> CapabilityGate \<Rightarrow> CapabilityIssuer \<Rightarrow> bool" where
  "trusts E G I = (\<exists>pem. map_of (g_issuers G) (iss_key_id I) = Some pem \<and>
     (\<forall>m. wf_bytes (iss_sign I m) \<and> ed_verify E pem (iss_sign I m) m))"

lemma well_signed_authentic:
  assumes "well_signed E I c" "key_id c = iss_key_id I" "trusts E G I"
  shows "authentic E G c"
  using assms b64_roundtrip by (fastforce simp: well_signed_def trusts_def authentic_def)

lemma mint_not_quantum: "mint E I now rq = Inr c \<Longrightarrow> \<not> rq_quantum rq \<Longrightarrow> pq_key_id c = PNone"
  by (erule mintE) (auto simp: sign_token_iff quantum_sign_iff)

lemma mint_no_intent: "mint E I now rq = Inr c \<Longrightarrow> rq_intent rq = PNone \<Longrightarrow> intent c = None"
  by (erule mintE) (auto simp: sign_token_iff quantum_sign_iff validate_intent_iff split: option.splits)

lemma mint_admitted:
  assumes m: "mint E I now rq = Inr c" and wf: "wf_token c" and G: "trusts E G I"
    and plain: "\<not> rq_quantum rq" "rq_intent rq = PNone" "\<not> truthy (rq_acting_for rq)" "g_proof_mode G = Off"
    and fresh: "token_id c \<notin> set (g_revoked G)"
    and time: "now + rq_not_before_offset rq \<le> ts" "ts < expires_at c"
    and agent: "\<forall>a. agent = Some a \<longrightarrow> re_match AGENT_ID_RE a \<and> sub_agent a (rq_agent_id rq)"
    and args: "permits E (constraints c) args"
  shows "check E G c (rq_tool rq) agent args acting ts = Some (Inr
    \<lparr>allowed = True, reason = ''ok'', gd_token_id = token_id c, gd_chain = [], attributable = False\<rparr>)"
proof -
  note f = mint_fields[OF m]
  have ws: "well_signed E I c" by (rule mint_well_signed[OF m])
  have "identified E G c ts"
    using well_signed_authentic[OF ws f(4) G] ws mint_not_quantum[OF m plain(1)] fresh time f(6,7)
    by (auto simp: identified_def hybrid_ok_def well_signed_def)
  then have "admitted E G c (rq_tool rq) agent args acting ts []"
    using f plain agent args mint_no_intent[OF m plain(2)]
    by (simp add: admitted_def caller_ok_def intent_ok_def verified_chain_def check_proof_enforcement_def pass_def)
  then show ?thesis using check_allows_iff[OF wf] by fastforce
qed

section \<open>Authority along a chain\<close>

lemma allowed_verified:
  assumes "check E G c t agent args acting ts = Some (Inr d)" "allowed d" "wf_token c"
  obtains ps where "admitted E G c t agent args acting ts ps" "gd_chain d = map token_id ps"
  using assms check_allows_iff[OF assms(3), of E G t agent args acting ts d] by auto

lemma ancestor_verified:
  assumes "verified_chain E G c ps" "g_resolver G = Some R" "ancestor R c p"
  shows "ancestry E G R c ps" "p \<in> set ps"
proof -
  have "parent_id c \<noteq> None" using assms(3) by (auto elim: ancestor.cases)
  then show "ancestry E G R c ps" using assms(1,2) by (auto simp: verified_chain_def)
  then show "p \<in> set ps" using ancestor_in_chain assms(3) by blast
qed

lemma ancestry_resolved: "ancestry E G R c ps \<Longrightarrow> p \<in> set ps \<Longrightarrow> \<exists>i. R i = Some p"
  by (induction rule: ancestry.induct) auto

lemma allowed_within_ancestor:
  assumes chk: "check E G c t agent args acting ts = Some (Inr d)" "allowed d" "wf_token c"
    and R: "g_resolver G = Some R" "\<And>i q. R i = Some q \<Longrightarrow> wf_token q \<and> plain_prefixes (constraints q)"
    and p: "ancestor R c p"
  shows "authentic E G p \<and> token_id p \<notin> set (g_revoked G) \<and> token_id p \<in> set (gd_chain d) \<and>
    tool p = t \<and> not_before p \<le> ts \<and> ts < expires_at p \<and> permits E (constraints p) args \<and>
    (\<forall>a. agent = Some a \<longrightarrow> sub_agent a (agent_id p))"
proof -
  obtain ps where ps: "admitted E G c t agent args acting ts ps" "gd_chain d = map token_id ps"
    using allowed_verified[OF chk] by blast
  then have an: "ancestry E G R c ps" "p \<in> set ps"
    using ancestor_verified[OF _ R(1) p] by (auto simp: admitted_def)
  have "narrower E c p"
    using ancestry_narrower[OF an(1) chk(3) _ an(2)] ancestry_resolved[OF an(1)] R(2) by blast
  then show ?thesis
    using ps an ancestry_not_revoked[OF an]
    by (auto simp: admitted_def identified_def narrower_def caller_ok_def intro: sub_agent_trans)
qed

lemma revoked_ancestor_denied:
  assumes chk: "check E G c t agent args acting ts = Some (Inr d)" "wf_token c"
    and p: "p = c \<or> (\<exists>R. g_resolver G = Some R \<and> ancestor R c p)" "token_id p \<in> set (g_revoked G)"
  shows "\<not> allowed d"
proof
  assume "allowed d"
  then obtain ps where ps: "admitted E G c t agent args acting ts ps" using allowed_verified[OF chk(1) _ chk(2)] by blast
  show False
    using p(1)
  proof
    assume "p = c"
    then show False using ps p(2) by (simp add: admitted_def identified_def)
  next
    assume "\<exists>R. g_resolver G = Some R \<and> ancestor R c p"
    then obtain R where R: "g_resolver G = Some R" "ancestor R c p" by blast
    have "verified_chain E G c ps" using ps by (simp add: admitted_def)
    from ancestry_not_revoked[OF ancestor_verified[OF this R]] p(2) show False by blast
  qed
qed

lemma revoke_simps [simp]:
  "set (g_revoked (revoke G i)) = insert i (set (g_revoked G))" "g_resolver (revoke G i) = g_resolver G"
  by (simp_all add: revoke_def)

end
