(* ===== verification/Examples.thy ===== *)
theory Examples
  imports Delegation "HOL-Library.Code_Target_Nat"
begin

text \<open>
  A worked delegation, for the witnesses: an issuer, a minted token, a child attenuated from it, a gate
  that resolves the parent, and a ledger both are registered in.  The environment \<open>env0\<close> instantiates
  the external functions with small total ones: a checksum for the digest, and a signature that is the
  first six bytes of the message.  Every fact is evaluated in the kernel.
\<close>

lemma utf8_cont_code [code]:
  "utf8_cont n lo hi acc bs = (if n = 0 then (Some acc, bs) else (case bs of
       [] \<Rightarrow> (None, [])
     | b # r \<Rightarrow> if lo \<le> b \<and> b \<le> hi then utf8_cont (n - 1) 0x80 0xBF (64 * acc + (b - 0x80)) r else (None, b # r)))"
  by (cases n; cases bs) simp_all

section \<open>An issuer and its tokens\<close>

definition env0 :: env where
  "env0 = \<lparr>nfc = (\<lambda>s. s), netloc_ok = (\<lambda>_. True),
     sha256 = (\<lambda>bs. sum_list bs mod 256 # length bs mod 256 # replicate 30 0),
     float_repr = (\<lambda>_. []), ed_verify = (\<lambda>pem sig msg. pem = lit ''pem'' \<and> sig = map (\<lambda>b. b mod 256) (take 6 msg)),
     pq_verify = (\<lambda>key sig msg. False), pq_load = Some\<rparr>"

definition issuer0 :: CapabilityIssuer where
  "issuer0 = \<lparr>iss_issuer = lit ''acme'', iss_pem = lit ''pem'', iss_key_id = lit ''key0'',
     iss_require_proof = False, iss_sign = (\<lambda>m. map (\<lambda>b. b mod 256) (take 6 m)), iss_pq = None\<rparr>"

definition limit :: "int \<Rightarrow> pydict" where
  "limit n = [(lit ''max_value'', PDict [(lit ''amount'', PInt n)])]"

definition pay :: "int \<Rightarrow> pydict" where
  "pay n = [(lit ''amount'', PInt n)]"

definition request0 :: MintRequest where
  "request0 = \<lparr>rq_agent_id = lit ''agent:a'', rq_tool = lit ''pay'', rq_constraints = Some (limit 10),
     rq_ttl = PInt 60, rq_not_before_offset = 0, rq_policy_proof_hash = PNone, rq_proof = None,
     rq_grammar_hash = PNone, rq_policy_hash = PNone, rq_quantum = False, rq_intent = PNone,
     rq_acting_for = PNone\<rparr>"

definition parent0 :: Capability where
  "parent0 = \<lparr>token_id = lit ''cap:43f000000000000000000000'', agent_id = lit ''agent:a'', tool = lit ''pay'',
     constraints = limit 10, issuer = lit ''acme'', key_id = lit ''key0'', issued_at = 100,
     not_before = 100, expires_at = 160, parent_id = None, intent = None, acting_for = PNone,
     policy_proof_hash = PNone, grammar_hash = PNone, policy_hash = PNone, signature = lit ''eyJhZ2Vu'',
     pq_key_id = PNone, pq_signature = PNone\<rparr>"

definition child0 :: Capability where
  "child0 = \<lparr>token_id = lit ''cap:5d0b00000000000000000000'', agent_id = lit ''agent:a.b'', tool = lit ''pay'',
     constraints = limit 5, issuer = lit ''acme'', key_id = lit ''key0'', issued_at = 110,
     not_before = 110, expires_at = 160, parent_id = Some (token_id parent0), intent = None,
     acting_for = PNone, policy_proof_hash = PNone, grammar_hash = PNone, policy_hash = PNone,
     signature = lit ''eyJhZ2Vu'', pq_key_id = PNone, pq_signature = PNone\<rparr>"

lemma mint_parent0: "mint env0 issuer0 100 request0 = Inr parent0"
  by code_simp

lemma attenuate_child0:
  "attenuate env0 issuer0 110 110 parent0 (Some (limit 5)) None (Some (agent_id child0)) PNone PNone = Inr child0"
  by code_simp

lemma wf_parent0: "wf_token parent0"
  by (simp add: wf_token_def parent0_def limit_def opt_str_def)

lemma wf_child0: "wf_token child0"
  by (simp add: wf_token_def child0_def parent0_def limit_def opt_str_def)

section \<open>A gate\<close>

definition resolver0 :: resolver where
  "resolver0 i = (if i = token_id parent0 then Some parent0 else None)"

definition gate0 :: CapabilityGate where
  "gate0 = \<lparr>g_issuers = [(lit ''key0'', lit ''pem'')], g_resolver = Some resolver0, g_proof_mode = Off,
     g_trusted_proofs = [], g_revoked = [], g_pq_public_keys = []\<rparr>"

definition ok0 :: GateDecision where
  "ok0 = \<lparr>allowed = True, reason = ''ok'', gd_token_id = token_id child0,
     gd_chain = [token_id parent0], attributable = False\<rparr>"

declare verify_ancestor_chain.simps [code]

lemma check_child0:
  "check env0 gate0 child0 (lit ''pay'') (Some (lit ''agent:a.b'')) (pay 3) PNone 120 = Some (Inr ok0)"
  by code_simp

definition over0 :: GateDecision where
  "over0 = deny_attributable ''constraint violated: exceeding max_value'' (token_id child0)"

lemma check_over0:
  "check env0 gate0 child0 (lit ''pay'') (Some (lit ''agent:a.b'')) (pay 7) PNone 120 = Some (Inr over0)"
  by code_simp

definition revoked0 :: GateDecision where
  "revoked0 = deny ''parent token is revoked'' (token_id child0)"

lemma check_revoked0:
  "check env0 (revoke gate0 (token_id parent0)) child0 (lit ''pay'') (Some (lit ''agent:a.b'')) (pay 3) PNone 120 =
     Some (Inr revoked0)"
  by code_simp

lemma authentic_child0: "authentic env0 gate0 child0"
  unfolding check_signature_pass[symmetric] by code_simp

lemma narrowing_child0: "attenuation_violation env0 child0 parent0 = Inr None" "attenuation_violation env0 child0 child0 = Inr None"
  by code_simp+

lemma normalise_parent0: "normalise_constraints env0 (constraints parent0) = Inr (limit 10)"
  by code_simp

lemma plain_parent0: "plain_prefixes (constraints parent0)"
  by code_simp

lemma ancestor_parent0: "ancestor resolver0 child0 parent0"
  by (rule ancestor.parent[of _ "token_id parent0"]) (simp_all add: child0_def resolver0_def parent0_def)

lemma trusts_issuer0: "trusts env0 gate0 issuer0"
  by (auto simp: trusts_def gate0_def issuer0_def env0_def wf_bytes_def list_all_iff)

section \<open>A proven policy\<close>

definition proof0 :: ProofResult where
  "proof0 = \<lparr>pr_status = PROVEN, pr_hash = lit ''sha256:p'', pr_grammar_hash = lit ''sha256:g'',
     pr_policy_hash = lit ''sha256:a31b000000000000000000000000000000000000000000000000000000000000''\<rparr>"

definition strict0 :: CapabilityIssuer where
  "strict0 = issuer0\<lparr>iss_require_proof := True\<rparr>"

definition proven0 :: Capability where
  "proven0 = projr (mint env0 strict0 100 (request0\<lparr>rq_proof := Some proof0\<rparr>))"

lemma mint_proven0: "mint env0 strict0 100 (request0\<lparr>rq_proof := Some proof0\<rparr>) = Inr proven0"
  by code_simp

definition strict_gate0 :: CapabilityGate where
  "strict_gate0 = gate0\<lparr>g_proof_mode := Strict, g_trusted_proofs := [(lit ''sha256:p'', proof0)]\<rparr>"

lemma strict_proven0: "check_proof_enforcement env0 strict_gate0 proven0 = Inr None"
  by code_simp

section \<open>A ledger\<close>

definition marker0 :: pydict where
  "marker0 = [(lit ''kind'', PStr (lit ''containment_hold_active'')), (lit ''scope'', PStr (lit ''agent'')),
     (lit ''scope_id'', PStr (lit ''agent:a'')), (lit ''revocations_path'', PStr (lit ''rev.jsonl''))]"

definition disk0 :: LedgerDisk where
  "disk0 = \<lparr>d_rows = [marker0], d_mtime = Some 0, d_revocations = []\<rparr>"

definition ledger0 :: DelegationLedger where
  "ledger0 = projr (load disk0)"

lemma load_ledger0: "load disk0 = Inr ledger0"
  by code_simp

abbreviation register0 :: "LedgerDisk \<Rightarrow> DelegationLedger \<Rightarrow> Capability \<Rightarrow> (LedgerDisk \<times> DelegationLedger \<times> ustr) res" where
  "register0 D L c \<equiv> register env0 (\<lambda>_. True) (lit ''t0'') D L c (agent_id c) (Some (lit ''pem''))"

definition disk1 :: LedgerDisk where
  "disk1 = fst (projr (register0 disk0 ledger0 parent0))"

definition ledger1 :: DelegationLedger where
  "ledger1 = fst (snd (projr (register0 disk0 ledger0 parent0)))"

definition hash1 :: ustr where
  "hash1 = snd (snd (projr (register0 disk0 ledger0 parent0)))"

lemma registered_parent0: "\<not> isl (register0 disk0 ledger0 parent0)"
  by code_simp

lemma register_parent0: "register0 disk0 ledger0 parent0 = Inr (disk1, ledger1, hash1)"
  using registered_parent0 by (cases "register0 disk0 ledger0 parent0") (auto simp: disk1_def ledger1_def hash1_def)

end
