(* ===== verification/Merkle.thy ===== *)
theory Merkle
  imports PyBase
begin

text \<open>
  Binary hash trees, as \<open>raucle/conformance.py\<close> and \<open>raucle/audit.py\<close> fold them: level by level, an odd
  last digest paired with itself.  The node function is an argument; the two modules differ only in how a
  node's children are encoded before hashing.  The locale \<open>merkle\<close> is that encoding's contract, that two
  pairs of digests with the same encoding are the same, and holds what follows for any digest function:
  a root fixes the leaves of a given number, and a membership path leads to the root exactly from a leaf.
\<close>

section \<open>Trees and paths\<close>

fun fold_level :: "(bytes \<Rightarrow> bytes \<Rightarrow> bytes) \<Rightarrow> bytes list \<Rightarrow> bytes list" where
  "fold_level node [] = []"
| "fold_level node [x] = [node x x]"
| "fold_level node (x # y # r) = node x y # fold_level node r"

lemma length_fold_level [simp]: "length (fold_level node xs) = Suc (length xs) div 2"
  by (induction node xs rule: fold_level.induct) auto

function fold_root :: "(bytes \<Rightarrow> bytes \<Rightarrow> bytes) \<Rightarrow> bytes list \<Rightarrow> bytes" where
  "fold_root node level = (if length level > 1 then fold_root node (fold_level node level) else hd level)"
  by pat_completeness auto
termination
  by (relation "measure (\<lambda>(node, level). length level)") auto

declare fold_root.simps [simp del]

definition sibling :: "bytes list \<Rightarrow> nat \<Rightarrow> bool \<times> bytes" where
  "sibling level i = (if even i then (False, if Suc i < length level then level ! Suc i else level ! i)
     else (True, level ! (i - 1)))"

function merkle_path :: "(bytes \<Rightarrow> bytes \<Rightarrow> bytes) \<Rightarrow> bytes list \<Rightarrow> nat \<Rightarrow> (bool \<times> bytes) list" where
  "merkle_path node level i = (if length level > 1
     then sibling level i # merkle_path node (fold_level node level) (i div 2) else [])"
  by pat_completeness auto
termination
  by (relation "measure (\<lambda>(node, level, i). length level)") auto

declare merkle_path.simps [simp del]

fun climb :: "(bytes \<Rightarrow> bytes \<Rightarrow> bytes) \<Rightarrow> bytes \<Rightarrow> (bool \<times> bytes) list \<Rightarrow> bytes" where
  "climb node d [] = d"
| "climb node d ((is_right, sib) # p) = climb node (if is_right then node sib d else node d sib) p"

lemma fold_level_pair:
  "y \<in> set (fold_level node xs) \<Longrightarrow> \<exists>a\<in>set xs. \<exists>b\<in>set xs. y = node a b"
  by (induction node xs rule: fold_level.induct) auto

lemma nth_fold_level:
  "i < length xs \<Longrightarrow> fold_level node xs ! (i div 2) =
     (let (is_right, sib) = sibling xs i in if is_right then node sib (xs ! i) else node (xs ! i) sib)"
proof (induction node xs arbitrary: i rule: fold_level.induct)
  case (3 node x y r)
  consider "i = 0" | "i = 1" | j where "i = Suc (Suc j)" by (metis One_nat_def not0_implies_Suc)
  then show ?case
  proof cases
    case 3
    then have "sibling (x # y # r) i = sibling r j" using "3.prems" by (auto simp: sibling_def nth_Cons split: nat.splits)
    then show ?thesis using "3.IH"[of j] "3.prems" 3 by (simp split: prod.splits)
  qed (auto simp: sibling_def)
qed (auto simp: sibling_def)

text \<open>A path made from the tree leads to its root.\<close>

lemma climb_merkle_path:
  "i < length level \<Longrightarrow> climb node (level ! i) (merkle_path node level i) = fold_root node level"
proof (induction node level i rule: merkle_path.induct)
  case (1 node level i)
  show ?case
  proof (cases "length level > 1")
    case True
    have "i div 2 < length (fold_level node level)" using "1.prems" by simp
    from "1.IH"[OF True this] nth_fold_level[OF "1.prems", of node] show ?thesis
      using True by (auto simp: fold_root.simps[of node level] merkle_path.simps[of node level] split: prod.splits)
  next
    case False
    then have "level = [level ! 0]" "i = 0" using "1.prems" by (cases level; simp)+
    then show ?thesis using False by (metis climb.simps(1) fold_root.simps hd_Cons_tl list.sel(1) list.discI merkle_path.simps)
  qed
qed

lemma fold_root_digest:
  "level \<noteq> [] \<Longrightarrow> \<forall>x\<in>set level. P x \<Longrightarrow> (\<And>l r. P (node l r)) \<Longrightarrow> P (fold_root node level)"
proof (induction node level rule: fold_root.induct)
  case (1 node level)
  show ?case
  proof (cases "length level > 1")
    case True
    have "length (fold_level node level) > 0" using True by simp
    then have "fold_level node level \<noteq> []" by (rule length_greater_0_conv[THEN iffD1])
    moreover have "\<forall>x\<in>set (fold_level node level). P x" using fold_level_pair 1(4) by metis
    ultimately show ?thesis using 1(1)[OF True] 1(4) True by (simp add: fold_root.simps[of node level])
  qed (use 1(2,3) in \<open>simp add: fold_root.simps[of node level]\<close>)
qed

lemma sibling_mem: "i < length level \<Longrightarrow> snd (sibling level i) \<in> set level"
  by (auto simp: sibling_def)

lemma merkle_path_digests:
  "i < length level \<Longrightarrow> \<forall>x\<in>set level. P x \<Longrightarrow> (\<And>l r. P (node l r)) \<Longrightarrow> \<forall>e\<in>set (merkle_path node level i). P (snd e)"
proof (induction node level i rule: merkle_path.induct)
  case (1 node level i)
  show ?case
  proof (cases "length level > 1")
    case True
    have "\<forall>x\<in>set (fold_level node level). P x" using fold_level_pair 1(4) by metis
    then show ?thesis
      using 1(1)[OF True] 1(2-4) True sibling_mem by (auto simp: merkle_path.simps[of node level i])
  qed (simp add: merkle_path.simps[of node level i])
qed

section \<open>Binding\<close>

locale merkle =
  fixes H :: "bytes \<Rightarrow> bytes" and enc :: "bytes \<Rightarrow> bytes \<Rightarrow> bytes"
  assumes enc_inj: "length l = length l' \<Longrightarrow> enc l r = enc l' r' \<Longrightarrow> l = l' \<and> r = r'"
begin

abbreviation node :: "bytes \<Rightarrow> bytes \<Rightarrow> bytes" where
  "node l r \<equiv> H (enc l r)"

text \<open>The messages hashed while a level is folded, a tree is built, and a path is climbed.\<close>

fun level_inputs :: "bytes list \<Rightarrow> bytes set" where
  "level_inputs [] = {}"
| "level_inputs [x] = {enc x x}"
| "level_inputs (x # y # r) = insert (enc x y) (level_inputs r)"

function tree_inputs :: "bytes list \<Rightarrow> bytes set" where
  "tree_inputs level = (if length level > 1 then level_inputs level \<union> tree_inputs (fold_level node level) else {})"
  by pat_completeness auto
termination
  by (relation "measure length") auto

declare tree_inputs.simps [simp del]

fun climb_inputs :: "bytes \<Rightarrow> (bool \<times> bytes) list \<Rightarrow> bytes set" where
  "climb_inputs d [] = {}"
| "climb_inputs d ((is_right, sib) # p) = (let m = if is_right then enc sib d else enc d sib
     in insert m (climb_inputs (H m) p))"

lemma fold_level_inj:
  assumes "inj_on H (level_inputs xs \<union> level_inputs ys)" "length xs = length ys"
    "\<forall>x\<in>set xs \<union> set ys. length x = n" "fold_level node xs = fold_level node ys"
  shows "xs = ys"
  using assms(2,1,3,4)
proof (induction xs arbitrary: ys rule: level_inputs.induct)
  case (2 x)
  then obtain y where "ys = [y]" by (cases ys) auto
  then show ?case using 2 enc_inj[of x y x y] by (auto dest: inj_onD)
next
  case (3 x y r)
  then obtain x' y' r' where ys: "ys = x' # y' # r'" by (cases ys rule: level_inputs.cases) auto
  have "inj_on H (level_inputs r \<union> level_inputs r')" using 3(3) ys by (auto intro: inj_on_subset)
  then have "r = r'" using 3(1)[of r'] 3(2,4,5) ys by simp
  moreover have "enc x y = enc x' y'" using 3(5) ys by (rule_tac inj_onD[OF 3(3)]) auto
  moreover have "length x = length x'" using 3(4) ys by simp
  ultimately show ?case using enc_inj[of x x' y y'] ys by simp
qed simp

lemma digest_level: "\<forall>m. length (H m) = n \<Longrightarrow> x \<in> set (fold_level node xs) \<Longrightarrow> length x = n"
  using fold_level_pair by blast

text \<open>Two trees over equally many digests with one root have the same leaves.\<close>

lemma fold_root_inj:
  assumes "\<forall>m. length (H m) = n"
  shows "length xs = length ys \<Longrightarrow> xs \<noteq> [] \<Longrightarrow> \<forall>x\<in>set xs \<union> set ys. length x = n \<Longrightarrow>
    inj_on H (tree_inputs xs \<union> tree_inputs ys) \<Longrightarrow> fold_root node xs = fold_root node ys \<Longrightarrow> xs = ys"
proof (induction xs arbitrary: ys rule: tree_inputs.induct)
  case (1 xs)
  show ?case
  proof (cases "length xs > 1")
    case True
    have ti: "tree_inputs xs = level_inputs xs \<union> tree_inputs (fold_level node xs)"
      "tree_inputs ys = level_inputs ys \<union> tree_inputs (fold_level node ys)"
      using True 1(2) by (simp_all add: tree_inputs.simps[of xs] tree_inputs.simps[of ys])
    have sub: "inj_on H (tree_inputs (fold_level node xs) \<union> tree_inputs (fold_level node ys))"
      "inj_on H (level_inputs xs \<union> level_inputs ys)"
      using 1(5) unfolding ti by (auto intro: inj_on_subset)
    have "fold_level node xs = fold_level node ys"
    proof (rule 1(1)[OF True])
      show "\<forall>x\<in>set (fold_level node xs) \<union> set (fold_level node ys). length x = n" using digest_level[OF assms] by blast
      show "fold_root node (fold_level node xs) = fold_root node (fold_level node ys)"
        using 1(6) True 1(2) by (simp add: fold_root.simps[of node xs] fold_root.simps[of node ys])
      show "fold_level node xs \<noteq> []" using True by (metis length_fold_level One_nat_def div_greater_zero_iff length_greater_0_conv less_SucI less_eq_Suc_le numeral_2_eq_2 zero_less_numeral)
    qed (use 1(2) sub in simp_all)
    then show ?thesis using fold_level_inj sub(2) 1(2,4) by blast
  next
    case False
    then obtain x y where "xs = [x]" "ys = [y]" using 1(2,3) by (cases xs; cases ys) auto
    then show ?thesis using 1(6) by (simp add: fold_root.simps)
  qed
qed

lemma climb_snoc: "climb node d (p @ [(is_right, sib)]) = (if is_right then node sib (climb node d p) else node (climb node d p) sib)"
  by (induction node d p rule: climb.induct) (auto simp: fold_level.simps)

lemma climb_inputs_snoc:
  "climb_inputs d (p @ [(is_right, sib)]) = insert (if is_right then enc sib (climb node d p) else enc (climb node d p) sib) (climb_inputs d p)"
  by (induction d p rule: climb_inputs.induct) (auto simp: Let_def)

lemma climb_inputs_mono: "climb_inputs d q \<subseteq> climb_inputs d (q @ r)"
  by (induction d q rule: climb_inputs.induct) (auto simp: Let_def)

lemma climb_length: "\<forall>m. length (H m) = n \<Longrightarrow> length d = n \<Longrightarrow> length (climb node d p) = n"
  by (induction p rule: rev_induct) (auto simp: climb_snoc)

lemma fold_level_node:
  "y \<in> set (fold_level node xs) \<Longrightarrow> \<exists>a b. y = node a b \<and> enc a b \<in> level_inputs xs \<and> a \<in> set xs \<and> b \<in> set xs"
  by (induction xs rule: level_inputs.induct) auto

text \<open>
  Conversely, a path that leads to the root passes through a leaf of the tree, or starts above the leaves.
\<close>

lemma climb_through:
  assumes "\<forall>m. length (H m) = n" "length d = n" "\<forall>(b, s)\<in>set p. length s = n"
  shows "xs \<noteq> [] \<Longrightarrow> \<forall>x\<in>set xs. length x = n \<Longrightarrow> inj_on H (tree_inputs xs \<union> climb_inputs d p) \<Longrightarrow>
    climb node d p = fold_root node xs \<Longrightarrow>
    (\<exists>q r. p = q @ r \<and> climb node d q \<in> set xs) \<or> d \<in> H ` tree_inputs xs"
proof (induction xs rule: tree_inputs.induct)
  case (1 xs)
  show ?case
  proof (cases "length xs > 1")
    case True
    let ?ys = "fold_level node xs"
    have ti: "tree_inputs xs = level_inputs xs \<union> tree_inputs ?ys" using True by (simp add: tree_inputs.simps[of xs])
    have "length ?ys > 0" using True by simp
    then have ne: "?ys \<noteq> []" by (metis length_greater_0_conv)
    have "(\<exists>q r. p = q @ r \<and> climb node d q \<in> set ?ys) \<or> d \<in> H ` tree_inputs ?ys"
    proof (rule 1(1)[OF True ne])
      show "inj_on H (tree_inputs ?ys \<union> climb_inputs d p)" using 1(4) unfolding ti by (auto intro: inj_on_subset)
      show "climb node d p = fold_root node ?ys" using 1(5) True by (simp add: fold_root.simps[of node xs])
    qed (use digest_level[OF assms(1)] in blast)
    then show ?thesis
    proof
      assume "\<exists>q r. p = q @ r \<and> climb node d q \<in> set ?ys"
      then obtain q r where q: "p = q @ r" "climb node d q \<in> set ?ys" by blast
      obtain a b where ab: "climb node d q = node a b" "enc a b \<in> level_inputs xs" "a \<in> set xs" "b \<in> set xs"
        using fold_level_node[OF q(2)] by blast
      show ?thesis
      proof (cases q rule: rev_cases)
        case Nil
        then show ?thesis using ab ti by auto
      next
        case (snoc q' e)
        obtain is_right sib where e: "e = (is_right, sib)" by (cases e)
        let ?m = "if is_right then enc sib (climb node d q') else enc (climb node d q') sib"
        have "?m \<in> climb_inputs d p" using q(1) snoc e climb_inputs_mono[of d q r] by (auto simp: climb_inputs_snoc)
        moreover have "H ?m = H (enc a b)" using ab(1) snoc e by (auto simp: climb_snoc)
        ultimately have "?m = enc a b" using ab(2) ti by (rule_tac inj_onD[OF 1(4)]) auto
        moreover have "length sib = n" using assms(3) q(1) snoc e by auto
        moreover have "length (climb node d q') = n" by (rule climb_length[OF assms(1,2)])
        moreover have "length a = n" using 1(3) ab(3) by simp
        ultimately have "climb node d q' = a \<or> climb node d q' = b"
          using enc_inj[of sib a "climb node d q'" b] enc_inj[of "climb node d q'" a sib b] by (cases is_right) simp_all
        then have "climb node d q' \<in> set xs" using ab(3,4) by auto
        then show ?thesis using q(1) snoc by auto
      qed
    qed (use ti in auto)
  next
    case False
    then obtain x where "xs = [x]" using 1(2) by (cases xs) auto
    then show ?thesis using 1(5) by (auto simp: fold_root.simps)
  qed
qed

end

end
