(* ===== verification/Conformance.thy ===== *)
theory Conformance
  imports Merkle Token
begin

text \<open>
  Field-level argument commitments, \<open>raucle/conformance.py\<close>: the hash tree over the call arguments, the
  disclosure of single fields with their paths, its verification against the committed root, and the
  verifier-side re-check of the constraints on what was disclosed.  Value encoding is the canonical encoder
  of \<open>Token\<close>, which \<open>raucle/provenance.py\<close> repeats; a path entry, a Python pair, is a list of two values.
\<close>

section \<open>The commitment\<close>

definition dom_sep :: bytes where "dom_sep = lit ''raucle/d1'' @ [0]"

definition leaf_mark :: bytes where "leaf_mark = [108, 0]"

definition node_mark :: bytes where "node_mark = [110, 0]"

abbreviation HASH_PREFIX :: ustr where "HASH_PREFIX \<equiv> lit ''sha256:''"

definition leaf_input :: "env \<Rightarrow> ustr \<Rightarrow> pyval \<Rightarrow> bytes res" where
  "leaf_input E fld v =
     rbind (utf8_encode_strict fld) (\<lambda>name.
     rbind (canonical_json E v) (\<lambda>val.
     Inr (dom_sep @ leaf_mark @ name @ [0] @ val)))"

definition conf_leaf :: "env \<Rightarrow> ustr \<Rightarrow> pyval \<Rightarrow> bytes res" where
  "conf_leaf E fld v = rbind (leaf_input E fld v) (\<lambda>m. Inr (sha256 E m))"

definition node_input :: "bytes \<Rightarrow> bytes \<Rightarrow> bytes" where
  "node_input l r = dom_sep @ node_mark @ l @ [0] @ r"

definition conf_node :: "env \<Rightarrow> bytes \<Rightarrow> bytes \<Rightarrow> bytes" where
  "conf_node E l r = sha256 E (node_input l r)"

definition field_order :: "pydict \<Rightarrow> ustr list res" where
  "field_order args = rbind (rmap utf16_key (keys args)) (\<lambda>_. Inr (sort_key utf16_be (keys args)))"

definition arg_leaves :: "env \<Rightarrow> pydict \<Rightarrow> ustr list \<Rightarrow> bytes list res" where
  "arg_leaves E args order = rmap (\<lambda>f. conf_leaf E f (dict_get args f PNone)) order"

definition commit_args :: "env \<Rightarrow> pydict \<Rightarrow> ustr res" where
  "commit_args E args =
     (if args = [] then Inr (HASH_PREFIX @ hex_of (sha256 E (dom_sep @ lit ''empty'')))
      else rbind (field_order args) (\<lambda>order.
           rbind (arg_leaves E args order) (\<lambda>level.
           Inr (HASH_PREFIX @ hex_of (fold_root (conf_node E) level)))))"

section \<open>Disclosure\<close>

fun index_of :: "'a \<Rightarrow> 'a list \<Rightarrow> nat" where
  "index_of x [] = 0"
| "index_of x (y # ys) = (if x = y then 0 else Suc (index_of x ys))"

definition path_entry :: "bool \<times> bytes \<Rightarrow> pyval" where
  "path_entry e = PList [PBool (fst e), PStr (HASH_PREFIX @ hex_of (snd e))]"

definition disclosure_path :: "env \<Rightarrow> pydict \<Rightarrow> ustr \<Rightarrow> pyval list option res" where
  "disclosure_path E args fld =
     (if \<not> has_key args fld then Inr None
      else rbind (field_order args) (\<lambda>order.
           rbind (arg_leaves E args order) (\<lambda>level.
           Inr (Some (map path_entry (merkle_path (conf_node E) level (index_of fld order)))))))"

definition disclose_step :: "env \<Rightarrow> pydict \<Rightarrow> ustr \<Rightarrow> pydict \<Rightarrow> pydict res" where
  "disclose_step E args fld out =
     (if \<not> has_key args fld then Inr out
      else rbind (disclosure_path E args fld) (\<lambda>p.
           Inr (dict_set fld (PDict [(lit ''value'', dict_get args fld PNone),
             (lit ''path'', case p of None \<Rightarrow> PNone | Some es \<Rightarrow> PList es)]) out)))"

definition disclose_args :: "env \<Rightarrow> pydict \<Rightarrow> ustr list \<Rightarrow> pydict res" where
  "disclose_args E args flds = rbind (rfold (disclose_step E args) flds []) (\<lambda>out.
     Inr [(lit ''fields'', PDict out)])"

section \<open>Verification\<close>

definition unpack2 :: "pyval \<Rightarrow> (pyval \<times> pyval) res" where
  "unpack2 v = rbind (py_iter v) (\<lambda>xs. case xs of [a, b] \<Rightarrow> Inr (a, b) | _ \<Rightarrow> Inl (ValueError ''unpack''))"

definition climb_step :: "env \<Rightarrow> pyval \<Rightarrow> bytes \<Rightarrow> bytes res" where
  "climb_step E entry digest =
     rbind (unpack2 entry) (\<lambda>(is_right, s).
     rbind (rcheck (is_str s \<and> startswith (str_of s) HASH_PREFIX) (ValueError ''bad sibling digest'')) (\<lambda>_.
     rbind (fromhex (drop (length HASH_PREFIX) (str_of s))) (\<lambda>sib.
     rbind (rcheck (length sib = 32) (ValueError ''bad sibling length'')) (\<lambda>_.
     Inr (if truthy is_right then conf_node E sib digest else conf_node E digest sib)))))"

definition assert_leaf_reaches_root :: "env \<Rightarrow> ustr \<Rightarrow> pyval \<Rightarrow> pyval \<Rightarrow> bytes \<Rightarrow> unit res" where
  "assert_leaf_reaches_root E fld v path expected =
     rbind (conf_leaf E fld v) (\<lambda>digest.
     rbind (py_iter path) (\<lambda>entries.
     rbind (rfold (climb_step E) entries digest) (\<lambda>top.
     rcheck (top = expected) (ValueError ''does not match root''))))"

definition verify_entry :: "env \<Rightarrow> bytes \<Rightarrow> ustr \<times> pyval \<Rightarrow> pydict \<Rightarrow> pydict res" where
  "verify_entry E expected kv out = (case snd kv of
       PDict entry \<Rightarrow>
         (let v = dict_get entry (lit ''value'') PNone; path = dict_get entry (lit ''path'') PNone in
          if path = PNone then Inl (ValueError ''missing path'')
          else rbind (assert_leaf_reaches_root E (fst kv) v path expected) (\<lambda>_.
               Inr (dict_set (fst kv) v out)))
     | _ \<Rightarrow> Inl (ValueError ''malformed''))"

definition verify_disclosure :: "env \<Rightarrow> ustr \<Rightarrow> pydict \<Rightarrow> pydict res" where
  "verify_disclosure E committed disclosure =
     rbind (rcheck (startswith committed HASH_PREFIX) (ValueError ''bad root format'')) (\<lambda>_.
     rbind (fromhex (drop (length HASH_PREFIX) committed)) (\<lambda>expected.
     case dict_get disclosure (lit ''fields'') PNone of
       PDict flds \<Rightarrow> rfold (verify_entry E expected) flds []
     | _ \<Rightarrow> Inl (ValueError ''disclosure missing fields object'')))"

section \<open>The re-check\<close>

datatype recheck = SATISFIED | VIOLATED | UNKNOWN

definition starts_with_any :: "pyval \<Rightarrow> pyval \<Rightarrow> bool res" where
  "starts_with_any v allowed = (case v of
       PStr s \<Rightarrow> rbind (py_iter allowed) (\<lambda>ps.
         Inr (list_ex (\<lambda>p. is_str p \<and> startswith s (str_of p)) ps))
     | _ \<Rightarrow> Inr False)"

definition evaluators :: "(ustr \<times> (pyval \<Rightarrow> pyval \<Rightarrow> bool res)) list" where
  "evaluators =
     [(lit ''allowed_values'', \<lambda>v allowed. py_in v allowed),
      (lit ''forbidden_values'', \<lambda>v forbidden. rbind (py_in v forbidden) (\<lambda>b. Inr (\<not> b))),
      (lit ''max_value'', \<lambda>v bound. py_le v bound),
      (lit ''min_value'', \<lambda>v bound. py_le bound v),
      (lit ''starts_with'', starts_with_any)]"

text \<open>The per-field verdicts: \<open>None\<close> for an undisclosed field.\<close>

definition per_field :: "(pyval \<Rightarrow> pyval \<Rightarrow> bool res) \<Rightarrow> pydict \<Rightarrow> pydict \<Rightarrow> bool option list res" where
  "per_field ev c disclosed = rmap (\<lambda>kv. case map_of disclosed (fst kv) of
       None \<Rightarrow> Inr None
     | Some v \<Rightarrow> rbind (ev v (snd kv)) (\<lambda>b. Inr (Some b))) c"

definition verdict_of :: "bool option list \<Rightarrow> recheck" where
  "verdict_of vs = (if Some False \<in> set vs then VIOLATED else if None \<in> set vs then UNKNOWN else SATISFIED)"

definition recheck_kind ::
  "pydict \<Rightarrow> pydict \<Rightarrow> ustr \<times> (pyval \<Rightarrow> pyval \<Rightarrow> bool res) \<Rightarrow> (ustr \<times> recheck) list \<Rightarrow> (ustr \<times> recheck) list res" where
  "recheck_kind cs disclosed ke results = (case map_of cs (fst ke) of
       Some (PDict c) \<Rightarrow> rbind (per_field (snd ke) c disclosed) (\<lambda>vs.
         Inr (dict_set (fst ke) (verdict_of vs) results))
     | _ \<Rightarrow> Inr results)"

definition recheck_evaluated_kinds ::
  "pydict \<Rightarrow> pydict \<Rightarrow> (ustr \<times> recheck) list \<Rightarrow> (ustr \<times> recheck) list res" where
  "recheck_evaluated_kinds cs disclosed = rfold (recheck_kind cs disclosed) evaluators"

definition recheck_required_present ::
  "pydict \<Rightarrow> pydict \<Rightarrow> (ustr \<times> recheck) list \<Rightarrow> (ustr \<times> recheck) list res" where
  "recheck_required_present cs disclosed results =
     (case map_of cs (lit ''required_present'') of
        Some (PList required) \<Rightarrow>
          if required = [] then Inr results
          else rbind (rall (\<lambda>f. in_dict f disclosed) required) (\<lambda>ok.
               Inr (dict_set (lit ''required_present'') (if ok then SATISFIED else UNKNOWN) results))
      | _ \<Rightarrow> Inr results)"

definition recheck_combo :: "pydict \<Rightarrow> pyval list \<Rightarrow> recheck res" where
  "recheck_combo disclosed combo =
     rbind (rall (\<lambda>f. in_dict f disclosed) combo) (\<lambda>ok.
     Inr (if ok then (if list_all (\<lambda>f. truthy (dict_get disclosed (str_of f) PNone)) combo
                      then VIOLATED else SATISFIED) else UNKNOWN))"

definition recheck_forbidden_combinations ::
  "pydict \<Rightarrow> pydict \<Rightarrow> (ustr \<times> recheck) list \<Rightarrow> (ustr \<times> recheck) list res" where
  "recheck_forbidden_combinations cs disclosed results =
     (case map_of cs (lit ''forbidden_field_combinations'') of
        Some (PList combos) \<Rightarrow>
          if combos = [] then Inr results
          else rbind (rmap (recheck_combo disclosed)
                 (List.map_filter (\<lambda>c. case c of PList fs \<Rightarrow> Some fs | _ \<Rightarrow> None) combos)) (\<lambda>rs.
               Inr (dict_set (lit ''forbidden_field_combinations'')
                 (if VIOLATED \<in> set rs then VIOLATED
                  else if list_all (\<lambda>r. r = SATISFIED) rs then SATISFIED else UNKNOWN) results))
      | _ \<Rightarrow> Inr results)"

definition recheck_constraints :: "pydict \<Rightarrow> pydict \<Rightarrow> (ustr \<times> recheck) list res" where
  "recheck_constraints cs disclosed =
     rbind (recheck_evaluated_kinds cs disclosed []) (\<lambda>r.
     rbind (recheck_required_present cs disclosed r) (\<lambda>r.
     recheck_forbidden_combinations cs disclosed r))"

end
