(* ===== verification/ConformanceLaws.thy ===== *)
theory ConformanceLaws
  imports Conformance
begin

text \<open>
  What a commitment promises.  A disclosure made from the arguments verifies against their commitment, and
  a disclosure that verifies tells the truth: barring a digest collision among the messages hashed, every
  field it yields is a field of the committed arguments with the same JSON value.
\<close>

section \<open>Leaves\<close>

text \<open>Canonical text has no character below the space, so the zero byte after the field name is the last one.\<close>

definition printable :: "ustr \<Rightarrow> bool" where
  "printable s = (\<forall>c\<in>set s. 32 \<le> c)"

lemma printable_simps [simp]:
  "printable []" "printable (c # s) \<longleftrightarrow> 32 \<le> c \<and> printable s" "printable (s @ t) \<longleftrightarrow> printable s \<and> printable t"
  by (auto simp: printable_def)

lemma printable_dec_int: "printable (dec_int i)"
  by (auto simp: dec_int_def printable_def dest!: dec_nat_digits)

lemma printable_escape: "printable (escape_char c)"
  by (simp add: escape_char_def hex_digit_def)

lemma printable_json_str: "printable (json_str s)"
  by (induction s) (simp_all add: json_str_def printable_escape)

lemma printable_joined: "printable (joined xs) \<longleftrightarrow> (\<forall>x\<in>set xs. printable x)"
  by (induction xs rule: joined.induct) auto

lemma printable_json_text: "float_free v \<Longrightarrow> printable (json_text fr v)"
proof (induction v)
  case (PDict d)
  then show ?case by (fastforce simp: printable_joined printable_json_str)
qed (auto simp: printable_dec_int printable_json_str printable_joined)

lemma utf8_no_zero: "printable s \<Longrightarrow> 0 \<notin> set (utf8_encode s)"
  by (induction s) (auto simp: utf8_encode_def utf8_char_def)

lemma canonical_json_no_zero: "canonical_json E v = Inr b \<Longrightarrow> 0 \<notin> set b"
  using reorder_keeps reject_floats_float_free printable_json_text utf8_no_zero
  by (auto simp: canonical_json_eq utf8_encode_strict_def split: if_splits)

lemma split_last_zero: "a @ 0 # b = c @ 0 # d \<Longrightarrow> 0 \<notin> set b \<Longrightarrow> 0 \<notin> set d \<Longrightarrow> a = c \<and> b = (d :: nat list)"
  by (simp add: append_eq_append_conv2 append_eq_Cons_conv Cons_eq_append_conv) auto

lemma leaf_input_iff:
  "leaf_input E f v = Inr m \<longleftrightarrow> \<not> list_ex is_surrogate f \<and>
     (\<exists>b. canonical_json E v = Inr b \<and> m = dom_sep @ leaf_mark @ utf8_encode f @ 0 # b)"
  by (auto simp: leaf_input_def utf8_encode_strict_def)

lemma leaf_input_inj:
  assumes "leaf_input E f v = Inr m" "leaf_input E g w = Inr m"
    and "wf_str f" "wf_str g" "wf_val v" "wf_val w"
  shows "f = g \<and> same_json v w"
proof -
  obtain b where b: "canonical_json E v = Inr b" "m = dom_sep @ leaf_mark @ utf8_encode f @ 0 # b" "\<not> list_ex is_surrogate f"
    using assms(1) by (auto simp: leaf_input_iff)
  obtain c where c: "canonical_json E w = Inr c" "m = dom_sep @ leaf_mark @ utf8_encode g @ 0 # c" "\<not> list_ex is_surrogate g"
    using assms(2) by (auto simp: leaf_input_iff)
  have eq: "utf8_encode f = utf8_encode g" "b = c"
    using split_last_zero[of "utf8_encode f" b "utf8_encode g" c] canonical_json_no_zero b c by auto
  have "scalar_str f" "scalar_str g" using assms(3,4) b(3) c(3) by (auto simp: scalar_str_iff list_ex_iff)
  then have "f = g" using eq(1) utf8_encode_inj by blast
  moreover have "same_json v w" using canonical_json_inj[OF assms(5,6) b(1) c(1)] eq(2) by simp
  ultimately show ?thesis by blast
qed

lemma leaf_not_node: "leaf_input E f v = Inr m \<Longrightarrow> m \<noteq> node_input l r"
  by (auto simp: leaf_input_iff node_input_def leaf_mark_def node_mark_def)

interpretation conf_tree: merkle "sha256 E" node_input for E :: env
  by unfold_locales (auto simp: node_input_def)

lemma conf_node_eq: "conf_node E = conf_tree.node E"
  by (simp add: conf_node_def fun_eq_iff)


section \<open>Messages\<close>

text \<open>The messages hashed by a commitment, and by the verification of one disclosed entry.\<close>

definition leaf_msgs :: "env \<Rightarrow> pydict \<Rightarrow> bytes set" where
  "leaf_msgs E args = {m. \<exists>f v. map_of args f = Some v \<and> leaf_input E f v = Inr m}"

definition commit_msgs :: "env \<Rightarrow> pydict \<Rightarrow> bytes set" where
  "commit_msgs E args = insert (dom_sep @ lit ''empty'') (leaf_msgs E args \<union>
     \<Union> {conf_tree.tree_inputs E level | level order. field_order args = Inr order \<and> arg_leaves E args order = Inr level})"

definition decode_entry :: "pyval \<Rightarrow> bool \<times> bytes" where
  "decode_entry e = (case unpack2 e of
       Inr (b, s) \<Rightarrow> (truthy b, case fromhex (drop (length HASH_PREFIX) (str_of s)) of Inr bs \<Rightarrow> bs | Inl _ \<Rightarrow> [])
     | Inl _ \<Rightarrow> (False, []))"

definition entry_msgs :: "env \<Rightarrow> ustr \<Rightarrow> pyval \<Rightarrow> pyval \<Rightarrow> bytes set" where
  "entry_msgs E f v path = {m. leaf_input E f v = Inr m} \<union>
     \<Union> {conf_tree.climb_inputs E d (map decode_entry es) | d es. conf_leaf E f v = Inr d \<and> py_iter path = Inr es}"

definition disclosure_msgs :: "env \<Rightarrow> pydict \<Rightarrow> bytes set" where
  "disclosure_msgs E disclosure = \<Union> {entry_msgs E f (dict_get entry (lit ''value'') PNone) (dict_get entry (lit ''path'') PNone)
     | f entry flds. map_of disclosure (lit ''fields'') = Some (PDict flds) \<and> (f, PDict entry) \<in> set flds}"

section \<open>Soundness\<close>

lemma climb_step_decode:
  "climb_step E e d = Inr d' \<Longrightarrow> d' = climb (conf_node E) d [decode_entry e] \<and> length (snd (decode_entry e)) = 32"
  by (cases "unpack2 e") (auto simp: climb_step_def decode_entry_def split: prod.splits)

lemma climb_Cons: "climb node d (e # p) = climb node (climb node d [e]) p"
  by (cases e) simp

lemma rfold_climb:
  "rfold (climb_step E) es d = Inr reached \<Longrightarrow>
     reached = climb (conf_node E) d (map decode_entry es) \<and> (\<forall>(b, s)\<in>set (map decode_entry es). length s = 32)"
proof (induction es arbitrary: d)
  case (Cons e es)
  then obtain d' where d': "climb_step E e d = Inr d'" "rfold (climb_step E) es d' = Inr reached" by auto
  show ?case
    using Cons.IH[OF d'(2)] climb_step_decode[OF d'(1)] climb_Cons[of "conf_node E" d "decode_entry e" "map decode_entry es"]
    by auto
qed simp

lemma tree_inputs_enc: "m \<in> conf_tree.tree_inputs E level \<Longrightarrow> \<exists>l r. m = node_input l r"
proof (induction level rule: conf_tree.tree_inputs.induct[of _ E])
  case (1 level)
  have "x \<in> conf_tree.level_inputs level \<Longrightarrow> \<exists>l r. x = node_input l r" for x
    by (induction level rule: conf_tree.level_inputs.induct) auto
  then show ?case using 1 by (subst (asm) (2) conf_tree.tree_inputs.simps) (auto split: if_splits)
qed

lemma leaf_reaches_root:
  assumes D: "digest32 E" and lvl: "level \<noteq> []" "\<forall>x\<in>set level. \<exists>m\<in>L. x = sha256 E m"
    and L: "\<forall>m\<in>L. \<forall>l r. m \<noteq> node_input l r" "m0 \<in> L"
    and inj: "collision_free E (L \<union> conf_tree.tree_inputs E level \<union> conf_tree.climb_inputs E (sha256 E m0) p)"
    and p: "\<forall>(b, s)\<in>set p. length s = 32" "climb (conf_node E) (sha256 E m0) p = fold_root (conf_node E) level"
  shows "sha256 E m0 \<in> set level"
proof -
  let ?d = "sha256 E m0"
  have inj': "inj_on (sha256 E) (conf_tree.tree_inputs E level \<union> conf_tree.climb_inputs E ?d p)"
    using inj unfolding collision_free_def by (rule inj_on_subset) auto
  have "(\<exists>q r. p = q @ r \<and> climb (conf_tree.node E) ?d q \<in> set level) \<or> ?d \<in> sha256 E ` conf_tree.tree_inputs E level"
    using D lvl p inj' unfolding conf_node_eq digest32_def by (intro conf_tree.climb_through[where n = 32]) auto
  then show ?thesis
  proof
    assume "?d \<in> sha256 E ` conf_tree.tree_inputs E level"
    then obtain m where m: "m \<in> conf_tree.tree_inputs E level" "?d = sha256 E m" by blast
    then have "m0 = m" using inj L(2) unfolding collision_free_def by (auto dest: inj_onD)
    then show ?thesis using tree_inputs_enc[OF m(1)] L by blast
  next
    assume "\<exists>q r. p = q @ r \<and> climb (conf_tree.node E) ?d q \<in> set level"
    then obtain q r where q: "p = q @ r" "climb (conf_tree.node E) ?d q \<in> set level" by blast
    show ?thesis
    proof (cases q rule: rev_cases)
      case (snoc q' e)
      obtain b s where e: "e = (b, s)" by (cases e)
      let ?m = "if b then node_input s (climb (conf_tree.node E) ?d q') else node_input (climb (conf_tree.node E) ?d q') s"
      have "?m \<in> conf_tree.climb_inputs E ?d p"
        using q(1) snoc e conf_tree.climb_inputs_mono[of E ?d q r] by (auto simp: conf_tree.climb_inputs_snoc)
      moreover obtain m where m: "m \<in> L" "climb (conf_tree.node E) ?d q = sha256 E m" using q(2) lvl(2) by blast
      moreover have "sha256 E ?m = sha256 E m" using m(2) snoc e by (auto simp: conf_tree.climb_snoc)
      ultimately have "?m = m" by (rule_tac inj_onD[OF inj[unfolded collision_free_def]]) auto
      then show ?thesis using L(1) m(1) by (auto split: if_splits)
    qed (use q in simp)
  qed
qed

lemma verify_entries:
  "rfold (verify_entry E r) flds out0 = Inr out \<Longrightarrow> map_of out f = Some v \<Longrightarrow>
    map_of out0 f = Some v \<or> (\<exists>entry. (f, PDict entry) \<in> set flds \<and> v = dict_get entry (lit ''value'') PNone \<and>
      assert_leaf_reaches_root E f v (dict_get entry (lit ''path'') PNone) r = Inr ())"
proof (induction flds arbitrary: out0)
  case (Cons kv flds)
  then obtain out1 where o1: "verify_entry E r kv out0 = Inr out1" "rfold (verify_entry E r) flds out1 = Inr out" by auto
  then obtain entry where "snd kv = PDict entry" "out1 = dict_set (fst kv) (dict_get entry (lit ''value'') PNone) out0"
    "assert_leaf_reaches_root E (fst kv) (dict_get entry (lit ''value'') PNone) (dict_get entry (lit ''path'') PNone) r = Inr ()"
    by (auto simp: verify_entry_def Let_def split: pyval.splits if_splits)
  then show ?case using Cons.IH[OF o1(2) Cons.prems(2)] by (cases kv) (auto split: if_splits)
qed simp

lemma arg_leavesD:
  assumes "field_order args = Inr order" "arg_leaves E args order = Inr level"
  shows "set order = fst ` set args" "length level = length order"
    and "\<And>i. i < length order \<Longrightarrow> conf_leaf E (order ! i) (dict_get args (order ! i) PNone) = Inr (level ! i)"
proof -
  have o: "order = sort_key utf16_be (keys args)" using assms(1) by (auto simp: field_order_def)
  show "set order = fst ` set args" unfolding o by simp
  show "length level = length order"
    "\<And>i. i < length order \<Longrightarrow> conf_leaf E (order ! i) (dict_get args (order ! i) PNone) = Inr (level ! i)"
    using assms(2) by (simp_all add: arg_leaves_def rmap_eq_Inr_iff list_all2_conv_all_nth)
qed

lemma leaf_of_level:
  assumes "field_order args = Inr order" "arg_leaves E args order = Inr level" "x \<in> set level"
  shows "\<exists>f v m. map_of args f = Some v \<and> leaf_input E f v = Inr m \<and> x = sha256 E m"
proof -
  note l = arg_leavesD[OF assms(1,2)]
  obtain i where i: "i < length order" "x = level ! i" using assms(3) l(2) by (auto simp: in_set_conv_nth)
  then have "order ! i \<in> fst ` set args" using l(1) nth_mem by blast
  then obtain v where "map_of args (order ! i) = Some v" by (metis map_of_eq_None_iff not_None_eq)
  then have "\<exists>m. leaf_input E (order ! i) v = Inr m \<and> x = sha256 E m"
    using l(3)[OF i(1)] i(2) by (auto simp: conf_leaf_def dict_get_def)
  with \<open>map_of args (order ! i) = Some v\<close> show ?thesis by blast
qed

lemma commit_root:
  assumes "digest32 E" "commit_args E args = Inr committed"
  obtains r where "committed = HASH_PREFIX @ hex_of r" "wf_bytes r" "fromhex (drop (length HASH_PREFIX) committed) = Inr r"
    "args = [] \<and> r = sha256 E (dom_sep @ lit ''empty'') \<or>
     (\<exists>order level. field_order args = Inr order \<and> arg_leaves E args order = Inr level \<and> level \<noteq> [] \<and>
        r = fold_root (conf_node E) level)"
proof (cases "args = []")
  case True
  then show thesis using assms that[of "sha256 E (dom_sep @ lit ''empty'')"] fromhex_hex_of
    by (auto simp: commit_args_def digest32_def)
next
  case False
  then obtain order level where l: "field_order args = Inr order" "arg_leaves E args order = Inr level"
    and c: "committed = HASH_PREFIX @ hex_of (fold_root (conf_node E) level)"
    using assms(2) by (auto simp: commit_args_def)
  have "set order \<noteq> {}" using arg_leavesD(1)[OF l] False by simp
  then have ne: "level \<noteq> []" using arg_leavesD(2)[OF l] by auto
  have "wf_bytes (fold_root (conf_node E) level)"
  proof (rule fold_root_digest[OF ne])
    show "\<forall>x\<in>set level. wf_bytes x" using leaf_of_level[OF l] assms(1) by (auto simp: digest32_def)
    show "wf_bytes (conf_node E x y)" for x y using assms(1) by (simp add: conf_node_def digest32_def)
  qed
  then show thesis using c l ne by (intro that[OF c]) (simp_all add: fromhex_hex_of)
qed

text \<open>Nothing leads to the digest of the empty tree.\<close>

lemma climb_message:
  "\<exists>m'\<in>insert m (conf_tree.climb_inputs E (sha256 E m) p). climb (conf_node E) (sha256 E m) p = sha256 E m' \<and>
     (m' = m \<or> (\<exists>l r. m' = node_input l r))"
proof (cases p rule: rev_cases)
  case (snoc q e)
  then show ?thesis
    by (cases e) (auto simp: conf_node_eq conf_tree.climb_snoc conf_tree.climb_inputs_snoc)
qed simp

lemma empty_root_unreached:
  assumes "leaf_input E f v = Inr m" "insert m (conf_tree.climb_inputs E (sha256 E m) p) \<subseteq> M"
    "collision_free E (insert (dom_sep @ lit ''empty'') M)"
    "sha256 E (dom_sep @ lit ''empty'') = climb (conf_node E) (sha256 E m) p"
  shows False
proof -
  obtain m' where m': "m' \<in> insert m (conf_tree.climb_inputs E (sha256 E m) p)" "sha256 E m' = sha256 E (dom_sep @ lit ''empty'')"
    "m' = m \<or> (\<exists>l r. m' = node_input l r)" using climb_message[of m E p] assms(4) by metis
  then have "m' = dom_sep @ lit ''empty''"
    using assms(2) by (rule_tac inj_onD[OF assms(3)[unfolded collision_free_def]]) auto
  then show False using m'(3) assms(1) by (auto simp: leaf_input_iff node_input_def leaf_mark_def node_mark_def lit_def)
qed

lemma wf_member: "wf_val (PDict d) \<Longrightarrow> (k, v) \<in> set d \<Longrightarrow> wf_str k \<and> wf_val v"
  by (simp only: wf_val.simps) fastforce

lemma disclosed_wf:
  assumes "wf_val (PDict disclosure)" "map_of disclosure (lit ''fields'') = Some (PDict flds)" "(f, PDict entry) \<in> set flds"
    "v = dict_get entry (lit ''value'') PNone"
  shows "wf_str f \<and> wf_val v"
proof -
  have "wf_val (PDict flds)" using wf_member[OF assms(1) map_of_SomeD[OF assms(2)]] by blast
  then have w: "wf_str f" "wf_val (PDict entry)" using wf_member assms(3) by blast+
  then have "wf_val v" using assms(4) wf_member[OF w(2) map_of_SomeD] by (cases "map_of entry (lit ''value'')") (auto simp: dict_get_def)
  with w show ?thesis by blast
qed

lemma disclosure_sound:
  assumes D: "digest32 E" and c: "commit_args E args = Inr committed" and wf: "wf_val (PDict args)" "wf_val (PDict disclosure)"
    and v: "verify_disclosure E committed disclosure = Inr out" "map_of out f = Some v"
    and inj: "collision_free E (commit_msgs E args \<union> disclosure_msgs E disclosure)"
  shows "\<exists>w. map_of args f = Some w \<and> same_json v w"
proof -
  obtain r where r: "fromhex (drop (length HASH_PREFIX) committed) = Inr r"
    and root: "args = [] \<and> r = sha256 E (dom_sep @ lit ''empty'') \<or>
     (\<exists>order level. field_order args = Inr order \<and> arg_leaves E args order = Inr level \<and> level \<noteq> [] \<and>
        r = fold_root (conf_node E) level)"
    using commit_root[OF D c] by metis
  obtain flds where flds: "map_of disclosure (lit ''fields'') = Some (PDict flds)" "rfold (verify_entry E r) flds [] = Inr out"
    using v(1) r by (auto simp: verify_disclosure_def dict_get_def split: pyval.splits option.splits)
  obtain entry where e: "(f, PDict entry) \<in> set flds" "v = dict_get entry (lit ''value'') PNone"
    and a: "assert_leaf_reaches_root E f v (dict_get entry (lit ''path'') PNone) r = Inr ()"
    using verify_entries[OF flds(2) v(2)] by auto
  obtain m es where m: "leaf_input E f v = Inr m" and es: "py_iter (dict_get entry (lit ''path'') PNone) = Inr es"
    and climbs: "rfold (climb_step E) es (sha256 E m) = Inr r"
    using a by (auto simp: assert_leaf_reaches_root_def conf_leaf_def)
  let ?p = "map decode_entry es"
  note cl = rfold_climb[OF climbs]
  have em: "insert m (conf_tree.climb_inputs E (sha256 E m) ?p) \<subseteq> disclosure_msgs E disclosure"
  proof -
    have "insert m (conf_tree.climb_inputs E (sha256 E m) ?p) \<subseteq> entry_msgs E f v (dict_get entry (lit ''path'') PNone)"
      using m es by (auto simp: entry_msgs_def conf_leaf_def)
    then show ?thesis using flds(1) e unfolding disclosure_msgs_def by blast
  qed
  show ?thesis
    using root
  proof
    assume "args = [] \<and> r = sha256 E (dom_sep @ lit ''empty'')"
    moreover have "collision_free E (insert (dom_sep @ lit ''empty'') (disclosure_msgs E disclosure))"
      using inj unfolding collision_free_def by (rule inj_on_subset) (auto simp: commit_msgs_def)
    ultimately show ?thesis using empty_root_unreached[OF m em] cl by auto
  next
    assume "\<exists>order level. field_order args = Inr order \<and> arg_leaves E args order = Inr level \<and> level \<noteq> [] \<and>
        r = fold_root (conf_node E) level"
    then obtain order level where l: "field_order args = Inr order" "arg_leaves E args order = Inr level" "level \<noteq> []"
      "r = fold_root (conf_node E) level" by blast
    have cm: "leaf_msgs E args \<union> conf_tree.tree_inputs E level \<subseteq> commit_msgs E args" using l by (auto simp: commit_msgs_def)
    have "sha256 E m \<in> set level"
    proof (rule leaf_reaches_root[OF D l(3), where L = "insert m (leaf_msgs E args)" and p = ?p])
      show "\<forall>x\<in>set level. \<exists>m'\<in>insert m (leaf_msgs E args). x = sha256 E m'"
        using leaf_of_level[OF l(1,2)] by (fastforce simp: leaf_msgs_def)
      show "\<forall>m'\<in>insert m (leaf_msgs E args). \<forall>l r. m' \<noteq> node_input l r"
        using m leaf_not_node by (fastforce simp: leaf_msgs_def)
      show "collision_free E (insert m (leaf_msgs E args) \<union> conf_tree.tree_inputs E level \<union> conf_tree.climb_inputs E (sha256 E m) ?p)"
        using inj em cm unfolding collision_free_def by (blast intro: inj_on_subset)
    qed (use cl l(4) in auto)
    then obtain g w m' where g: "map_of args g = Some w" "leaf_input E g w = Inr m'" "sha256 E m = sha256 E m'"
      using leaf_of_level[OF l(1,2)] by blast
    have "m' \<in> leaf_msgs E args" using g(1,2) by (auto simp: leaf_msgs_def)
    then have "m = m'" using em cm g(3) by (rule_tac inj_onD[OF inj[unfolded collision_free_def]]) auto
    moreover have "wf_str f \<and> wf_val v" by (rule disclosed_wf[OF wf(2) flds(1) e])
    moreover have "wf_str g \<and> wf_val w" using wf_member[OF wf(1)] g(1) by (blast dest: map_of_SomeD)
    ultimately have "f = g \<and> same_json v w" using leaf_input_inj m g(2) by blast
    then show ?thesis using g(1) by blast
  qed
qed

section \<open>Completeness\<close>

lemma index_of_nth: "x \<in> set xs \<Longrightarrow> index_of x xs < length xs \<and> xs ! index_of x xs = x"
  by (induction xs) auto

lemma climb_step_path_entry:
  "length (snd e) = 32 \<Longrightarrow> wf_bytes (snd e) \<Longrightarrow> climb_step E (path_entry e) d = Inr (climb (conf_node E) d [e])"
  by (cases e) (simp add: climb_step_def path_entry_def unpack2_def py_iter_def startswith_def fromhex_hex_of)

lemma rfold_climb_path:
  "\<forall>e\<in>set p. length (snd e) = 32 \<and> wf_bytes (snd e) \<Longrightarrow>
    rfold (climb_step E) (map path_entry p) d = Inr (climb (conf_node E) d p)"
proof (induction p arbitrary: d)
  case (Cons e p)
  then show ?case using climb_Cons[of "conf_node E" d e p] by (simp add: climb_step_path_entry)
qed simp

lemma path_verifies:
  assumes D: "digest32 E" and l: "field_order args = Inr order" "arg_leaves E args order = Inr level" and f: "has_key args f"
  shows "\<exists>es. disclosure_path E args f = Inr (Some es) \<and>
    assert_leaf_reaches_root E f (dict_get args f PNone) (PList es) (fold_root (conf_node E) level) = Inr ()"
proof -
  let ?p = "merkle_path (conf_node E) level (index_of f order)"
  note al = arg_leavesD[OF l]
  have i: "index_of f order < length order" "order ! index_of f order = f"
    using f al(1) index_of_nth[of f order] by (auto simp: has_key_iff)
  have "\<forall>e\<in>set ?p. length (snd e) = 32 \<and> wf_bytes (snd e)"
    by (rule merkle_path_digests) (use i al(2) leaf_of_level[OF l] D in \<open>auto simp: conf_node_def digest32_def\<close>)
  then have "rfold (climb_step E) (map path_entry ?p) (level ! index_of f order) = Inr (fold_root (conf_node E) level)"
    using rfold_climb_path climb_merkle_path[of "index_of f order" level "conf_node E"] i(1) al(2) by simp
  then show ?thesis
    using al(3)[OF i(1)] i(2) l f by (simp add: disclosure_path_def assert_leaf_reaches_root_def py_iter_def)
qed

text \<open>The entries a disclosure is built of.\<close>

definition honest_entry :: "env \<Rightarrow> pydict \<Rightarrow> bytes \<Rightarrow> ustr \<times> pyval \<Rightarrow> bool" where
  "honest_entry E args r kv = (\<exists>v es. map_of args (fst kv) = Some v \<and>
     snd kv = PDict [(lit ''value'', v), (lit ''path'', PList es)] \<and>
     assert_leaf_reaches_root E (fst kv) v (PList es) r = Inr ())"

lemma dict_set_members: "kv \<in> set (dict_set k v d) \<Longrightarrow> kv = (k, v) \<or> kv \<in> set d"
  by (induction d) (auto split: if_splits)

lemma dict_set_keys: "fst ` set (dict_set k v d) = insert k (fst ` set d)"
  by (induction d) auto

lemma disclose_honest:
  assumes D: "digest32 E" and l: "field_order args = Inr order" "arg_leaves E args order = Inr level"
  shows "\<forall>kv\<in>set out. honest_entry E args (fold_root (conf_node E) level) kv \<Longrightarrow>
    \<exists>out'. rfold (disclose_step E args) flds out = Inr out' \<and> fst ` set out' = fst ` set out \<union> {f \<in> set flds. has_key args f} \<and>
      (\<forall>kv\<in>set out'. honest_entry E args (fold_root (conf_node E) level) kv)"
proof (induction flds arbitrary: out)
  case (Cons f flds)
  show ?case
  proof (cases "has_key args f")
    case True
    then obtain v where v: "map_of args f = Some v" by (auto simp: has_key_def)
    obtain es where es: "disclosure_path E args f = Inr (Some es)"
      "assert_leaf_reaches_root E f v (PList es) (fold_root (conf_node E) level) = Inr ()"
      using path_verifies[OF D l True] v by (auto simp: dict_get_def)
    let ?e = "PDict [(lit ''value'', v), (lit ''path'', PList es)]"
    have "\<forall>kv\<in>set (dict_set f ?e out). honest_entry E args (fold_root (conf_node E) level) kv"
      using Cons.prems v es(2) by (auto dest!: dict_set_members simp: honest_entry_def)
    from Cons.IH[OF this] show ?thesis
      using True es(1) v by (auto simp: disclose_step_def dict_get_def dict_set_keys)
  next
    case False
    then show ?thesis using Cons.IH[OF Cons.prems] by (auto simp: disclose_step_def)
  qed
qed simp

lemma verify_honest:
  "\<forall>kv\<in>set flds. honest_entry E args r kv \<Longrightarrow> \<exists>out'. rfold (verify_entry E r) flds out = Inr out' \<and>
     (\<forall>f. map_of out' f = (if f \<in> fst ` set flds then map_of args f else map_of out f))"
proof (induction flds arbitrary: out)
  case (Cons kv flds)
  then obtain v es where "map_of args (fst kv) = Some v" "snd kv = PDict [(lit ''value'', v), (lit ''path'', PList es)]"
    "assert_leaf_reaches_root E (fst kv) v (PList es) r = Inr ()" by (auto simp: honest_entry_def)
  then have "verify_entry E r kv out = Inr (dict_set (fst kv) v out)"
    by (simp add: verify_entry_def dict_get_def)
  moreover obtain out' where "rfold (verify_entry E r) flds (dict_set (fst kv) v out) = Inr out'"
    "\<forall>f. map_of out' f = (if f \<in> fst ` set flds then map_of args f else map_of (dict_set (fst kv) v out) f)"
    using Cons by (metis list.set_intros(2))
  ultimately show ?case using \<open>map_of args (fst kv) = Some v\<close> by auto
qed simp

lemma disclosure_complete:
  assumes D: "digest32 E" and c: "commit_args E args = Inr committed"
  shows "\<exists>d out. disclose_args E args flds = Inr d \<and> verify_disclosure E committed d = Inr out \<and>
    (\<forall>f. map_of out f = (if f \<in> set flds then map_of args f else None))"
proof -
  obtain r where r: "committed = HASH_PREFIX @ hex_of r" "fromhex (drop (length HASH_PREFIX) committed) = Inr r"
    and root: "args = [] \<and> r = sha256 E (dom_sep @ lit ''empty'') \<or>
     (\<exists>order level. field_order args = Inr order \<and> arg_leaves E args order = Inr level \<and> level \<noteq> [] \<and>
        r = fold_root (conf_node E) level)" using commit_root[OF D c] by metis
  have "\<exists>out. rfold (disclose_step E args) flds [] = Inr out \<and> fst ` set out = {f \<in> set flds. has_key args f} \<and>
      (\<forall>kv\<in>set out. honest_entry E args r kv)"
    using root
  proof
    assume e: "args = [] \<and> r = sha256 E (dom_sep @ lit ''empty'')"
    then have "rfold (disclose_step E args) flds [] = Inr []"
      by (induction flds) (auto simp: disclose_step_def has_key_def)
    then show ?thesis using e by (auto simp: has_key_def)
  qed (use disclose_honest[OF D, of args _ _ "[]" flds] in fastforce)
  then obtain out where out: "rfold (disclose_step E args) flds [] = Inr out" "fst ` set out = {f \<in> set flds. has_key args f}"
    "\<forall>kv\<in>set out. honest_entry E args r kv" by blast
  obtain out' where out': "rfold (verify_entry E r) out [] = Inr out'"
    "\<forall>f. map_of out' f = (if f \<in> fst ` set out then map_of args f else map_of [] f)" using verify_honest[OF out(3)] by blast
  have "\<forall>f. map_of out' f = (if f \<in> set flds then map_of args f else None)" using out' out(2) by (auto simp: has_key_def)
  then show ?thesis using out(1) out'(1) r
    by (auto simp: disclose_args_def verify_disclosure_def startswith_def dict_get_def)
qed

section \<open>The re-check\<close>

text \<open>A kind counts as satisfied only when every field it names was disclosed.\<close>

lemma verdict_satisfied: "verdict_of vs = SATISFIED \<longleftrightarrow> (\<forall>x\<in>set vs. x = Some True)"
  by (auto simp: verdict_of_def split: if_splits) (metis option.exhaust)

lemma per_field_satisfied:
  "per_field ev c d = Inr vs \<Longrightarrow> verdict_of vs = SATISFIED \<longleftrightarrow>
     (\<forall>kv\<in>set c. \<exists>v. map_of d (fst kv) = Some v \<and> ev v (snd kv) = Inr True)"
  unfolding verdict_satisfied per_field_def
  by (induction c arbitrary: vs) (fastforce split: option.splits)+

lemma recheck_kind_other: "recheck_kind cs d ke rs = Inr rs' \<Longrightarrow> k \<noteq> fst ke \<Longrightarrow> map_of rs' k = map_of rs k"
  by (auto simp: recheck_kind_def split: option.splits pyval.splits)

lemma recheck_kinds_other:
  "rfold (recheck_kind cs d) evs rs = Inr rs' \<Longrightarrow> k \<notin> fst ` set evs \<Longrightarrow> map_of rs' k = map_of rs k"
  by (induction evs arbitrary: rs) (auto simp: recheck_kind_other)

lemma recheck_kinds_verdict:
  assumes "rfold (recheck_kind cs d) evs rs = Inr rs'" "distinct (map fst evs)" "(k, ev) \<in> set evs" "map_of cs k = Some (PDict c)"
  shows "\<exists>vs. per_field ev c d = Inr vs \<and> map_of rs' k = Some (verdict_of vs)"
  using assms
proof (induction evs arbitrary: rs)
  case (Cons ke evs)
  then obtain r where r: "recheck_kind cs d ke rs = Inr r" "rfold (recheck_kind cs d) evs r = Inr rs'" by auto
  show ?case
  proof (cases "(k, ev) = ke")
    case True
    then obtain vs where vs: "per_field ev c d = Inr vs" "map_of r k = Some (verdict_of vs)"
      using r(1) Cons.prems(4) by (auto simp: recheck_kind_def)
    have "k \<notin> fst ` set evs" using Cons.prems(2) True by force
    then show ?thesis using vs recheck_kinds_other[OF r(2)] by auto
  qed (use Cons r(2) in auto)
qed simp

lemma recheck_satisfied:
  assumes "recheck_constraints cs d = Inr rs" "(k, ev) \<in> set evaluators" "map_of cs k = Some (PDict c)"
  shows "map_of rs k = Some SATISFIED \<longleftrightarrow> (\<forall>kv\<in>set c. \<exists>v. map_of d (fst kv) = Some v \<and> ev v (snd kv) = Inr True)"
proof -
  obtain r0 r1 where r: "rfold (recheck_kind cs d) evaluators [] = Inr r0" "recheck_required_present cs d r0 = Inr r1"
    "recheck_forbidden_combinations cs d r1 = Inr rs"
    using assms(1) by (auto simp: recheck_constraints_def recheck_evaluated_kinds_def)
  have k: "k \<noteq> lit ''required_present''" "k \<noteq> lit ''forbidden_field_combinations''"
    using assms(2) by (auto simp: evaluators_def)
  have "map_of rs k = map_of r1 k" "map_of r1 k = map_of r0 k"
    using r(2,3) k by (auto simp: recheck_required_present_def recheck_forbidden_combinations_def
        split: option.splits pyval.splits if_splits)
  moreover have "distinct (map fst evaluators)" by (simp add: evaluators_def)
  then obtain vs where "per_field ev c d = Inr vs" "map_of r0 k = Some (verdict_of vs)"
    using recheck_kinds_verdict[OF r(1) _ assms(2,3)] by blast
  ultimately show ?thesis using per_field_satisfied by simp
qed

end
