(* ===== verification/Approvals.thy ===== *)
theory Approvals
  imports Token
begin

text \<open>
  The approval manager, \<open>raucle/approvals.py\<close>: requests that a human approves or denies, each paying for
  one re-submitted call.  The clock reading, its printed form and the random suffix of a request id are
  arguments.  Every operation returns its result together with the manager after it, since looking up an
  overdue request marks it expired before it raises.
\<close>

section \<open>State\<close>

datatype status = Pending | Approved | Denied | Consumed | Expired

record ApprovalRequest =
  ar_request_id :: ustr
  ar_tool :: ustr
  ar_agent_id :: ustr
  ar_args_hash :: ustr
  ar_reason :: ustr
  ar_trace_id :: ustr
  ar_created_at :: rat
  ar_expires_at :: rat
  ar_status :: status
  ar_decided_at :: "rat option"
  ar_approver :: "ustr option"
  ar_decided_receipt :: "ustr option"

record ApprovalManager =
  am_ttl :: rat
  am_requests :: "(ustr \<times> ApprovalRequest) list"

datatype approval_exc = ApprovalError string nat | OtherError pyexc

type_synonym 'a approval_op = "(approval_exc + 'a) \<times> ApprovalManager"

definition new_manager :: "rat \<Rightarrow> ApprovalManager" where
  "new_manager ttl = \<lparr>am_ttl = ttl, am_requests = []\<rparr>"

definition args_hash :: "env \<Rightarrow> pydict \<Rightarrow> ustr res" where
  "args_hash E args = rbind (canonical_json E (PDict args)) (\<lambda>m. Inr (sha256_hex E m))"

definition put_request :: "ApprovalRequest \<Rightarrow> ApprovalManager \<Rightarrow> ApprovalManager" where
  "put_request r M = M\<lparr>am_requests := dict_set (ar_request_id r) r (am_requests M)\<rparr>"

section \<open>Operations\<close>

definition request_id_of :: "env \<Rightarrow> ustr \<Rightarrow> ustr \<Rightarrow> ustr \<Rightarrow> ustr \<Rightarrow> ustr \<Rightarrow> ustr res" where
  "request_id_of E t agent h now_text nonce =
     rbind (utf8_encode_strict (t @ agent @ h @ now_text @ nonce)) (\<lambda>bs.
     Inr (lit ''apr_'' @ take 16 (sha256_hex E bs)))"

definition create_request ::
  "env \<Rightarrow> rat \<Rightarrow> ustr \<Rightarrow> ustr \<Rightarrow> ustr \<Rightarrow> ustr \<Rightarrow> pydict \<Rightarrow> ustr \<Rightarrow> ustr \<Rightarrow> ApprovalManager \<Rightarrow> ApprovalRequest approval_op" where
  "create_request E now now_text nonce t agent args why trace M =
     (case rbind (args_hash E args) (\<lambda>h. rbind (request_id_of E t agent h now_text nonce) (\<lambda>i. Inr (h, i))) of
        Inl e \<Rightarrow> (Inl (OtherError e), M)
      | Inr (h, i) \<Rightarrow>
          let r = \<lparr>ar_request_id = i, ar_tool = t, ar_agent_id = agent, ar_args_hash = h, ar_reason = why,
                   ar_trace_id = trace, ar_created_at = now, ar_expires_at = now + am_ttl M,
                   ar_status = Pending, ar_decided_at = None, ar_approver = None,
                   ar_decided_receipt = None\<rparr>
          in (Inr r, put_request r M))"

definition get_request :: "rat \<Rightarrow> ustr \<Rightarrow> ApprovalManager \<Rightarrow> ApprovalRequest approval_op" where
  "get_request now i M = (case map_of (am_requests M) i of
       None \<Rightarrow> (Inl (ApprovalError ''unknown approval request'' 404), M)
     | Some r \<Rightarrow>
         if ar_status r = Pending \<and> ar_expires_at r \<le> now
         then (Inl (ApprovalError ''approval request expired'' 410), put_request (r\<lparr>ar_status := Expired\<rparr>) M)
         else (Inr r, M))"

text \<open>\<open>now\<close> and \<open>now'\<close> are the two readings of the clock: in the lookup and for the decision.\<close>

definition decide :: "rat \<Rightarrow> rat \<Rightarrow> ustr \<Rightarrow> bool \<Rightarrow> ustr \<Rightarrow> ApprovalManager \<Rightarrow> ApprovalRequest approval_op" where
  "decide now now' i approve who M = (case get_request now i M of
       (Inl e, M) \<Rightarrow> (Inl e, M)
     | (Inr r, M) \<Rightarrow>
         if ar_status r \<noteq> Pending then (Inl (ApprovalError ''not pending'' 409), M)
         else let r' = r\<lparr>ar_status := (if approve then Approved else Denied), ar_decided_at := Some now',
                         ar_approver := Some who\<rparr>
              in (Inr r', put_request r' M))"

definition consume :: "env \<Rightarrow> rat \<Rightarrow> ustr \<Rightarrow> ustr \<Rightarrow> ustr \<Rightarrow> pydict \<Rightarrow> ApprovalManager \<Rightarrow> ApprovalRequest approval_op" where
  "consume E now i t agent args M = (case get_request now i M of
       (Inl e, M) \<Rightarrow> (Inl e, M)
     | (Inr r, M) \<Rightarrow>
         if ar_status r \<noteq> Approved then (Inl (ApprovalError ''not approved'' 404), M)
         else if ar_tool r \<noteq> t \<or> ar_agent_id r \<noteq> agent
           then (Inl (ApprovalError ''does not match this tool or agent'' 404), M)
         else (case args_hash E args of
             Inl e \<Rightarrow> (Inl (OtherError e), M)
           | Inr h \<Rightarrow>
               if ar_args_hash r \<noteq> h then (Inl (ApprovalError ''does not match these arguments'' 404), M)
               else let r' = r\<lparr>ar_status := Consumed\<rparr> in (Inr r', put_request r' M)))"

definition pending_requests :: "rat \<Rightarrow> ApprovalManager \<Rightarrow> ApprovalRequest list" where
  "pending_requests now M =
     filter (\<lambda>r. ar_status r = Pending \<and> ar_expires_at r > now) (map snd (am_requests M))"

section \<open>Runs\<close>

text \<open>
  A run of the manager with the events of its successful operations.  A new request id is one not in use:
  the random suffix makes a repetition a digest collision.
\<close>

datatype approval_event =
    Create ustr ustr ustr ustr
  | Decide ustr bool
  | Consume ustr ustr ustr ustr

inductive approval_run :: "env \<Rightarrow> approval_event list \<Rightarrow> ApprovalManager \<Rightarrow> bool" for E where
  start: "approval_run E [] (new_manager ttl)"
| create: "approval_run E evs M \<Longrightarrow> create_request E now stamp nonce t agent args why trace M = (Inr r, M') \<Longrightarrow>
    \<not> has_key (am_requests M) (ar_request_id r) \<Longrightarrow>
    approval_run E (evs @ [Create (ar_request_id r) t agent (ar_args_hash r)]) M'"
| decide: "approval_run E evs M \<Longrightarrow> decide now now' i approve who M = (Inr r, M') \<Longrightarrow>
    approval_run E (evs @ [Decide i approve]) M'"
| consume: "approval_run E evs M \<Longrightarrow> consume E now i t agent args M = (Inr r, M') \<Longrightarrow>
    args_hash E args = Inr h \<Longrightarrow> approval_run E (evs @ [Consume i t agent h]) M'"
| failed_create: "approval_run E evs M \<Longrightarrow> create_request E now stamp nonce t agent args why trace M = (Inl e, M') \<Longrightarrow>
    approval_run E evs M'"
| failed_decide: "approval_run E evs M \<Longrightarrow> decide now now' i approve who M = (Inl e, M') \<Longrightarrow> approval_run E evs M'"
| failed_consume: "approval_run E evs M \<Longrightarrow> consume E now i t agent args M = (Inl e, M') \<Longrightarrow> approval_run E evs M'"

text \<open>What the events say a request may be.\<close>

definition explained :: "approval_event list \<Rightarrow> ustr \<times> ApprovalRequest \<Rightarrow> bool" where
  "explained evs kv = (let i = fst kv; r = snd kv; c = Consume i (ar_tool r) (ar_agent_id r) (ar_args_hash r) in
     ar_request_id r = i \<and> Create i (ar_tool r) (ar_agent_id r) (ar_args_hash r) \<in> set evs \<and>
     (ar_status r \<in> {Approved, Consumed} \<longrightarrow> Decide i True \<in> set evs) \<and>
     (ar_status r = Denied \<longrightarrow> Decide i False \<in> set evs) \<and>
     length (filter (\<lambda>e. \<exists>t a h. e = Consume i t a h) evs) = (if ar_status r = Consumed then 1 else 0) \<and>
     length (filter (\<lambda>e. \<exists>b. e = Decide i b) evs) = (if ar_status r \<in> {Pending, Expired} then 0 else 1))"

definition unseen :: "approval_event list \<Rightarrow> ustr \<Rightarrow> bool" where
  "unseen evs i = (\<forall>e\<in>set evs. (\<forall>t a h. e \<noteq> Create i t a h \<and> e \<noteq> Consume i t a h) \<and> (\<forall>b. e \<noteq> Decide i b))"

definition accounted :: "approval_event list \<Rightarrow> ApprovalManager \<Rightarrow> bool" where
  "accounted evs M = (\<forall>i. case map_of (am_requests M) i of None \<Rightarrow> unseen evs i | Some r \<Rightarrow> explained evs (i, r))"

section \<open>The invariant\<close>

primrec event_id :: "approval_event \<Rightarrow> ustr" where
  "event_id (Create i t a h) = i"
| "event_id (Decide i b) = i"
| "event_id (Consume i t a h) = i"

lemma lookup_put [simp]:
  "map_of (am_requests (put_request r M)) j = (if j = ar_request_id r then Some r else map_of (am_requests M) j)"
  by (simp add: put_request_def)

lemma explained_other: "event_id e \<noteq> j \<Longrightarrow> explained (evs @ [e]) (j, r) = explained evs (j, r)"
  by (cases e) (auto simp: explained_def Let_def)

lemma unseen_other: "event_id e \<noteq> j \<Longrightarrow> unseen (evs @ [e]) j = unseen evs j"
  by (cases e) (auto simp: unseen_def)

lemma accounted_step:
  assumes "accounted evs M" "explained (evs @ [e]) (event_id e, r)" "ar_request_id r = event_id e"
  shows "accounted (evs @ [e]) (put_request r M)"
  using assms explained_other[of e] unseen_other[of e]
  by (auto simp: accounted_def split: option.splits) (metis option.distinct(1))

lemma accounted_expire:
  assumes "accounted evs M" "map_of (am_requests M) i = Some r" "ar_status r = Pending"
  shows "accounted evs (put_request (r\<lparr>ar_status := Expired\<rparr>) M)"
proof -
  have "explained evs (i, r)" using assms(1,2) unfolding accounted_def by (metis option.simps(5))
  then have "explained evs (i, r\<lparr>ar_status := Expired\<rparr>)" "ar_request_id r = i" using assms(3) by (auto simp: explained_def Let_def)
  then show ?thesis using assms(1) by (auto simp: accounted_def split: option.splits)
qed

lemma get_request_Inr:
  "get_request now i M = (Inr r, M') \<longleftrightarrow> M' = M \<and> map_of (am_requests M) i = Some r \<and>
     \<not> (ar_status r = Pending \<and> ar_expires_at r \<le> now)"
  by (auto simp: get_request_def split: option.splits if_splits)

lemma get_request_Inl: "get_request now i M = (Inl e, M') \<Longrightarrow> accounted evs M \<Longrightarrow> accounted evs M'"
  by (auto simp: get_request_def accounted_expire split: option.splits if_splits)

lemma decide_Inr:
  assumes "decide now now' i approve who M = (Inr r', M')"
  obtains r where "map_of (am_requests M) i = Some r" "ar_status r = Pending" "now < ar_expires_at r"
    "r' = r\<lparr>ar_status := (if approve then Approved else Denied), ar_decided_at := Some now', ar_approver := Some who\<rparr>"
    "M' = put_request r' M"
  using assms by (auto simp: decide_def get_request_Inr Let_def split: prod.splits sum.splits if_splits)

lemma consume_Inr:
  assumes "consume E now i t agent args M = (Inr r', M')"
  obtains r where "map_of (am_requests M) i = Some r" "ar_status r = Approved" "ar_tool r = t" "ar_agent_id r = agent"
    "args_hash E args = Inr (ar_args_hash r)" "r' = r\<lparr>ar_status := Consumed\<rparr>" "M' = put_request r' M"
  using assms by (auto simp: consume_def get_request_Inr Let_def split: prod.splits sum.splits if_splits)

lemma create_Inr:
  assumes "create_request E now stamp nonce t agent args why trace M = (Inr r, M')"
  shows "M' = put_request r M" "ar_tool r = t" "ar_agent_id r = agent" "ar_status r = Pending"
    "args_hash E args = Inr (ar_args_hash r)" "ar_expires_at r = now + am_ttl M"
  using assms by (auto simp: create_request_def Let_def split: sum.splits prod.splits)

lemma accounted_lookup: "accounted evs M \<Longrightarrow> map_of (am_requests M) i = Some r \<Longrightarrow> explained evs (i, r)"
  unfolding accounted_def by (metis option.simps(5))

lemma accounted_absent: "accounted evs M \<Longrightarrow> map_of (am_requests M) i = None \<Longrightarrow> unseen evs i"
  unfolding accounted_def by (metis option.simps(4))

lemma run_accounted: "approval_run E evs M \<Longrightarrow> accounted evs M"
proof (induction rule: approval_run.induct)
  case (start ttl)
  then show ?case by (simp add: accounted_def new_manager_def unseen_def)
next
  case (create evs M now stamp nonce t agent args why trace r M')
  have "unseen evs (ar_request_id r)" using accounted_absent[OF create.IH] create.hyps(3) by (simp add: has_key_def)
  then have "explained (evs @ [Create (ar_request_id r) t agent (ar_args_hash r)]) (ar_request_id r, r)"
    using create_Inr(2-4)[OF create.hyps(2)] by (force simp: explained_def unseen_def Let_def filter_empty_conv)
  then show ?case using accounted_step[OF create.IH] create_Inr(1)[OF create.hyps(2)] by simp
next
  case (decide evs M now now' i approve who r M')
  from decide.hyps(2) obtain q where q: "map_of (am_requests M) i = Some q" "ar_status q = Pending" "M' = put_request r M"
    "r = q\<lparr>ar_status := (if approve then Approved else Denied), ar_decided_at := Some now', ar_approver := Some who\<rparr>"
    by (rule decide_Inr) blast
  have "explained (evs @ [Decide i approve]) (i, r)" "ar_request_id r = i"
    using accounted_lookup[OF decide.IH q(1)] q(2,4) by (auto simp: explained_def Let_def)
  then show ?case using accounted_step[OF decide.IH, of "Decide i approve" r] q(3) by simp
next
  case (consume evs M now i t agent args r M' h)
  from consume.hyps(2) obtain q where q: "map_of (am_requests M) i = Some q" "ar_status q = Approved" "M' = put_request r M"
    "r = q\<lparr>ar_status := Consumed\<rparr>" by (rule consume_Inr) blast
  have "explained (evs @ [Consume i t agent h]) (i, r)" "ar_request_id r = i"
    using accounted_lookup[OF consume.IH q(1)] q(2,4) by (auto simp: explained_def Let_def)
  then show ?case using accounted_step[OF consume.IH, of "Consume i t agent h" r] q(3) by simp
next
  case (failed_create evs M now stamp nonce t agent args why trace e M')
  then show ?case by (auto simp: create_request_def Let_def split: sum.splits prod.splits)
next
  case (failed_decide evs M now now' i approve who e M')
  then show ?case by (auto simp: decide_def Let_def get_request_Inr dest: get_request_Inl split: prod.splits sum.splits if_splits)
next
  case (failed_consume evs M now i t agent args e M')
  then show ?case by (auto simp: consume_def Let_def get_request_Inr dest: get_request_Inl split: prod.splits sum.splits if_splits)
qed

text \<open>No request pays for two calls.\<close>

lemma consumed_once:
  assumes "approval_run E evs M"
  shows "length (filter (\<lambda>e. \<exists>t a h. e = Consume i t a h) evs) \<le> 1"
proof (cases "map_of (am_requests M) i")
  case None
  then have "unseen evs i" by (rule accounted_absent[OF run_accounted[OF assms]])
  then have "filter (\<lambda>e. \<exists>t a h. e = Consume i t a h) evs = []" by (auto simp: unseen_def filter_empty_conv)
  then show ?thesis by simp
next
  case (Some r)
  then show ?thesis using accounted_lookup[OF run_accounted[OF assms]] by (auto simp: explained_def Let_def)
qed

text \<open>A consumed call is one a human approved: same tool, agent and arguments.\<close>

lemma consumed_approved:
  assumes "approval_run E evs M" "consume E now i t agent args M = (Inr r, M')"
  shows "\<exists>h. args_hash E args = Inr h \<and> Create i t agent h \<in> set evs \<and> Decide i True \<in> set evs \<and>
    (\<forall>t a h. Consume i t a h \<notin> set evs)"
proof -
  from assms(2) obtain q where q: "map_of (am_requests M) i = Some q" "ar_status q = Approved" "ar_tool q = t"
    "ar_agent_id q = agent" "args_hash E args = Inr (ar_args_hash q)" by (rule consume_Inr) blast
  have "explained evs (i, q)" using accounted_lookup[OF run_accounted[OF assms(1)] q(1)] .
  then show ?thesis using q by (auto simp: explained_def Let_def filter_empty_conv)
qed

end
