(* ===== verification/Records.thy ===== *)
theory Records
  imports Gate
begin

text \<open>
  Signed chain records: the standard-alphabet Base64 of \<open>base64.b64encode\<close> and \<open>b64decode\<close>, and the named-field
  signatures of \<open>raucle/pq.py\<close> that audit checkpoints carry, classical or hybrid.
\<close>

section \<open>Base64, standard alphabet\<close>

definition std_char :: "nat \<Rightarrow> nat" where
  "std_char c = (if c = 45 then 43 else if c = 95 then 47 else c)"

definition std_b64encode :: "bytes \<Rightarrow> ustr" where
  "std_b64encode bs = map std_char (b64_encode bs)"

text \<open>\<open>-\<close> and \<open>_\<close> are outside the standard alphabet, and the lenient decoder skips what is outside it.\<close>

definition std_b64decode :: "ustr \<Rightarrow> bytes res" where
  "std_b64decode s = (if list_all (\<lambda>c. c < 128) s
     then a2b 0 0 0 (filter (\<lambda>c. c \<noteq> 45 \<and> c \<noteq> 95) s) else Inl (ValueError ''ascii''))"

definition std_alphabet :: "nat \<Rightarrow> bool" where
  "std_alphabet c = (b64_val c \<noteq> None \<and> c \<noteq> 45 \<and> c \<noteq> 95)"

text \<open>\<open>validate=True\<close>: only the alphabet, then the padding that completes the last quad.\<close>

definition std_b64decode_strict :: "ustr \<Rightarrow> bytes res" where
  "std_b64decode_strict s =
     (let core = takeWhile std_alphabet s; pads = dropWhile std_alphabet s in
      if length s mod 4 = 0 \<and> length pads \<le> 2 \<and> list_all (\<lambda>c. c = b64_pad) pads
      then a2b 0 0 0 s else Inl (ValueError ''base64''))"

section \<open>Signers\<close>

text \<open>\<open>rs_pq\<close> is the post-quantum half of a \<open>HybridRecordSigner\<close>; a plain \<open>Ed25519Signer\<close> has none.\<close>

record RecordSigner =
  rs_key_id :: ustr
  rs_sign :: "bytes \<Rightarrow> bytes"
  rs_pq :: "(ustr \<times> (bytes \<Rightarrow> bytes)) option"

definition sign_record :: "RecordSigner \<Rightarrow> bytes \<Rightarrow> pydict" where
  "sign_record S m =
     (lit ''signature'', PStr (std_b64encode (rs_sign S m))) #
     (case rs_pq S of None \<Rightarrow> []
      | Some (kid, pqs) \<Rightarrow> [(lit ''pq_key_id'', PStr kid), (lit ''pq_signature'', PStr (std_b64encode (pqs m)))])"

definition verify_record_hybrid ::
  "env \<Rightarrow> pydict \<Rightarrow> bytes \<Rightarrow> (pydict \<Rightarrow> bool) \<Rightarrow> (ustr \<times> ustr option) list \<Rightarrow> bool res" where
  "verify_record_hybrid E rec m classical pq_keys =
     (let kid = get_or_none rec ''pq_key_id'' in
      if \<not> truthy kid then Inr (classical rec)
      else if pq_keys = [] then Inr False
      else rbind (lookup_raw pq_keys kid) (\<lambda>k. case k of
          Some (Some key) \<Rightarrow>
            (case get_or_none rec ''pq_signature'' of
               PStr s \<Rightarrow>
                 if s = [] then Inr False
                 else (case std_b64decode_strict s of
                     Inl e \<Rightarrow> Inr False
                   | Inr sig \<Rightarrow> Inr (length sig = 3309 \<and> classical rec \<and> pq_verify E key sig m))
             | _ \<Rightarrow> Inr False)
        | _ \<Rightarrow> Inr False))"

section \<open>Round trip\<close>

lemma b64_val_std: "b64_val (std_char c) = b64_val c"
  by (auto simp: std_char_def b64_val_def)

lemma std_char_pad: "std_char c = b64_pad \<longleftrightarrow> c = b64_pad"
  by (auto simp: std_char_def b64_pad_def)

lemma a2b_std: "a2b q left pads (map std_char s) = a2b q left pads s"
  by (induction q left pads s rule: a2b.induct) (auto simp: b64_val_std std_char_pad split: option.splits)

lemma std_char_range: "std_char c \<noteq> 45 \<and> std_char c \<noteq> 95"
  by (simp add: std_char_def)

lemma b64_core_val: "wf_bytes bs \<Longrightarrow> c \<in> set (b64_core bs) \<Longrightarrow> b64_val c \<noteq> None"
  by (induction bs rule: b64_core.induct) (auto simp: b64_char_props sextet_bounds)

lemma std_char_ascii: "c < 128 \<Longrightarrow> std_char c < 128"
  by (simp add: std_char_def)

lemma core_pads: "(4 - length (b64_core bs) mod 4) mod 4 \<le> 2"
  by (induction bs rule: b64_core.induct) auto

lemma std_encode_core:
  "wf_bytes bs \<Longrightarrow> \<exists>core n. std_b64encode bs = core @ replicate n b64_pad \<and> n \<le> 2 \<and> list_all std_alphabet core \<and>
     list_all (\<lambda>c. c < 128) core"
proof -
  assume wf: "wf_bytes bs"
  have "b64_encode bs = b64_core bs @ replicate ((4 - length (b64_core bs) mod 4) mod 4) b64_pad"
    using b64_encode_core wf by blast
  moreover have "(4 - length (b64_core bs) mod 4) mod 4 \<le> 2" by (rule core_pads)
  moreover have "list_all std_alphabet (map std_char (b64_core bs))" "list_all (\<lambda>c. c < 128) (map std_char (b64_core bs))"
    using b64_core_val[OF wf] b64_core_chars[OF wf] std_char_range std_char_ascii
    by (simp_all add: list_all_iff std_alphabet_def b64_val_std)
  moreover have "map std_char (replicate n b64_pad) = replicate n b64_pad" for n by (simp add: std_char_def b64_pad_def)
  ultimately show ?thesis unfolding std_b64encode_def by (metis map_append)
qed

lemma length_b64_encode: "length (b64_encode bs) mod 4 = 0"
  by (induction bs rule: b64_encode.induct) auto

lemma std_roundtrip:
  assumes "wf_bytes bs"
  shows "std_b64decode (std_b64encode bs) = Inr bs" "std_b64decode_strict (std_b64encode bs) = Inr bs"
proof -
  obtain core n where e: "std_b64encode bs = core @ replicate n b64_pad" "n \<le> 2" "list_all std_alphabet core"
    "list_all (\<lambda>c. c < 128) core" using std_encode_core[OF assms] by blast
  have a: "a2b 0 0 0 (std_b64encode bs) = Inr bs" using a2b_encode[OF assms] by (simp add: std_b64encode_def a2b_std)
  have "filter (\<lambda>c. c \<noteq> 45 \<and> c \<noteq> 95) (std_b64encode bs) = std_b64encode bs"
    by (simp add: std_b64encode_def filter_id_conv std_char_range)
  moreover have "list_all (\<lambda>c. c < 128) (std_b64encode bs)" using e by (auto simp: list_all_iff b64_pad_def)
  ultimately show "std_b64decode (std_b64encode bs) = Inr bs" using a by (simp add: std_b64decode_def)
  have "\<not> std_alphabet b64_pad" by (simp add: std_alphabet_def b64_val_def b64_pad_def)
  then have "dropWhile std_alphabet (std_b64encode bs) = replicate n b64_pad"
    using e(1,3) by (cases n) (auto simp: list_all_iff dropWhile_append)
  moreover have "length (std_b64encode bs) mod 4 = 0" by (simp add: std_b64encode_def length_b64_encode)
  ultimately show "std_b64decode_strict (std_b64encode bs) = Inr bs"
    using a e(2) by (simp add: std_b64decode_strict_def list_all_iff)
qed

end
