(* ===== verification/AuditChain.thy ===== *)
theory AuditChain
  imports Records Merkle
begin

text \<open>
  The tamper-evident audit chain, \<open>raucle/audit.py\<close>: the hash-chained sink with its header and signed
  checkpoints, resumption of an existing file, and the verifier.  A chain file is the list of its lines, a
  line being what \<open>json.loads\<close> makes of it; \<open>json.dumps\<close> writes a line that loads as the record written.
  Times are arguments, as printed.  A sink operation returns its result together with the sink and the
  file after it, since an exception does not undo what was written before.
\<close>

section \<open>Lines and encoding\<close>

datatype chain_line = Blank | NotJson | DuplicateKeys | Record pyval

fun finite_floats :: "pyval \<Rightarrow> bool" where
  "finite_floats (PFloat f) = (f \<notin> {PosInf, NegInf, NaN})"
| "finite_floats (PList xs) = list_all finite_floats xs"
| "finite_floats (PDict d) = list_all (\<lambda>kv. finite_floats (snd kv)) d"
| "finite_floats v = True"

definition audit_json :: "env \<Rightarrow> pyval \<Rightarrow> bytes res" where
  "audit_json E v =
     rbind (reorder_keys_utf16 v) (\<lambda>w.
     rbind (rcheck (finite_floats w) (ValueError ''out of range float values'')) (\<lambda>_.
     utf8_encode_strict (json_text (float_repr E) w)))"

definition leaf_bytes :: "pyval \<Rightarrow> bytes res" where
  "leaf_bytes h = (case h of PStr s \<Rightarrow> fromhex s | _ \<Rightarrow> Inl (TypeError ''fromhex''))"

definition merkle_root :: "env \<Rightarrow> pyval list \<Rightarrow> ustr res" where
  "merkle_root E leaf_hashes =
     (if leaf_hashes = [] then Inr (sha256_hex E [])
      else (case rmap leaf_bytes leaf_hashes of
          Inl e \<Rightarrow> Inl (ValueError ''non-hex leaf hash in chain'')
        | Inr level \<Rightarrow> Inr (hex_of (fold_root (\<lambda>l r. sha256 E (l @ r)) level))))"

section \<open>The sink\<close>

definition GENESIS_HASH :: ustr where "GENESIS_HASH = replicate 64 48"

record HashChainSink =
  hs_signer :: "RecordSigner option"
  hs_checkpoint_every :: int
  hs_leaf_hashes :: "pyval list"
  hs_next_index :: int
  hs_prev_hash :: pyval
  hs_owns_file :: bool
  hs_closed :: bool

text \<open>What the sink is given: an open stream with what it holds, or a path, with the file's lines if it exists.\<close>

datatype target = Stream "chain_line list" | Path "chain_line list option"

type_synonym 'a sink_op = "'a res \<times> HashChainSink \<times> chain_line list"

definition header_body :: "RecordSigner option \<Rightarrow> ustr \<Rightarrow> pydict" where
  "header_body signer stamp =
     [(lit ''chain_meta'', PBool True), (lit ''version'', PInt 1), (lit ''signed'', PBool (signer \<noteq> None)),
      (lit ''created_at'', PStr stamp)]
     @ (case signer of None \<Rightarrow> [] | Some s \<Rightarrow> [(lit ''key_id'', PStr (rs_key_id s))])"

definition chain_header :: "env \<Rightarrow> RecordSigner option \<Rightarrow> ustr \<Rightarrow> pydict res" where
  "chain_header E signer stamp = (case signer of
       None \<Rightarrow> Inr (header_body signer stamp)
     | Some s \<Rightarrow> rbind (audit_json E (PDict (header_body signer stamp))) (\<lambda>m.
         Inr (header_body signer stamp @ sign_record s m)))"

text \<open>
  The index of a resumed record is the integer the sink wrote; a float there, which it never writes, is
  outside the model.
\<close>

definition succ_index :: "pyval \<Rightarrow> int res" where
  "succ_index v = (case v of PInt i \<Rightarrow> Inr (i + 1) | PBool b \<Rightarrow> Inr (if b then 2 else 1)
     | _ \<Rightarrow> Inl (TypeError ''index''))"

definition resume_line :: "chain_line \<Rightarrow> HashChainSink \<Rightarrow> HashChainSink res" where
  "resume_line line S = (case line of
       Blank \<Rightarrow> Inr S
     | NotJson \<Rightarrow> Inr S
     | DuplicateKeys \<Rightarrow> Inl (ValueError ''duplicate key'')
     | Record (PDict d) \<Rightarrow>
         if truthy (get_or_none d ''checkpoint'') \<or> truthy (get_or_none d ''chain_meta'') then Inr S
         else rbind (succ_index (dict_get d (lit ''index'') (PInt (- 1)))) (\<lambda>i.
           Inr (S\<lparr>hs_prev_hash := dict_get d (lit ''hash'') (hs_prev_hash S), hs_next_index := i,
                  hs_leaf_hashes := hs_leaf_hashes S @ [dict_get d (lit ''hash'') (PStr [])]\<rparr>))
     | Record _ \<Rightarrow> Inl (AttributeError ''get''))"

definition resume :: "chain_line list \<Rightarrow> HashChainSink \<Rightarrow> HashChainSink res" where
  "resume lines = rfold resume_line lines"

definition blank_sink :: "RecordSigner option \<Rightarrow> int \<Rightarrow> bool \<Rightarrow> HashChainSink" where
  "blank_sink signer every owns =
     \<lparr>hs_signer = signer, hs_checkpoint_every = every, hs_leaf_hashes = [], hs_next_index = 0,
      hs_prev_hash = PStr GENESIS_HASH, hs_owns_file = owns, hs_closed = False\<rparr>"

definition new_sink ::
  "env \<Rightarrow> RecordSigner option \<Rightarrow> int \<Rightarrow> ustr \<Rightarrow> target \<Rightarrow> (HashChainSink \<times> chain_line list) res" where
  "new_sink E signer every stamp target = (case target of
       Stream lines \<Rightarrow> rbind (chain_header E signer stamp) (\<lambda>h.
         Inr (blank_sink signer every False, lines @ [Record (PDict h)]))
     | Path None \<Rightarrow> rbind (chain_header E signer stamp) (\<lambda>h.
         Inr (blank_sink signer every True, [Record (PDict h)]))
     | Path (Some lines) \<Rightarrow> rbind (resume lines (blank_sink signer every True)) (\<lambda>S. Inr (S, lines)))"

text \<open>A write to a closed file raises \<open>ValueError\<close>.\<close>

definition write_line :: "pydict \<Rightarrow> HashChainSink \<Rightarrow> chain_line list \<Rightarrow> chain_line list res" where
  "write_line d S lines = (if hs_closed S then Inl (ValueError ''I/O operation on closed file'')
     else Inr (lines @ [Record (PDict d)]))"

definition checkpoint_body :: "pyval \<Rightarrow> pyval \<Rightarrow> pyval \<Rightarrow> pydict" where
  "checkpoint_body index tree_root kid = [(lit ''index'', index), (lit ''merkle_root'', tree_root), (lit ''key_id'', kid)]"

definition emit_checkpoint :: "env \<Rightarrow> ustr \<Rightarrow> HashChainSink \<Rightarrow> chain_line list \<Rightarrow> pydict option sink_op" where
  "emit_checkpoint E stamp S lines = (case hs_signer S of
       None \<Rightarrow> (Inr None, S, lines)
     | Some s \<Rightarrow>
         if hs_leaf_hashes S = [] then (Inr None, S, lines)
         else (case rbind (merkle_root E (hs_leaf_hashes S)) (\<lambda>mr.
               let b = checkpoint_body (PInt (hs_next_index S)) (PStr mr) (PStr (rs_key_id s)) in
               rbind (audit_json E (PDict b)) (\<lambda>m.
               let ck = (lit ''checkpoint'', PBool True) # b @ (lit ''timestamp'', PStr stamp) # sign_record s m in
               rbind (write_line ck S lines) (\<lambda>lines'. Inr (ck, lines')))) of
             Inl e \<Rightarrow> (Inl e, S, lines)
           | Inr (ck, lines') \<Rightarrow> (Inr (Some ck), S, lines')))"

definition event_record :: "HashChainSink \<Rightarrow> ustr \<Rightarrow> pyval \<Rightarrow> pydict" where
  "event_record S stamp event =
     [(lit ''index'', PInt (hs_next_index S)), (lit ''timestamp'', PStr stamp), (lit ''prev_hash'', hs_prev_hash S),
      (lit ''event'', event)]"

text \<open>\<open>stamp\<close> and \<open>stamp'\<close> are the times of the record and of a checkpoint that falls due.\<close>

definition append_event ::
  "env \<Rightarrow> ustr \<Rightarrow> ustr \<Rightarrow> pyval \<Rightarrow> HashChainSink \<Rightarrow> chain_line list \<Rightarrow> pydict sink_op" where
  "append_event E stamp stamp' event S lines =
     (case rbind (audit_json E (PDict (event_record S stamp event))) (\<lambda>m.
        let rec = event_record S stamp event @ [(lit ''hash'', PStr (sha256_hex E m))] in
        rbind (write_line rec S lines) (\<lambda>lines'. Inr (rec, sha256_hex E m, lines'))) of
        Inl e \<Rightarrow> (Inl e, S, lines)
      | Inr (rec, h, lines') \<Rightarrow>
          let S' = S\<lparr>hs_leaf_hashes := hs_leaf_hashes S @ [PStr h], hs_prev_hash := PStr h,
                     hs_next_index := hs_next_index S + 1\<rparr> in
          if hs_signer S' \<noteq> None \<and> hs_checkpoint_every S' > 0 \<and> hs_next_index S' mod hs_checkpoint_every S' = 0
          then (case emit_checkpoint E stamp' S' lines' of
              (Inl e, S'', lines'') \<Rightarrow> (Inl e, S'', lines'')
            | (Inr _, S'', lines'') \<Rightarrow> (Inr rec, S'', lines''))
          else (Inr rec, S', lines'))"

definition close_sink :: "env \<Rightarrow> ustr \<Rightarrow> HashChainSink \<Rightarrow> chain_line list \<Rightarrow> unit sink_op" where
  "close_sink E stamp S lines =
     (case (if hs_signer S = None then (Inr None, S, lines) else emit_checkpoint E stamp S lines) of
        (Inl e, S', lines') \<Rightarrow> (Inl e, S', lines')
      | (Inr _, S', lines') \<Rightarrow> (Inr (), if hs_owns_file S' then S'\<lparr>hs_closed := True\<rparr> else S', lines'))"

section \<open>The verifier\<close>

datatype signed_mode = Signed | Unsigned | Unverifiable | UnknownMode

record VerificationReport =
  vr_valid :: bool
  vr_event_count :: nat
  vr_checkpoint_count :: nat
  vr_valid_signatures :: nat
  vr_invalid_signatures :: nat
  vr_first_invalid :: pyval
  vr_errors :: "string list"
  vr_signed_mode :: signed_mode
  vr_chain_key_id :: pyval

definition report0 :: VerificationReport where
  "report0 = \<lparr>vr_valid = True, vr_event_count = 0, vr_checkpoint_count = 0, vr_valid_signatures = 0,
     vr_invalid_signatures = 0, vr_first_invalid = PNone, vr_errors = [], vr_signed_mode = UnknownMode,
     vr_chain_key_id = PNone\<rparr>"

record AuditVerifier =
  av_public_key :: "ustr option"
  av_pq_public_keys :: "(ustr \<times> ustr option) list"
  av_require_pq :: bool

text \<open>The Ed25519 key is one that loads; the constructor raises otherwise.\<close>

definition new_audit_verifier :: "env \<Rightarrow> ustr option \<Rightarrow> (ustr \<times> ustr) list \<Rightarrow> bool \<Rightarrow> AuditVerifier" where
  "new_audit_verifier E pem pq require_pq =
     \<lparr>av_public_key = (if pem = Some [] then None else pem),
      av_pq_public_keys = map (\<lambda>(kid, p). (kid, pq_load E p)) pq, av_require_pq = require_pq\<rparr>"

definition fault :: "string \<Rightarrow> VerificationReport \<Rightarrow> VerificationReport" where
  "fault msg r = r\<lparr>vr_errors := vr_errors r @ [msg], vr_valid := False\<rparr>"

definition fault_at :: "string \<Rightarrow> pyval \<Rightarrow> VerificationReport \<Rightarrow> VerificationReport" where
  "fault_at msg i r = (fault msg r)\<lparr>vr_first_invalid := (if vr_first_invalid r = PNone then i else vr_first_invalid r)\<rparr>"

definition bad_signature :: "string \<Rightarrow> VerificationReport \<Rightarrow> VerificationReport" where
  "bad_signature msg r = (fault msg r)\<lparr>vr_invalid_signatures := vr_invalid_signatures r + 1\<rparr>"

definition or_else :: "pyval \<Rightarrow> pyval \<Rightarrow> pyval" where
  "or_else a b = (if truthy a then a else b)"

definition verify_event_record ::
  "env \<Rightarrow> pydict \<Rightarrow> nat \<Rightarrow> pyval \<Rightarrow> VerificationReport \<Rightarrow> (VerificationReport \<times> pyval) res" where
  "verify_event_record E d n prev r =
     (let i = PInt (int n); stored = get_or_none d ''hash'';
          r1 = (if py_eq (get_or_none d ''index'') i then r
                else fault_at ''index mismatch'' (dict_get d (lit ''index'') i) r);
          r2 = (if py_eq (get_or_none d ''prev_hash'') prev then r1 else fault_at ''prev_hash mismatch'' i r1)
      in rbind (audit_json E (PDict (dict_pop (lit ''hash'') d))) (\<lambda>m.
         Inr (if py_eq stored (PStr (sha256_hex E m)) then r2 else fault_at ''hash mismatch'' i r2,
              or_else stored (PStr []))))"

definition ed_check :: "env \<Rightarrow> ustr \<Rightarrow> pyval \<Rightarrow> bytes res \<Rightarrow> bool" where
  "ed_check E key sig m = (case (sig, m) of
       (PStr s, Inr bs) \<Rightarrow> (case std_b64decode s of Inl e \<Rightarrow> False | Inr raw \<Rightarrow> ed_verify E key raw bs)
     | _ \<Rightarrow> False)"

definition strip_signatures :: "pydict \<Rightarrow> pydict" where
  "strip_signatures d = filter (\<lambda>kv. fst kv \<notin> {lit ''signature'', lit ''pq_key_id'', lit ''pq_signature''}) d"

definition hybrid_fields :: "pydict \<Rightarrow> pydict" where
  "hybrid_fields d = [(lit ''signature'', get_or_none d ''signature''), (lit ''pq_key_id'', get_or_none d ''pq_key_id''),
     (lit ''pq_signature'', dict_get d (lit ''pq_signature'') (PStr []))]"

definition verify_signed_chain_header ::
  "env \<Rightarrow> AuditVerifier \<Rightarrow> pydict \<Rightarrow> VerificationReport \<Rightarrow> VerificationReport res" where
  "verify_signed_chain_header E V d r0 =
     (let r = r0\<lparr>vr_chain_key_id := or_else (get_or_none d ''key_id'') (PStr [])\<rparr>;
          sig = get_or_none d ''signature''; m = audit_json E (PDict (strip_signatures d))
      in if \<not> truthy sig then Inr (fault ''chain_meta declares signed but has no signature'' r)
         else case av_public_key V of
           None \<Rightarrow> Inr (fault ''no public key was supplied'' (r\<lparr>vr_signed_mode := Unverifiable\<rparr>))
         | Some key \<Rightarrow>
             if \<not> ed_check E key sig m then Inr (bad_signature ''chain_meta signature verification failed'' r)
             else if av_require_pq V \<and> \<not> truthy (get_or_none d ''pq_key_id'')
               then Inr (fault ''require_pq: chain_meta carries no ML-DSA-65 component'' r)
             else if \<not> truthy (get_or_none d ''pq_key_id'') then Inr r
             else rbind m (\<lambda>bs.
                  rbind (verify_record_hybrid E (hybrid_fields d) bs (\<lambda>_. True) (av_pq_public_keys V)) (\<lambda>ok.
                  Inr (if ok then r else fault ''chain_meta hybrid ML-DSA-65 component failed'' r))))"

definition verify_chain_header ::
  "env \<Rightarrow> AuditVerifier \<Rightarrow> pydict \<Rightarrow> VerificationReport \<Rightarrow> VerificationReport res" where
  "verify_chain_header E V d r =
     (if vr_signed_mode r \<noteq> UnknownMode then Inr (fault ''duplicate chain_meta header'' r)
      else if truthy (get_or_none d ''signed'')
        then verify_signed_chain_header E V d (r\<lparr>vr_signed_mode := Signed\<rparr>)
      else Inr (r\<lparr>vr_signed_mode := Unsigned\<rparr>))"

text \<open>
  The signature part of a checkpoint runs under a handler for every exception.  The post-quantum key id is
  looked up under it too, so an unhashable one counts as a failed verification.
\<close>

definition verify_checkpoint_signature ::
  "env \<Rightarrow> AuditVerifier \<Rightarrow> ustr \<Rightarrow> pydict \<Rightarrow> pyval \<Rightarrow> VerificationReport \<Rightarrow> VerificationReport" where
  "verify_checkpoint_signature E V key d index r =
     (let sig = get_or_none d ''signature'';
          m = audit_json E (PDict (checkpoint_body index (get_or_none d ''merkle_root'')
                (dict_get d (lit ''key_id'') (PStr []))))
      in if \<not> ed_check E key sig m then bad_signature ''signature verification failed'' r
         else if av_require_pq V \<and> \<not> truthy (get_or_none d ''pq_key_id'')
           then bad_signature ''require_pq: no ML-DSA-65 component'' r
         else if truthy (get_or_none d ''pq_key_id'') \<and>
             rbind m (\<lambda>bs. verify_record_hybrid E (hybrid_fields d) bs (\<lambda>_. True) (av_pq_public_keys V)) \<noteq> Inr True
           then bad_signature ''hybrid ML-DSA-65 component failed verification'' r
         else r\<lparr>vr_valid_signatures := vr_valid_signatures r + 1\<rparr>)"

definition verify_checkpoint ::
  "env \<Rightarrow> AuditVerifier \<Rightarrow> pydict \<Rightarrow> pyval list \<Rightarrow> nat \<Rightarrow> VerificationReport \<Rightarrow> VerificationReport" where
  "verify_checkpoint E V d leaf_hashes n r0 =
     (let r = r0\<lparr>vr_checkpoint_count := vr_checkpoint_count r0 + 1\<rparr>;
          index = dict_get d (lit ''index'') (PInt (- 1)) in
      if vr_signed_mode r = Unsigned then fault ''signed checkpoint in unsigned chain'' r
      else if \<not> py_eq index (PInt (int n)) then fault ''checkpoint does not match chain head'' r
      else case merkle_root E leaf_hashes of
          Inl e \<Rightarrow> fault ''non-hex leaf hash: chain tampered'' r
        | Inr mr \<Rightarrow>
            if \<not> py_eq (get_or_none d ''merkle_root'') (PStr mr) then fault ''merkle_root mismatch'' r
            else if truthy (vr_chain_key_id r) \<and> \<not> py_eq (dict_get d (lit ''key_id'') (PStr [])) (vr_chain_key_id r)
              then fault ''key_id does not match chain_meta'' r
            else (case av_public_key V of
                None \<Rightarrow> r
              | Some key \<Rightarrow> verify_checkpoint_signature E V key d index r))"

record chain_state =
  cs_report :: VerificationReport
  cs_prev :: pyval
  cs_index :: nat
  cs_leaves :: "pyval list"
  cs_last_checkpoint :: pyval
  cs_last_event :: int
  cs_last_hash :: pyval

definition chain_state0 :: chain_state where
  "chain_state0 = \<lparr>cs_report = report0, cs_prev = PStr GENESIS_HASH, cs_index = 0, cs_leaves = [],
     cs_last_checkpoint = PInt (- 1), cs_last_event = - 1, cs_last_hash = PNone\<rparr>"

definition verify_line :: "env \<Rightarrow> AuditVerifier \<Rightarrow> chain_line \<Rightarrow> chain_state \<Rightarrow> chain_state res" where
  "verify_line E V line C = (case line of
       Blank \<Rightarrow> Inr C
     | NotJson \<Rightarrow> Inr (C\<lparr>cs_report := fault ''invalid JSON'' (cs_report C)\<rparr>)
     | DuplicateKeys \<Rightarrow> Inl (ValueError ''duplicate key'')
     | Record (PDict d) \<Rightarrow>
         if truthy (get_or_none d ''chain_meta'') then
           rbind (verify_chain_header E V d (cs_report C)) (\<lambda>r. Inr (C\<lparr>cs_report := r\<rparr>))
         else if truthy (get_or_none d ''checkpoint'') then
           (let r = verify_checkpoint E V d (cs_leaves C) (cs_index C) (cs_report C) in
            Inr (C\<lparr>cs_report := r, cs_last_checkpoint :=
              (if vr_valid_signatures r > vr_valid_signatures (cs_report C)
               then dict_get d (lit ''index'') (PInt (- 1)) else cs_last_checkpoint C)\<rparr>))
         else
           rbind (verify_event_record E d (cs_index C) (cs_prev C) (cs_report C)) (\<lambda>(r, stored).
           Inr (C\<lparr>cs_report := r\<lparr>vr_event_count := vr_event_count r + 1\<rparr>, cs_leaves := cs_leaves C @ [stored],
             cs_prev := or_else stored (cs_prev C), cs_last_event := int (cs_index C),
             cs_last_hash := stored, cs_index := cs_index C + 1\<rparr>))
     | Record _ \<Rightarrow> Inl (AttributeError ''get''))"

definition verify_downgrade_and_truncation :: "AuditVerifier \<Rightarrow> chain_state \<Rightarrow> chain_state res" where
  "verify_downgrade_and_truncation V C =
     (let r = cs_report C;
          r1 = (if av_public_key V \<noteq> None \<and> vr_signed_mode r \<noteq> Signed
                then fault ''AUDIT-DOWNGRADE'' r else r) in
      if av_public_key V \<noteq> None \<and> vr_signed_mode r1 = Signed \<and> cs_last_event C \<ge> 0
      then rbind (py_lt (cs_last_checkpoint C) (PInt (cs_last_event C + 1))) (\<lambda>short.
           Inr (C\<lparr>cs_report := (if short then fault ''AUDIT-TRUNC'' r1 else r1)\<rparr>))
      else Inr (C\<lparr>cs_report := r1\<rparr>))"

definition verify_expected_head :: "env \<Rightarrow> pydict \<Rightarrow> chain_state \<Rightarrow> VerificationReport" where
  "verify_expected_head E head C =
     (let r = cs_report C; i = get_or_none head ''index''; h = get_or_none head ''hash'';
          mr = get_or_none head ''merkle_root'';
          r1 = (if i \<noteq> PNone \<and> \<not> py_eq i (PInt (cs_last_event C)) then fault ''head index mismatch'' r else r);
          r2 = (if h \<noteq> PNone \<and> \<not> py_eq h (cs_last_hash C) then fault ''head hash mismatch'' r1 else r1)
      in if mr = PNone then r2
         else case merkle_root E (cs_leaves C) of
             Inl e \<Rightarrow> fault ''head merkle_root: chain tampered'' r2
           | Inr actual \<Rightarrow> if py_eq mr (PStr actual) then r2 else fault ''head merkle_root mismatch'' r2)"

definition verify_chain ::
  "env \<Rightarrow> AuditVerifier \<Rightarrow> chain_line list \<Rightarrow> pydict option \<Rightarrow> VerificationReport res" where
  "verify_chain E V lines expected_head =
     rbind (rfold (verify_line E V) lines chain_state0) (\<lambda>C.
     rbind (verify_downgrade_and_truncation V C) (\<lambda>C.
     Inr (case expected_head of None \<Rightarrow> cs_report C | Some head \<Rightarrow> verify_expected_head E head C)))"

end
