(* ===== verification/AuditLaws.thy ===== *)
theory AuditLaws
  imports AuditChain GateLaws
begin

text \<open>
  What the audit chain promises.  A chain written by the sink, over any sequence of its operations and
  across restarts, verifies; two chains that verify with the same last hash hold the same records; and
  with a key, a chain that verifies has a signed checkpoint over all of its records.
\<close>

section \<open>A sink and its verifier\<close>

definition trusted_signer :: "env \<Rightarrow> AuditVerifier \<Rightarrow> RecordSigner \<Rightarrow> bool" where
  "trusted_signer E V s = (rs_key_id s \<noteq> [] \<and>
     (\<exists>key. av_public_key V = Some key \<and>
        (\<forall>m. wf_bytes (rs_sign s m) \<and> rs_sign s m \<noteq> [] \<and> ed_verify E key (rs_sign s m) m)) \<and>
     (case rs_pq s of
        None \<Rightarrow> \<not> av_require_pq V
      | Some (kid, pqs) \<Rightarrow> kid \<noteq> [] \<and> (\<exists>k. map_of (av_pq_public_keys V) kid = Some (Some k) \<and>
          (\<forall>m. wf_bytes (pqs m) \<and> length (pqs m) = 3309 \<and> pq_verify E k (pqs m) m))))"

definition matched :: "env \<Rightarrow> AuditVerifier \<Rightarrow> RecordSigner option \<Rightarrow> bool" where
  "matched E V signer = (case signer of None \<Rightarrow> av_public_key V = None | Some s \<Rightarrow> trusted_signer E V s)"

lemma std_encode_nonempty: "bs \<noteq> [] \<Longrightarrow> std_b64encode bs \<noteq> []"
  by (cases bs rule: b64_encode.cases) (auto simp: std_b64encode_def)

lemma ed_check_signed:
  "trusted_signer E V s \<Longrightarrow> av_public_key V = Some key \<Longrightarrow> ed_check E key (PStr (std_b64encode (rs_sign s m))) (Inr m)"
  by (auto simp: trusted_signer_def ed_check_def std_roundtrip)

lemma hybrid_signed:
  assumes "trusted_signer E V s" "rs_pq s = Some (kid, pqs)"
    "get_or_none d ''pq_key_id'' = PStr kid" "map_of d (lit ''pq_signature'') = Some (PStr (std_b64encode (pqs m)))"
  shows "verify_record_hybrid E (hybrid_fields d) m (\<lambda>_. True) (av_pq_public_keys V) = Inr True"
proof -
  obtain k where k: "kid \<noteq> []" "map_of (av_pq_public_keys V) kid = Some (Some k)"
    "\<forall>m. wf_bytes (pqs m) \<and> length (pqs m) = 3309 \<and> pq_verify E k (pqs m) m"
    using assms(1,2) by (auto simp: trusted_signer_def)
  have "pqs m \<noteq> []" using k(3) by (metis list.size(3) zero_neq_numeral)
  then show ?thesis
    using k assms(3,4) std_encode_nonempty[of "pqs m"] std_roundtrip(2)[of "pqs m"]
    by (auto simp: verify_record_hybrid_def hybrid_fields_def dict_get_def lookup_raw_def py_hashable_def Let_def)
qed

section \<open>What the sink writes\<close>

definition writes_ok :: "HashChainSink \<Rightarrow> chain_state \<Rightarrow> bool" where
  "writes_ok S C = (vr_valid (cs_report C) \<and> cs_prev C = hs_prev_hash S \<and> int (cs_index C) = hs_next_index S \<and>
     cs_leaves C = hs_leaf_hashes S \<and> length (hs_leaf_hashes S) = cs_index C \<and>
     (\<forall>h\<in>set (hs_leaf_hashes S). \<exists>bs. h = PStr (hex_of bs) \<and> wf_bytes bs) \<and>
     (\<exists>p. hs_prev_hash S = PStr p) \<and> vr_event_count (cs_report C) = cs_index C \<and>
     cs_last_event C = int (cs_index C) - 1 \<and>
     vr_signed_mode (cs_report C) = (if hs_signer S = None then Unsigned else Signed) \<and>
     vr_chain_key_id (cs_report C) = (case hs_signer S of None \<Rightarrow> PNone | Some s \<Rightarrow> PStr (rs_key_id s)))"

lemma sign_record_lookup:
  "map_of (sign_record s m) (lit ''signature'') = Some (PStr (std_b64encode (rs_sign s m)))"
  "map_of (sign_record s m) (lit ''pq_key_id'') = map_option (\<lambda>p. PStr (fst p)) (rs_pq s)"
  "map_of (sign_record s m) (lit ''pq_signature'') = map_option (\<lambda>p. PStr (std_b64encode (snd p m))) (rs_pq s)"
  "strip_signatures (sign_record s m) = []"
  by (auto simp: sign_record_def strip_signatures_def split: option.splits)

lemma sign_record_other:
  "k \<notin> {lit ''signature'', lit ''pq_key_id'', lit ''pq_signature''} \<Longrightarrow> map_of (sign_record s m) k = None"
  by (auto simp: sign_record_def split: option.splits)

lemma header_verifies:
  assumes h: "chain_header E signer stamp = Inr h" and V: "matched E V signer"
  shows "\<exists>C. verify_line E V (Record (PDict h)) chain_state0 = Inr C \<and> writes_ok (blank_sink signer every owns) C"
proof (cases signer)
  case None
  then show ?thesis using h
    by (auto simp: chain_header_def header_body_def verify_line_def verify_chain_header_def dict_get_def chain_state0_def
        report0_def writes_ok_def blank_sink_def)
next
  case (Some s)
  then have ts: "trusted_signer E V s" using V by (simp add: matched_def)
  then obtain key where key: "av_public_key V = Some key" "rs_key_id s \<noteq> []" by (auto simp: trusted_signer_def)
  obtain m where m: "audit_json E (PDict (header_body signer stamp)) = Inr m" "h = header_body signer stamp @ sign_record s m"
    using h Some by (auto simp: chain_header_def)
  have strip: "strip_signatures h = header_body signer stamp"
    using m(2) sign_record_lookup(4)[of s m] Some by (simp add: strip_signatures_def header_body_def)
  have l: "get_or_none h ''chain_meta'' = PBool True" "get_or_none h ''signed'' = PBool True"
    "get_or_none h ''key_id'' = PStr (rs_key_id s)" "get_or_none h ''signature'' = PStr (std_b64encode (rs_sign s m))"
    "get_or_none h ''pq_key_id'' = (case rs_pq s of None \<Rightarrow> PNone | Some p \<Rightarrow> PStr (fst p))"
    using m(2) Some sign_record_lookup[of s m] by (auto simp: dict_get_def header_body_def split: option.splits)
  have sig: "std_b64encode (rs_sign s m) \<noteq> []" using ts std_encode_nonempty by (auto simp: trusted_signer_def)
  have "verify_signed_chain_header E V h (report0\<lparr>vr_signed_mode := Signed\<rparr>) =
      Inr (report0\<lparr>vr_signed_mode := Signed, vr_chain_key_id := PStr (rs_key_id s)\<rparr>)"
  proof (cases "rs_pq s")
    case None
    then have "\<not> av_require_pq V" using ts by (simp add: trusted_signer_def)
    then show ?thesis using None l strip m(1) key sig ed_check_signed[OF ts key(1)]
      by (simp add: verify_signed_chain_header_def or_else_def Let_def)
  next
    case (Some p)
    obtain kid pqs where p: "p = (kid, pqs)" by (cases p)
    have "kid \<noteq> []" using ts Some p by (simp add: trusted_signer_def)
    moreover have "map_of h (lit ''pq_signature'') = Some (PStr (std_b64encode (pqs m)))"
      using m(2) Some p sign_record_lookup(3)[of s m] by (simp add: header_body_def split: option.splits)
    ultimately show ?thesis
      using Some p l strip m(1) key sig ed_check_signed[OF ts key(1)] hybrid_signed[OF ts, of kid pqs h m]
      by (simp add: verify_signed_chain_header_def or_else_def Let_def)
  qed
  then show ?thesis using Some l
    by (auto simp: verify_line_def verify_chain_header_def chain_state0_def report0_def writes_ok_def blank_sink_def)
qed

lemma event_lookup:
  assumes "rec = event_record S stamp ev @ [(lit ''hash'', PStr h)]"
  shows "get_or_none rec ''index'' = PInt (hs_next_index S)" "get_or_none rec ''prev_hash'' = hs_prev_hash S"
    "get_or_none rec ''hash'' = PStr h" "get_or_none rec ''chain_meta'' = PNone" "get_or_none rec ''checkpoint'' = PNone"
    "dict_pop (lit ''hash'') rec = event_record S stamp ev"
  by (simp_all add: assms event_record_def dict_get_def)

lemma sha256_hex_nonempty: "digest32 E \<Longrightarrow> sha256_hex E m \<noteq> []"
proof -
  assume "digest32 E"
  then have "length (sha256_hex E m) = 64" by (simp add: digest32_def sha256_hex_def)
  then show ?thesis by auto
qed

lemma event_verifies:
  assumes D: "digest32 E" and ok: "writes_ok S C"
    and m: "audit_json E (PDict (event_record S stamp ev)) = Inr m"
    and rec: "rec = event_record S stamp ev @ [(lit ''hash'', PStr (sha256_hex E m))]"
    and S': "S' = S\<lparr>hs_leaf_hashes := hs_leaf_hashes S @ [PStr (sha256_hex E m)], hs_prev_hash := PStr (sha256_hex E m),
       hs_next_index := hs_next_index S + 1\<rparr>"
  shows "\<exists>C'. verify_line E V (Record (PDict rec)) C = Inr C' \<and> writes_ok S' C'"
proof -
  note l = event_lookup[OF rec]
  have "wf_bytes (sha256 E m)" using D by (simp add: digest32_def)
  moreover have "py_eq (PInt i) (PInt i)" for i by (simp add: num_eq_def)
  moreover have "py_eq (hs_prev_hash S) (cs_prev C)" using ok by (auto simp: writes_ok_def)
  ultimately show ?thesis
    using ok l m sha256_hex_nonempty[OF D, of m] S'
    by (auto simp: verify_line_def verify_event_record_def writes_ok_def or_else_def Let_def sha256_hex_def)
qed

lemma checkpoint_verifies:
  assumes ok: "writes_ok S C" and s: "hs_signer S = Some s" and ts: "trusted_signer E V s"
    and mr: "merkle_root E (hs_leaf_hashes S) = Inr mr"
    and m: "audit_json E (PDict (checkpoint_body (PInt (hs_next_index S)) (PStr mr) (PStr (rs_key_id s)))) = Inr m"
    and ck: "ck = (lit ''checkpoint'', PBool True) # checkpoint_body (PInt (hs_next_index S)) (PStr mr) (PStr (rs_key_id s))
       @ (lit ''timestamp'', PStr stamp) # sign_record s m"
  shows "\<exists>C'. verify_line E V (Record (PDict ck)) C = Inr C' \<and> writes_ok S C' \<and>
    cs_last_checkpoint C' = PInt (hs_next_index S)"
proof -
  obtain key where key: "av_public_key V = Some key" using ts by (auto simp: trusted_signer_def)
  have l: "get_or_none ck ''chain_meta'' = PNone" "get_or_none ck ''checkpoint'' = PBool True"
    "dict_get ck (lit ''index'') d = PInt (hs_next_index S)" "get_or_none ck ''merkle_root'' = PStr mr"
    "dict_get ck (lit ''key_id'') d = PStr (rs_key_id s)"
    "get_or_none ck ''signature'' = PStr (std_b64encode (rs_sign s m))"
    "get_or_none ck ''pq_key_id'' = (case rs_pq s of None \<Rightarrow> PNone | Some p \<Rightarrow> PStr (fst p))" for d
    using sign_record_lookup[of s m] sign_record_other[of "lit ''chain_meta''" s m]
    by (auto simp: ck checkpoint_body_def dict_get_def split: option.splits)
  have signed: "verify_checkpoint_signature E V key ck (PInt (hs_next_index S)) r = r\<lparr>vr_valid_signatures := vr_valid_signatures r + 1\<rparr>" for r
  proof (cases "rs_pq s")
    case None
    then have "\<not> av_require_pq V" using ts by (simp add: trusted_signer_def)
    then show ?thesis using None l m ed_check_signed[OF ts key] by (simp add: verify_checkpoint_signature_def Let_def)
  next
    case (Some p)
    obtain kid pqs where p: "p = (kid, pqs)" by (cases p)
    have "kid \<noteq> []" using ts Some p by (simp add: trusted_signer_def)
    moreover have "map_of ck (lit ''pq_signature'') = Some (PStr (std_b64encode (pqs m)))"
      using Some p sign_record_lookup(3)[of s m] by (simp add: ck checkpoint_body_def)
    ultimately show ?thesis
      using Some p l m ed_check_signed[OF ts key] hybrid_signed[OF ts, of kid pqs ck m]
      by (simp add: verify_checkpoint_signature_def Let_def)
  qed
  have "py_eq (PInt (hs_next_index S)) (PInt (int (cs_index C)))" using ok by (simp add: writes_ok_def num_eq_def)
  then have "verify_checkpoint E V ck (cs_leaves C) (cs_index C) (cs_report C) =
      (cs_report C)\<lparr>vr_checkpoint_count := vr_checkpoint_count (cs_report C) + 1,
        vr_valid_signatures := vr_valid_signatures (cs_report C) + 1\<rparr>"
    using ok l s mr key signed by (simp add: verify_checkpoint_def writes_ok_def Let_def)
  then show ?thesis using ok l by (auto simp: verify_line_def writes_ok_def Let_def)
qed

section \<open>Runs of the sink\<close>

text \<open>
  The sink's life: created on a new file or an empty stream, any operations, failed ones included, and a
  restart that resumes the file with the same signer.
\<close>

inductive sink_run :: "env \<Rightarrow> RecordSigner option \<Rightarrow> HashChainSink \<Rightarrow> chain_line list \<Rightarrow> bool" for E signer where
  create: "new_sink E signer every stamp target = Inr (S, lines) \<Longrightarrow> target = Path None \<or> target = Stream [] \<Longrightarrow>
    sink_run E signer S lines"
| append: "sink_run E signer S lines \<Longrightarrow> append_event E stamp stamp' ev S lines = (r, S', lines') \<Longrightarrow>
    sink_run E signer S' lines'"
| checkpoint: "sink_run E signer S lines \<Longrightarrow> emit_checkpoint E stamp S lines = (r, S', lines') \<Longrightarrow>
    sink_run E signer S' lines'"
| close: "sink_run E signer S lines \<Longrightarrow> close_sink E stamp S lines = (r, S', lines') \<Longrightarrow> sink_run E signer S' lines'"
| restart: "sink_run E signer S lines \<Longrightarrow> new_sink E signer every stamp (Path (Some lines)) = Inr (S', lines') \<Longrightarrow>
    sink_run E signer S' lines'"

definition same_tail :: "HashChainSink \<Rightarrow> HashChainSink \<Rightarrow> bool" where
  "same_tail S T = (hs_leaf_hashes T = hs_leaf_hashes S \<and> hs_next_index T = hs_next_index S \<and>
     hs_prev_hash T = hs_prev_hash S \<and> hs_signer T = hs_signer S)"

definition consistent :: "env \<Rightarrow> AuditVerifier \<Rightarrow> HashChainSink \<Rightarrow> chain_line list \<Rightarrow> bool" where
  "consistent E V S lines = ((\<exists>C. rfold (verify_line E V) lines chain_state0 = Inr C \<and> writes_ok S C) \<and>
     (\<forall>every owns. \<exists>T. resume lines (blank_sink (hs_signer S) every owns) = Inr T \<and> same_tail S T))"

lemma writes_ok_same_tail: "writes_ok S C \<Longrightarrow> same_tail S T \<Longrightarrow> writes_ok T C"
  by (simp add: writes_ok_def same_tail_def)

lemma consistent_same_tail: "consistent E V S lines \<Longrightarrow> same_tail S T \<Longrightarrow> consistent E V T lines"
  unfolding consistent_def using writes_ok_same_tail by (fastforce simp: same_tail_def)

lemma consistent_line:
  assumes "consistent E V S lines" "hs_signer S' = hs_signer S"
    and "\<And>C. writes_ok S C \<Longrightarrow> \<exists>C'. verify_line E V l C = Inr C' \<and> writes_ok S' C'"
    and "\<And>T. same_tail S T \<Longrightarrow> \<exists>T'. resume_line l T = Inr T' \<and> same_tail S' T'"
  shows "consistent E V S' (lines @ [l])"
proof -
  obtain C where C: "rfold (verify_line E V) lines chain_state0 = Inr C" "writes_ok S C" using assms(1) by (auto simp: consistent_def)
  have "\<exists>T. resume (lines @ [l]) (blank_sink (hs_signer S') every owns) = Inr T \<and> same_tail S' T" for every owns
    using assms(1,2,4) by (fastforce simp: consistent_def resume_def rfold_append)
  then show ?thesis using C assms(3)[OF C(2)] by (auto simp: consistent_def rfold_append)
qed

lemma emit_checkpoint_cases:
  assumes "emit_checkpoint E stamp S lines = (r, S', lines')"
  obtains "S' = S" "lines' = lines" "(\<exists>e. r = Inl e) \<or> hs_signer S = None \<or> hs_leaf_hashes S = []"
  | s mr m ck where "S' = S" "hs_signer S = Some s" "merkle_root E (hs_leaf_hashes S) = Inr mr"
    "audit_json E (PDict (checkpoint_body (PInt (hs_next_index S)) (PStr mr) (PStr (rs_key_id s)))) = Inr m"
    "ck = (lit ''checkpoint'', PBool True) # checkpoint_body (PInt (hs_next_index S)) (PStr mr) (PStr (rs_key_id s))
       @ (lit ''timestamp'', PStr stamp) # sign_record s m"
    "r = Inr (Some ck)" "lines' = lines @ [Record (PDict ck)]" "\<not> hs_closed S"
  using assms
  by (auto simp: emit_checkpoint_def Let_def write_line_def rbind_def split: option.splits if_splits sum.splits prod.splits)

lemma consistent_checkpoint:
  assumes c: "consistent E V S lines" and V: "matched E V (hs_signer S)"
    and e: "emit_checkpoint E stamp S lines = (r, S', lines')"
  shows "consistent E V S' lines' \<and> S' = S"
  using e
proof (cases rule: emit_checkpoint_cases)
  case (2 s mr m ck)
  have "trusted_signer E V s" using V 2(2) by (simp add: matched_def)
  then have "\<exists>C'. verify_line E V (Record (PDict ck)) C = Inr C' \<and> writes_ok S C'" if "writes_ok S C" for C
    using checkpoint_verifies[OF that 2(2) _ 2(3,4,5)] by blast
  moreover have "resume_line (Record (PDict ck)) T = Inr T" for T
    by (simp add: resume_line_def 2(5) dict_get_def)
  ultimately have "consistent E V S (lines @ [Record (PDict ck)])" using consistent_line[OF c, of S] by blast
  then show ?thesis using 2 by simp
qed (use c in simp)

lemma append_event_cases:
  assumes "append_event E stamp stamp' ev S lines = (r, S', lines')"
  obtains e where "r = Inl e" "S' = S" "lines' = lines"
  | m rec T where "audit_json E (PDict (event_record S stamp ev)) = Inr m"
    "rec = event_record S stamp ev @ [(lit ''hash'', PStr (sha256_hex E m))]"
    "T = S\<lparr>hs_leaf_hashes := hs_leaf_hashes S @ [PStr (sha256_hex E m)], hs_prev_hash := PStr (sha256_hex E m),
       hs_next_index := hs_next_index S + 1\<rparr>"
    "S' = T \<and> lines' = lines @ [Record (PDict rec)] \<or>
     (\<exists>q. emit_checkpoint E stamp' T (lines @ [Record (PDict rec)]) = (q, S', lines'))"
proof (cases "audit_json E (PDict (event_record S stamp ev))")
  case (Inl e)
  then show thesis using assms that(1)[of e] by (auto simp: append_event_def)
next
  case (Inr m)
  show thesis
  proof (cases "hs_closed S")
    case True
    then show thesis using assms that(1) Inr by (auto simp: append_event_def write_line_def Let_def)
  next
    case False
    show thesis
      by (rule that(2)[OF Inr refl refl])
        (use assms Inr False in \<open>auto simp: append_event_def write_line_def Let_def split: if_splits prod.splits sum.splits\<close>)
  qed
qed

lemma consistent_event:
  assumes D: "digest32 E" and c: "consistent E V S lines"
    and m: "audit_json E (PDict (event_record S stamp ev)) = Inr m"
    and rec: "rec = event_record S stamp ev @ [(lit ''hash'', PStr (sha256_hex E m))]"
    and T: "T = S\<lparr>hs_leaf_hashes := hs_leaf_hashes S @ [PStr (sha256_hex E m)], hs_prev_hash := PStr (sha256_hex E m),
       hs_next_index := hs_next_index S + 1\<rparr>"
  shows "consistent E V T (lines @ [Record (PDict rec)])"
proof (rule consistent_line[OF c])
  show "\<exists>C'. verify_line E V (Record (PDict rec)) C = Inr C' \<and> writes_ok T C'" if "writes_ok S C" for C
    by (rule event_verifies[OF D that m rec T])
  show "\<exists>T'. resume_line (Record (PDict rec)) U = Inr T' \<and> same_tail T T'" if "same_tail S U" for U
    using that event_lookup[OF rec] by (simp add: resume_line_def same_tail_def T rec event_record_def dict_get_def succ_index_def)
qed (simp add: T)

lemma run_consistent:
  assumes D: "digest32 E" and V: "matched E V signer"
  shows "sink_run E signer S lines \<Longrightarrow> consistent E V S lines \<and> hs_signer S = signer"
proof (induction rule: sink_run.induct)
  case (create every stamp target S lines)
  then obtain h owns where h: "chain_header E signer stamp = Inr h" "S = blank_sink signer every owns" "lines = [Record (PDict h)]"
    by (auto simp: new_sink_def)
  have "resume_line (Record (PDict h)) T = Inr T" for T
    using h(1) by (auto simp: chain_header_def header_body_def resume_line_def dict_get_def split: option.splits)
  then show ?case using h header_verifies[OF h(1) V, of every owns]
    by (auto simp: consistent_def resume_def same_tail_def blank_sink_def)
next
  case (append S lines stamp stamp' ev r S' lines')
  from append.hyps(2) show ?case
  proof (cases rule: append_event_cases)
    case (2 m rec T)
    have c: "consistent E V T (lines @ [Record (PDict rec)])" using consistent_event[OF D _ 2(1-3)] append.IH by blast
    moreover have "hs_signer T = signer" using append.IH 2(3) by simp
    ultimately show ?thesis using 2(4) V consistent_checkpoint[OF c] by metis
  qed (use append.IH in simp)
next
  case (checkpoint S lines stamp r S' lines')
  then show ?case using consistent_checkpoint V by metis
next
  case (close S lines stamp r S' lines')
  have "\<exists>T. consistent E V T lines' \<and> hs_signer T = signer \<and> same_tail T S'"
    using close V consistent_checkpoint[of E V S lines stamp]
    by (auto simp: close_sink_def same_tail_def split: if_splits sum.splits prod.splits)
  then show ?case using consistent_same_tail by (fastforce simp: same_tail_def)
next
  case (restart S lines every stamp S' lines')
  then obtain T where "resume lines (blank_sink signer every True) = Inr T" "same_tail S T"
    unfolding consistent_def by blast
  then show ?case using restart consistent_same_tail by (auto simp: new_sink_def same_tail_def)
qed

lemma verify_end:
  assumes "writes_ok S C" "matched E V (hs_signer S)" "rfold (verify_line E V) lines chain_state0 = Inr C"
    and "hs_signer S = None \<or> hs_leaf_hashes S = [] \<or> cs_last_checkpoint C = PInt (hs_next_index S)"
  shows "verify_chain E V lines None = Inr (cs_report C)"
proof -
  have "int (cs_index C) = hs_next_index S" "cs_last_event C = int (cs_index C) - 1" "length (hs_leaf_hashes S) = cs_index C"
    "vr_signed_mode (cs_report C) = (if hs_signer S = None then Unsigned else Signed)" "vr_valid (cs_report C)"
    using assms(1) by (auto simp: writes_ok_def)
  note w = this
  show ?thesis
  proof (cases "hs_signer S")
    case None
    then have "av_public_key V = None" using assms(2) by (simp add: matched_def)
    then show ?thesis using assms(3) by (simp add: verify_chain_def verify_downgrade_and_truncation_def Let_def)
  next
    case (Some s)
    have "py_lt (cs_last_checkpoint C) (PInt (cs_last_event C + 1)) = Inr False" if "cs_last_event C \<ge> 0"
      using assms(4) Some w that by auto
    then show ?thesis using assms(3) Some w by (simp add: verify_chain_def verify_downgrade_and_truncation_def Let_def)
  qed
qed

lemma closed_state:
  assumes D: "digest32 E" and V: "matched E V signer" and run: "sink_run E signer S lines"
    and cl: "close_sink E stamp S lines = (Inr (), S', lines')"
  shows "\<exists>C'. rfold (verify_line E V) lines' chain_state0 = Inr C' \<and> writes_ok S C' \<and>
      (hs_signer S = None \<or> hs_leaf_hashes S = [] \<or> cs_last_checkpoint C' = PInt (hs_next_index S))"
proof -
  have c: "consistent E V S lines" "hs_signer S = signer" using run_consistent[OF D V run] by auto
  obtain C where C: "rfold (verify_line E V) lines chain_state0 = Inr C" "writes_ok S C" using c(1) by (auto simp: consistent_def)
  show ?thesis
  proof (cases signer)
    case None
    then show ?thesis using C cl c(2) by (auto simp: close_sink_def split: if_splits)
  next
    case (Some s)
    then obtain q T where e: "emit_checkpoint E stamp S lines = (Inr q, T, lines')"
      using cl c(2) by (auto simp: close_sink_def split: sum.splits prod.splits if_splits)
    then show ?thesis
    proof (cases rule: emit_checkpoint_cases)
      case (2 s mr m ck)
      have "trusted_signer E V s" using V 2(2) c(2) by (simp add: matched_def)
      from checkpoint_verifies[OF C(2) 2(2) this 2(3,4,5)] show ?thesis using C(1) 2(7) by (auto simp: rfold_append)
    qed (use C in auto)
  qed
qed

lemma closed_chain_verifies:
  assumes D: "digest32 E" and V: "matched E V signer" and run: "sink_run E signer S lines"
    and cl: "close_sink E stamp S lines = (Inr (), S', lines')"
  shows "\<exists>r. verify_chain E V lines' None = Inr r \<and> vr_valid r \<and> int (vr_event_count r) = hs_next_index S \<and>
    vr_signed_mode r = (if signer = None then Unsigned else Signed)"
proof -
  obtain C where C: "rfold (verify_line E V) lines' chain_state0 = Inr C" "writes_ok S C"
    "hs_signer S = None \<or> hs_leaf_hashes S = [] \<or> cs_last_checkpoint C = PInt (hs_next_index S)"
    using closed_state[OF assms] by blast
  have s: "hs_signer S = signer" using run_consistent[OF D V run] by blast
  have "verify_chain E V lines' None = Inr (cs_report C)" using verify_end[OF C(2) _ C(1,3)] V s by simp
  then show ?thesis using C(2) s by (auto simp: writes_ok_def)
qed

text \<open>Resuming a file gives back the sink that wrote it.\<close>

lemma resume_restores:
  assumes "digest32 E" "matched E V signer" "sink_run E signer S lines"
    and "new_sink E signer every stamp (Path (Some lines)) = Inr (T, lines')"
  shows "lines' = lines \<and> hs_leaf_hashes T = hs_leaf_hashes S \<and> hs_next_index T = hs_next_index S \<and>
    hs_prev_hash T = hs_prev_hash S"
proof -
  obtain U where "resume lines (blank_sink signer every True) = Inr U" "same_tail S U"
    using run_consistent[OF assms(1-3)] unfolding consistent_def by blast
  then show ?thesis using assms(4) by (auto simp: new_sink_def same_tail_def)
qed

section \<open>Tamper evidence\<close>

definition is_event :: "pydict \<Rightarrow> bool" where
  "is_event d = (\<not> truthy (get_or_none d ''chain_meta'') \<and> \<not> truthy (get_or_none d ''checkpoint''))"

definition chain_events :: "chain_line list \<Rightarrow> pydict list" where
  "chain_events lines = concat (map (\<lambda>l. case l of Record (PDict d) \<Rightarrow> if is_event d then [d] else [] | _ \<Rightarrow> []) lines)"

abbreviation event_body :: "pydict \<Rightarrow> pyval" where
  "event_body d \<equiv> PDict (dict_pop (lit ''hash'') d)"

text \<open>One record after a given hash, at a given index.\<close>

definition links :: "env \<Rightarrow> pydict \<Rightarrow> pyval \<Rightarrow> nat \<Rightarrow> bool" where
  "links E d prev n = (py_eq (get_or_none d ''index'') (PInt (int n)) \<and> py_eq (get_or_none d ''prev_hash'') prev \<and>
     (\<exists>m. audit_json E (event_body d) = Inr m \<and> get_or_none d ''hash'' = PStr (sha256_hex E m)))"

definition tail_hash :: "pyval \<Rightarrow> pydict list \<Rightarrow> pyval" where
  "tail_hash prev ds = (if ds = [] then prev else get_or_none (last ds) ''hash'')"

definition linked :: "env \<Rightarrow> pydict list \<Rightarrow> bool" where
  "linked E ds = (\<forall>i<length ds. links E (ds ! i) (tail_hash (PStr GENESIS_HASH) (take i ds)) i)"

lemma linked_snoc: "linked E (ds @ [d]) \<longleftrightarrow> linked E ds \<and> links E d (tail_hash (PStr GENESIS_HASH) ds) (length ds)"
  by (auto simp: linked_def nth_append less_Suc_eq)

lemma faults_invalid [simp]:
  "\<not> vr_valid (fault msg r)" "\<not> vr_valid (fault_at msg i r)" "\<not> vr_valid (bad_signature msg r)"
  by (simp_all add: fault_def fault_at_def bad_signature_def)

lemma verify_chain_header_valid:
  "verify_chain_header E V d r = Inr r' \<Longrightarrow> vr_valid r' \<Longrightarrow> vr_valid r"
  by (auto simp: verify_chain_header_def verify_signed_chain_header_def Let_def split: if_splits option.splits)

lemma verify_checkpoint_valid: "vr_valid (verify_checkpoint E V d ls n r) \<Longrightarrow> vr_valid r"
  by (auto simp: verify_checkpoint_def verify_checkpoint_signature_def Let_def split: if_splits option.splits sum.splits)

lemma fault_at_fix: "fault_at msg i r = r \<Longrightarrow> \<not> vr_valid r"
  by (metis faults_invalid(2))

lemma verify_event_valid:
  "verify_event_record E d n prev r = Inr (r', stored) \<Longrightarrow> vr_valid r' \<Longrightarrow> digest32 E \<Longrightarrow>
    vr_valid r \<and> links E d prev n \<and> stored = get_or_none d ''hash'' \<and> truthy stored"
  using sha256_hex_nonempty[of E]
  by (auto simp: verify_event_record_def links_def or_else_def Let_def py_eq_PStr_right simp del: py_eq.simps
      split: if_splits dest: fault_at_fix[OF sym])

lemma chain_events_snoc:
  "chain_events (lines @ [l]) = chain_events lines @ (case l of Record (PDict d) \<Rightarrow> if is_event d then [d] else [] | _ \<Rightarrow> [])"
  by (simp add: chain_events_def)

definition event_hashes :: "chain_line list \<Rightarrow> pyval list" where
  "event_hashes lines = map (\<lambda>d. get_or_none d ''hash'') (chain_events lines)"

definition reads_ok :: "env \<Rightarrow> chain_line list \<Rightarrow> chain_state \<Rightarrow> bool" where
  "reads_ok E lines C = (linked E (chain_events lines) \<and> cs_prev C = tail_hash (PStr GENESIS_HASH) (chain_events lines) \<and>
     cs_index C = length (chain_events lines) \<and> cs_leaves C = event_hashes lines \<and>
     cs_last_event C = int (length (chain_events lines)) - 1 \<and>
     vr_event_count (cs_report C) = length (chain_events lines) \<and>
     (chain_events lines \<noteq> [] \<longrightarrow> cs_last_hash C = tail_hash (PStr GENESIS_HASH) (chain_events lines)))"

lemma counts_kept [simp]:
  "vr_event_count (fault msg r) = vr_event_count r" "vr_event_count (fault_at msg i r) = vr_event_count r"
  "vr_event_count (bad_signature msg r) = vr_event_count r"
  by (simp_all add: fault_def fault_at_def bad_signature_def)

lemma verify_chain_header_count: "verify_chain_header E V d r = Inr r' \<Longrightarrow> vr_event_count r' = vr_event_count r"
  by (auto simp: verify_chain_header_def verify_signed_chain_header_def Let_def split: if_splits option.splits)

lemma verify_checkpoint_count: "vr_event_count (verify_checkpoint E V d ls n r) = vr_event_count r"
  by (simp add: verify_checkpoint_def verify_checkpoint_signature_def Let_def split: option.splits sum.splits)

lemma verify_event_count: "verify_event_record E d n prev r = Inr (r', stored) \<Longrightarrow> vr_event_count r' = vr_event_count r"
  by (auto simp: verify_event_record_def Let_def split: if_splits)

lemma verify_line_reads:
  assumes "verify_line E V l C = Inr C'" "vr_valid (cs_report C')" "digest32 E"
  shows "vr_valid (cs_report C) \<and> (reads_ok E lines C \<longrightarrow> reads_ok E (lines @ [l]) C')"
proof (cases l)
  case (Record v)
  then obtain d where d: "v = PDict d" using assms(1) by (cases v) (auto simp: verify_line_def)
  consider "truthy (get_or_none d ''chain_meta'')" | "\<not> truthy (get_or_none d ''chain_meta'')" "truthy (get_or_none d ''checkpoint'')"
    | "is_event d" by (auto simp: is_event_def)
  then show ?thesis
  proof cases
    case 1
    then show ?thesis using assms(1,2) Record d verify_chain_header_valid verify_chain_header_count
      by (fastforce simp: verify_line_def reads_ok_def event_hashes_def chain_events_snoc is_event_def)
  next
    case 2
    let ?r = "verify_checkpoint E V d (cs_leaves C) (cs_index C) (cs_report C)"
    obtain c where C': "C' = C\<lparr>cs_report := ?r, cs_last_checkpoint := c\<rparr>"
      using 2 assms(1) Record d by (simp add: verify_line_def Let_def) blast
    have "chain_events (lines @ [l]) = chain_events lines" using 2 Record d by (simp add: chain_events_snoc is_event_def)
    moreover have "vr_valid (cs_report C)" using assms(2) C' verify_checkpoint_valid by auto
    ultimately show ?thesis by (simp add: C' reads_ok_def event_hashes_def verify_checkpoint_count)
  next
    case 3
    then obtain r stored where r: "verify_event_record E d (cs_index C) (cs_prev C) (cs_report C) = Inr (r, stored)"
      and C': "C' = C\<lparr>cs_report := r\<lparr>vr_event_count := vr_event_count r + 1\<rparr>, cs_leaves := cs_leaves C @ [stored],
             cs_prev := or_else stored (cs_prev C), cs_last_event := int (cs_index C),
             cs_last_hash := stored, cs_index := cs_index C + 1\<rparr>"
      using assms(1) Record d by (auto simp: verify_line_def is_event_def)
    have "vr_valid r" using assms(2) C' by simp
    from verify_event_valid[OF r this assms(3)] verify_event_count[OF r] show ?thesis
      using C' Record d 3
      by (auto simp: reads_ok_def event_hashes_def chain_events_snoc linked_snoc tail_hash_def or_else_def)
  qed
qed (use assms in \<open>auto simp: verify_line_def reads_ok_def event_hashes_def chain_events_snoc\<close>)

lemma verified_reads:
  "rfold (verify_line E V) lines chain_state0 = Inr C \<Longrightarrow> vr_valid (cs_report C) \<Longrightarrow> digest32 E \<Longrightarrow> reads_ok E lines C"
proof (induction lines arbitrary: C rule: rev_induct)
  case Nil
  then show ?case
    by (auto simp: chain_state0_def report0_def reads_ok_def linked_def chain_events_def event_hashes_def tail_hash_def)
next
  case (snoc l lines)
  then obtain B where "rfold (verify_line E V) lines chain_state0 = Inr B" "verify_line E V l B = Inr C"
    by (auto simp: rfold_append)
  then show ?case using snoc verify_line_reads by blast
qed

lemma expected_head_valid: "vr_valid (verify_expected_head E head C) \<Longrightarrow> vr_valid (cs_report C)"
  by (auto simp: verify_expected_head_def Let_def split: if_splits sum.splits)

lemma downgrade_kept:
  "verify_downgrade_and_truncation V C = Inr C' \<Longrightarrow> vr_valid (cs_report C') \<Longrightarrow>
     cs_report C' = cs_report C \<and> cs_last_hash C' = cs_last_hash C \<and> cs_leaves C' = cs_leaves C \<and> cs_last_event C' = cs_last_event C"
  by (auto simp: verify_downgrade_and_truncation_def Let_def split: if_splits)

lemma verify_chain_valid:
  assumes "verify_chain E V lines head = Inr r" "vr_valid r" "digest32 E"
  obtains C C' where "rfold (verify_line E V) lines chain_state0 = Inr C" "vr_valid (cs_report C)" "reads_ok E lines C"
    "verify_downgrade_and_truncation V C = Inr C'" "vr_valid (cs_report C')"
    "r = (case head of None \<Rightarrow> cs_report C' | Some h \<Rightarrow> verify_expected_head E h C')"
proof -
  obtain C C' where C: "rfold (verify_line E V) lines chain_state0 = Inr C" "verify_downgrade_and_truncation V C = Inr C'"
    "r = (case head of None \<Rightarrow> cs_report C' | Some h \<Rightarrow> verify_expected_head E h C')"
    using assms(1) by (auto simp: verify_chain_def)
  then have v: "vr_valid (cs_report C')" using assms(2) expected_head_valid by (auto split: option.splits)
  then have "vr_valid (cs_report C)" using downgrade_kept[OF C(2)] by simp
  then show thesis using that C v verified_reads[OF C(1)] assms(3) by blast
qed

text \<open>A closed chain verifies against the head its writer anchors: the sink's last hash.\<close>

lemma closed_chain_anchored:
  assumes D: "digest32 E" and V: "matched E V signer" and run: "sink_run E signer S lines"
    and cl: "close_sink E stamp S lines = (Inr (), S', lines')" and ne: "hs_leaf_hashes S \<noteq> []"
  shows "\<exists>r. verify_chain E V lines' (Some [(lit ''hash'', hs_prev_hash S)]) = Inr r \<and> vr_valid r"
proof -
  obtain C where C: "rfold (verify_line E V) lines' chain_state0 = Inr C" "writes_ok S C"
    "hs_signer S = None \<or> hs_leaf_hashes S = [] \<or> cs_last_checkpoint C = PInt (hs_next_index S)"
    using closed_state[OF D V run cl] by blast
  have s: "hs_signer S = signer" using run_consistent[OF D V run] by blast
  have v: "vr_valid (cs_report C)" using C(2) by (simp add: writes_ok_def)
  have rd: "reads_ok E lines' C" by (rule verified_reads[OF C(1) v D])
  have w: "cs_leaves C = hs_leaf_hashes S" "cs_prev C = hs_prev_hash S" "\<exists>p. hs_prev_hash S = PStr p"
    using C(2) unfolding writes_ok_def by blast+
  have "chain_events lines' \<noteq> []" using rd ne w(1) unfolding reads_ok_def event_hashes_def by force
  then have l: "cs_last_hash C = hs_prev_hash S" using rd w(2) unfolding reads_ok_def by metis
  have "verify_chain E V lines' None = Inr (cs_report C)" using verify_end[OF C(2) _ C(1,3)] V s by simp
  then obtain C' where C': "verify_downgrade_and_truncation V C = Inr C'" "cs_report C' = cs_report C"
    using C(1) by (auto simp: verify_chain_def)
  have "vr_valid (cs_report C')" using C'(2) v by simp
  then have "cs_last_hash C' = cs_last_hash C" using downgrade_kept[OF C'(1)] by blast
  then show ?thesis using C(1) C' l w(3) v by (auto simp: verify_chain_def verify_expected_head_def dict_get_def)
qed

section \<open>The last hash fixes the chain\<close>

lemma reorder_wf: "reorder_keys_utf16 v = Inr w \<Longrightarrow> wf_val v \<Longrightarrow> wf_val w"
proof (induction v arbitrary: w)
  case (PList xs)
  then obtain ys where w: "w = PList ys" and l: "rmap reorder_keys_utf16 xs = Inr ys" by auto
  then show ?case using PList by (auto dest!: rmap_source[OF l])
next
  case (PDict d)
  then obtain d' where w: "w = PDict d'"
    and l: "rmap (\<lambda>kv. rbind (reorder_keys_utf16 (snd kv)) (\<lambda>v. Inr (fst kv, v))) (sort_key (utf16_be \<circ> fst) d) = Inr d'"
    by auto
  have l2: "list_all2 (\<lambda>kv kv'. fst kv' = fst kv \<and> reorder_keys_utf16 (snd kv) = Inr (snd kv')) (sort_key (utf16_be \<circ> fst) d) d'"
    using l unfolding rmap_pairs .
  have "map fst d' = map fst (sort_key (utf16_be \<circ> fst) d)"
    using l2 by (induction rule: list_all2_induct) auto
  then have "distinct (map fst d')" using PDict.prems(2) distinct_map_sort_key[of fst "utf16_be \<circ> fst" d] by simp
  moreover have "wf_str (fst kv') \<and> wf_val (snd kv')" if kv': "kv' \<in> set d'" for kv'
  proof -
    obtain kv where kv: "kv \<in> set d" "fst kv' = fst kv" "reorder_keys_utf16 (snd kv) = Inr (snd kv')"
      using list_all2_members[OF l2 kv'] by auto
    have "wf_str (fst kv)" "wf_val (snd kv)" using PDict.prems(2) kv(1) by auto
    then show ?thesis using PDict.IH[of kv "snd kv" "snd kv'"] kv by (cases kv) simp
  qed
  ultimately show ?case by (simp add: w)
qed auto

lemma wf_str_simps [simp]: "wf_str []" "wf_str (c # s) \<longleftrightarrow> c < 0x110000 \<and> wf_str s" "wf_str (s @ t) \<longleftrightarrow> wf_str s \<and> wf_str t"
  by (auto simp: wf_str_def)

lemma wf_escape: "c < 0x110000 \<Longrightarrow> wf_str (escape_char c)"
  using mod_less_divisor[of 16 c] by (auto simp: escape_char_def hex_digit_def)

lemma wf_json_str: "wf_str s \<Longrightarrow> wf_str (json_str s)"
  by (induction s) (simp_all add: json_str_def wf_escape)

lemma wf_dec_int: "wf_str (dec_int i)"
  by (auto simp: dec_int_def wf_str_def list_all_iff dest!: dec_nat_digits)

lemma wf_joined: "wf_str (joined xs) \<longleftrightarrow> (\<forall>x\<in>set xs. wf_str x)"
  by (induction xs rule: joined.induct) auto

lemma wf_json_text: "float_free v \<Longrightarrow> wf_val v \<Longrightarrow> wf_str (json_text fr v)"
proof (induction v)
  case (PDict d)
  then show ?case by (fastforce simp: wf_joined wf_json_str)
qed (auto simp: wf_dec_int wf_json_str wf_joined)

lemma audit_json_inj:
  assumes "wf_val v" "wf_val w" "float_free v" "float_free w" "audit_json E v = Inr b" "audit_json E w = Inr b"
  shows "same_json v w"
proof -
  obtain v' w' where v': "reorder_keys_utf16 v = Inr v'" "utf8_encode_strict (json_text (float_repr E) v') = Inr b"
    and w': "reorder_keys_utf16 w = Inr w'" "utf8_encode_strict (json_text (float_repr E) w') = Inr b"
    using assms(5,6) by (auto simp: audit_json_def)
  have ff: "float_free v'" "float_free w'" using reorder_keeps[OF v'(1)] reorder_keeps[OF w'(1)] assms(3,4) by auto
  have "wf_str (json_text (float_repr E) v')" "wf_str (json_text (float_repr E) w')"
    using wf_json_text ff reorder_wf[OF v'(1) assms(1)] reorder_wf[OF w'(1) assms(2)] by blast+
  then have sc: "scalar_str (json_text (float_repr E) v')" "scalar_str (json_text (float_repr E) w')"
    using v'(2) w'(2) by (auto simp: scalar_str_iff utf8_encode_strict_def list_ex_iff split: if_splits)
  have "json_text (float_repr E) v' = json_text (float_repr E) w'"
    using v'(2) w'(2) utf8_encode_inj[OF sc] by (simp add: utf8_encode_strict_def split: if_splits)
  then have "v' = w'" using json_text_inj[OF ff] by blast
  then show ?thesis using reorder_same_json[OF assms(1,2) v'(1) w'(1)] by simp
qed

definition body_msgs :: "env \<Rightarrow> pydict list \<Rightarrow> bytes set" where
  "body_msgs E ds = {m. \<exists>d\<in>set ds. audit_json E (event_body d) = Inr m}"

definition plain_records :: "pydict list \<Rightarrow> bool" where
  "plain_records ds = (\<forall>d\<in>set ds. wf_val (event_body d) \<and> float_free (event_body d))"

lemma sha256_hex_inj: "digest32 E \<Longrightarrow> sha256_hex E a = sha256_hex E b \<longleftrightarrow> sha256 E a = sha256 E b"
  by (simp add: sha256_hex_def digest32_def hex_of_inj)

lemma same_json_field:
  assumes "same_json (event_body d) (event_body e)" "k \<noteq> lit ''hash''" "map_of d k = Some v"
  shows "\<exists>w. map_of e k = Some w \<and> same_json v w"
proof -
  have "map_of (dict_pop (lit ''hash'') d) k = Some v" using assms(2,3) by (simp add: delete_conv')
  from same_json_lookup[OF assms(1) this] show ?thesis using assms(2) by (auto simp: delete_conv')
qed

lemma index_same:
  assumes "same_json (event_body d) (event_body e)" "float_free (event_body d)"
    "py_eq (get_or_none d ''index'') (PInt (int n))" "py_eq (get_or_none e ''index'') (PInt (int k))"
  shows "n = k"
proof -
  obtain v where v: "map_of d (lit ''index'') = Some v" "py_eq v (PInt (int n))"
    using assms(3) by (auto simp: dict_get_def num_eq_def split: option.splits)
  have "(lit ''index'', v) \<in> set (dict_pop (lit ''hash'') d)"
    using v(1) by (intro map_of_SomeD) (simp add: delete_conv')
  then have "float_free v" using assms(2) by fastforce
  moreover obtain w where "map_of e (lit ''index'') = Some w" "same_json v w" using same_json_field[OF assms(1) _ v(1)] by auto
  ultimately show ?thesis using v(2) assms(4) by (cases v) (auto simp: dict_get_def num_eq_def same_json_atoms split: if_splits)
qed

lemma links_same:
  assumes D: "digest32 E" and l: "links E d p n" "links E e q k" and h: "get_or_none d ''hash'' = get_or_none e ''hash''"
    and inj: "collision_free E M" "body_msgs E [d] \<subseteq> M" "body_msgs E [e] \<subseteq> M" and pl: "plain_records [d]" "plain_records [e]"
    and pq: "p = PStr s" "q = PStr t"
  shows "same_json (event_body d) (event_body e) \<and> n = k \<and> p = q"
proof -
  obtain a b where ab: "audit_json E (event_body d) = Inr a" "get_or_none d ''hash'' = PStr (sha256_hex E a)"
    "audit_json E (event_body e) = Inr b" "get_or_none e ''hash'' = PStr (sha256_hex E b)"
    using l by (auto simp: links_def)
  have "sha256 E a = sha256 E b" using h ab sha256_hex_inj[OF D] by simp
  then have "a = b" using inj ab(1,3) unfolding collision_free_def body_msgs_def by (auto dest: inj_onD)
  then have same: "same_json (event_body d) (event_body e)" 
    using audit_json_inj[of "event_body d" "event_body e" E b] ab(1,3) pl unfolding plain_records_def
    by (metis list.set_intros(1))
  have "n = k" using index_same[OF same] l pl(1) by (auto simp: links_def plain_records_def)
  moreover have "p = q"
  proof -
    have "get_or_none d ''prev_hash'' = PStr s" "get_or_none e ''prev_hash'' = PStr t"
      using l pq by (auto simp: links_def py_eq_PStr_right simp del: py_eq.simps)
    then have "map_of d (lit ''prev_hash'') = Some (PStr s)" "map_of e (lit ''prev_hash'') = Some (PStr t)"
      by (auto simp: dict_get_def split: option.splits)
    then show ?thesis using same_json_field[OF same, of "lit ''prev_hash''"] pq by (auto simp: same_json_atoms)
  qed
  ultimately show ?thesis using same by blast
qed

lemma tail_hash_str: "linked E ds \<Longrightarrow> \<exists>s. tail_hash (PStr GENESIS_HASH) ds = PStr s"
  by (cases ds rule: rev_cases) (auto simp: tail_hash_def linked_snoc links_def)

lemma linked_unique:
  assumes D: "digest32 E"
  shows "linked E ds \<Longrightarrow> linked E es \<Longrightarrow> ds \<noteq> [] \<Longrightarrow> es \<noteq> [] \<Longrightarrow>
    tail_hash (PStr GENESIS_HASH) ds = tail_hash (PStr GENESIS_HASH) es \<Longrightarrow> plain_records (ds @ es) \<Longrightarrow>
    collision_free E (body_msgs E (ds @ es)) \<Longrightarrow> list_all2 (\<lambda>d e. same_json (event_body d) (event_body e)) ds es"
proof (induction ds arbitrary: es rule: rev_induct)
  case (snoc d ds)
  obtain e fs where es: "es = fs @ [e]" using snoc.prems(4) by (metis rev_exhaust)
  have l: "linked E ds" "linked E fs" "links E d (tail_hash (PStr GENESIS_HASH) ds) (length ds)"
    "links E e (tail_hash (PStr GENESIS_HASH) fs) (length fs)"
    using snoc.prems(1,2) es by (simp_all add: linked_snoc)
  obtain s t where st: "tail_hash (PStr GENESIS_HASH) ds = PStr s" "tail_hash (PStr GENESIS_HASH) fs = PStr t"
    using tail_hash_str l(1,2) by metis
  have last: "same_json (event_body d) (event_body e) \<and> length ds = length fs \<and>
      tail_hash (PStr GENESIS_HASH) ds = tail_hash (PStr GENESIS_HASH) fs"
    by (rule links_same[OF D l(3,4) _ snoc.prems(7) _ _ _ _ st])
      (use snoc.prems(5,6) es in \<open>auto simp: tail_hash_def body_msgs_def plain_records_def simp del: wf_val.simps float_free.simps\<close>)
  have before: "list_all2 (\<lambda>d e. same_json (event_body d) (event_body e)) ds fs" if "ds \<noteq> []" "length ds = length fs"
      "tail_hash (PStr GENESIS_HASH) ds = tail_hash (PStr GENESIS_HASH) fs"
  proof (rule snoc.IH[OF l(1,2) that(1) _ that(3)])
    show "collision_free E (body_msgs E (ds @ fs))"
      using snoc.prems(7) es unfolding collision_free_def by (rule_tac inj_on_subset) (auto simp: body_msgs_def)
    show "fs \<noteq> []" using that(1,2) by auto
    show "plain_records (ds @ fs)" using snoc.prems(6) es unfolding plain_records_def by simp
  qed
  have "list_all2 (\<lambda>d e. same_json (event_body d) (event_body e)) ds fs"
    using before last by (cases "ds = []") (simp_all only: list.size length_0_conv list_all2_Nil simp_thms, metis length_0_conv list_all2_Nil)
  moreover have "list_all2 (\<lambda>d e. same_json (event_body d) (event_body e)) [d] [e]"
    using last by (blast intro: list_all2_Cons[THEN iffD2] list.rel_intros)
  ultimately show ?case unfolding es by (rule list_all2_appendI)
qed simp

text \<open>The chains two verifiers accept with one head hash are the same chain.\<close>

lemma same_head_same_chain:
  assumes D: "digest32 E" and v: "verify_chain E V f (Some [(lit ''hash'', PStr h)]) = Inr r" "vr_valid r"
      "verify_chain E W g (Some [(lit ''hash'', PStr h)]) = Inr q" "vr_valid q"
    and ne: "chain_events f \<noteq> []" "chain_events g \<noteq> []"
    and pl: "plain_records (chain_events f @ chain_events g)"
    and inj: "collision_free E (body_msgs E (chain_events f @ chain_events g))"
  shows "list_all2 (\<lambda>d e. same_json (event_body d) (event_body e)) (chain_events f) (chain_events g)"
proof -
  have ok: "linked E (chain_events x) \<and> tail_hash (PStr GENESIS_HASH) (chain_events x) = PStr h"
    if "verify_chain E U x (Some [(lit ''hash'', PStr h)]) = Inr p" "vr_valid p" "chain_events x \<noteq> []" for U x p
    using that(1,2) D
  proof (rule verify_chain_valid)
    fix C C'
    assume c: "reads_ok E x C" "verify_downgrade_and_truncation U C = Inr C'" "vr_valid (cs_report C')"
      "p = (case Some [(lit ''hash'', PStr h)] of None \<Rightarrow> cs_report C' | Some x \<Rightarrow> verify_expected_head E x C')"
    have "py_eq (PStr h) (cs_last_hash C')"
      using c(4) that(2) by (auto simp: verify_expected_head_def dict_get_def Let_def split: if_splits)
    then have "cs_last_hash C' = PStr h" by (cases "cs_last_hash C'") (auto simp: num_eq_def)
    then show ?thesis using c(1) downgrade_kept[OF c(2,3)] that(3) by (simp add: reads_ok_def)
  qed
  show ?thesis using linked_unique[OF D] ok[OF v(1,2) ne(1)] ok[OF v(3,4) ne(2)] ne pl inj by simp
qed

section \<open>What a checkpoint covers\<close>

interpretation audit_tree: merkle "sha256 E" "(@)" for E :: env
  by unfold_locales auto

lemma leaf_bytes_hashes:
  "digest32 E \<Longrightarrow> rmap leaf_bytes (map (\<lambda>m. PStr (sha256_hex E m)) ms) = Inr (map (sha256 E) ms)"
  by (induction ms) (simp_all add: leaf_bytes_def sha256_hex_def digest32_def fromhex_hex_of)

text \<open>The root and the number of records, which a checkpoint signs, fix the record hashes.\<close>

lemma merkle_root_inj:
  assumes D: "digest32 E" and n: "length ms = length ms'"
    and r: "merkle_root E (map (\<lambda>m. PStr (sha256_hex E m)) ms) = Inr r"
      "merkle_root E (map (\<lambda>m. PStr (sha256_hex E m)) ms') = Inr r"
    and inj: "collision_free E (audit_tree.tree_inputs E (map (sha256 E) ms) \<union> audit_tree.tree_inputs E (map (sha256 E) ms'))"
  shows "map (sha256 E) ms = map (sha256 E) ms'"
proof (cases "ms = []")
  case False
  have d: "length (sha256 E m) = 32" "wf_bytes (sha256 E m)" for m using D by (simp_all add: digest32_def)
  have wf: "wf_bytes (fold_root (audit_tree.node E) (map (sha256 E) xs))" if "xs \<noteq> []" for xs
    by (rule fold_root_digest) (use that d in auto)
  have "ms' \<noteq> []" using False n by auto
  then have "fold_root (audit_tree.node E) (map (sha256 E) ms) = fold_root (audit_tree.node E) (map (sha256 E) ms')"
    using r False leaf_bytes_hashes[OF D] hex_of_inj[OF wf[OF False] wf[of ms']] by (simp add: merkle_root_def)
  then show ?thesis
    using audit_tree.fold_root_inj[of E 32 "map (sha256 E) ms" "map (sha256 E) ms'"] False n d inj
    by (auto simp: collision_free_def)
qed (use n in simp)

section \<open>Attestation\<close>

text \<open>A checkpoint over the first \<open>n\<close> records, with a verified signature.\<close>

definition attests :: "env \<Rightarrow> ustr \<Rightarrow> pydict \<Rightarrow> pyval list \<Rightarrow> bool" where
  "attests E key d hs = (\<exists>mr. merkle_root E hs = Inr mr \<and>
     py_eq (dict_get d (lit ''index'') (PInt (- 1))) (PInt (int (length hs))) \<and> get_or_none d ''merkle_root'' = PStr mr \<and>
     ed_check E key (get_or_none d ''signature'') (audit_json E (PDict (checkpoint_body (dict_get d (lit ''index'') (PInt (- 1)))
       (PStr mr) (dict_get d (lit ''key_id'') (PStr []))))))"

lemma sigs_kept [simp]:
  "vr_valid_signatures (fault msg r) = vr_valid_signatures r" "vr_valid_signatures (bad_signature msg r) = vr_valid_signatures r"
  by (simp_all add: fault_def bad_signature_def)

lemma checkpoint_attests:
  assumes "vr_valid_signatures r < vr_valid_signatures (verify_checkpoint E V d hs (length hs) r)"
  shows "\<exists>key. av_public_key V = Some key \<and> attests E key d hs"
  using assms
  by (auto simp: verify_checkpoint_def verify_checkpoint_signature_def attests_def Let_def py_eq_PStr_right
      simp del: py_eq.simps split: if_splits option.splits sum.splits)

definition covered :: "env \<Rightarrow> AuditVerifier \<Rightarrow> chain_line list \<Rightarrow> chain_state \<Rightarrow> bool" where
  "covered E V lines C = (cs_last_checkpoint C = PInt (- 1) \<or> (\<exists>d n key. Record (PDict d) \<in> set lines \<and>
     n \<le> length (event_hashes lines) \<and> av_public_key V = Some key \<and> attests E key d (take n (event_hashes lines)) \<and>
     cs_last_checkpoint C = dict_get d (lit ''index'') (PInt (- 1))))"

lemma verify_line_covered:
  assumes v: "verify_line E V l C = Inr C'" and r: "reads_ok E lines C" and c: "covered E V lines C"
  shows "covered E V (lines @ [l]) C'"
proof -
  have grow: "covered E V (lines @ [l]) C'" if "cs_last_checkpoint C' = cs_last_checkpoint C"
  proof -
    have "take n (event_hashes (lines @ [l])) = take n (event_hashes lines)" "n \<le> length (event_hashes (lines @ [l]))"
      if "n \<le> length (event_hashes lines)" for n using that by (auto simp: event_hashes_def chain_events_snoc)
    then show ?thesis using c that unfolding covered_def by (metis UnI1 set_append)
  qed
  show ?thesis
  proof (cases "cs_last_checkpoint C' = cs_last_checkpoint C")
    case False
    then obtain d where d: "l = Record (PDict d)" "\<not> is_event d" "cs_last_checkpoint C' = dict_get d (lit ''index'') (PInt (- 1))"
      "vr_valid_signatures (cs_report C) < vr_valid_signatures (verify_checkpoint E V d (cs_leaves C) (cs_index C) (cs_report C))"
      using v by (auto simp: verify_line_def is_event_def Let_def split: chain_line.splits pyval.splits if_splits)
    have hs: "cs_leaves C = event_hashes lines" "cs_index C = length (event_hashes lines)" "event_hashes (lines @ [l]) = event_hashes lines"
      using r d(1,2) by (auto simp: reads_ok_def event_hashes_def chain_events_snoc)
    obtain key where "av_public_key V = Some key" "attests E key d (event_hashes lines)"
      using checkpoint_attests[of "cs_report C" E V d "event_hashes lines"] d(4) hs by auto
    then show ?thesis using d hs(3) unfolding covered_def
      by (intro disjI2 exI[of _ d] exI[of _ "length (event_hashes lines)"]) auto
  qed (rule grow)
qed

lemma verified_covered:
  "rfold (verify_line E V) lines chain_state0 = Inr C \<Longrightarrow> vr_valid (cs_report C) \<Longrightarrow> digest32 E \<Longrightarrow> covered E V lines C"
proof (induction lines arbitrary: C rule: rev_induct)
  case (snoc l lines)
  then obtain B where B: "rfold (verify_line E V) lines chain_state0 = Inr B" "verify_line E V l B = Inr C"
    by (auto simp: rfold_append)
  have "vr_valid (cs_report B)" using verify_line_reads[OF B(2) snoc.prems(2,3)] by blast
  then show ?case using verify_line_covered[OF B(2)] verified_reads[OF B(1)] snoc.IH[OF B(1)] snoc.prems(3) by blast
qed (auto simp: covered_def chain_state0_def)

lemma valid_chain_attested:
  assumes D: "digest32 E" and v: "verify_chain E V lines head = Inr r" "vr_valid r" and key: "av_public_key V = Some key"
    and ne: "chain_events lines \<noteq> []"
  shows "vr_signed_mode r = Signed \<and> (\<exists>d. Record (PDict d) \<in> set lines \<and> attests E key d (event_hashes lines))"
  using v D
proof (rule verify_chain_valid)
  fix C C'
  assume c: "rfold (verify_line E V) lines chain_state0 = Inr C" "vr_valid (cs_report C)" "reads_ok E lines C"
    "verify_downgrade_and_truncation V C = Inr C'" "vr_valid (cs_report C')"
    "r = (case head of None \<Rightarrow> cs_report C' | Some h \<Rightarrow> verify_expected_head E h C')"
  let ?n = "length (event_hashes lines)"
  have n: "cs_last_event C = int ?n - 1" "?n > 0" using c(3) ne by (auto simp: reads_ok_def event_hashes_def)
  have m: "vr_signed_mode (cs_report C') = Signed" "py_lt (cs_last_checkpoint C) (PInt (int ?n)) = Inr False"
    using c(4,5) key n by (auto simp: verify_downgrade_and_truncation_def Let_def split: if_splits)
  have mode: "vr_signed_mode r = Signed" using m(1) c(6) v(2)
    by (auto simp: verify_expected_head_def Let_def split: option.splits if_splits sum.splits)
  have "cs_last_checkpoint C \<noteq> PInt (- 1)" using m(2) n(2) by auto
  then obtain d k key' where d: "Record (PDict d) \<in> set lines" "k \<le> ?n" "av_public_key V = Some key'"
    "attests E key' d (take k (event_hashes lines))" "cs_last_checkpoint C = dict_get d (lit ''index'') (PInt (- 1))"
    using verified_covered[OF c(1,2) D] by (auto simp: covered_def)
  have "py_eq (cs_last_checkpoint C) (PInt (int k))" using d(2,4,5) by (auto simp: attests_def)
  then have "k = ?n" using m(2) d(2) 
    by (cases "cs_last_checkpoint C") (auto simp: num_eq_def elim!: num_of.elims split: option.splits if_splits)
  then show ?thesis using d key mode by auto
qed

end
