(* ===== verification/ChainExamples.thy ===== *)
theory ChainExamples
  imports ConformanceLaws Approvals AuditLaws Examples
begin

text \<open>
  Worked inputs for the commitment, the approval manager and the audit chain, for the witnesses: a call's
  arguments with one of them disclosed, a request that is approved and consumed, and a signed chain of two
  events.  Every fact is evaluated in the kernel.
\<close>

lemma collision_free_code: "distinct (map (sha256 E) ms) \<Longrightarrow> M \<subseteq> set ms \<Longrightarrow> collision_free E M"
  unfolding collision_free_def distinct_map by (metis inj_on_subset)

lemma digest32_env0: "digest32 env0"
  by (simp add: digest32_def env0_def wf_bytes_def list_all_iff)

section \<open>A disclosure\<close>

definition args1 :: pydict where
  "args1 = [(lit ''amount'', PInt 3), (lit ''to'', PStr (lit ''bob''))]"

definition level1 :: "bytes list" where
  "level1 = projr (arg_leaves env0 args1 [lit ''amount'', lit ''to''])"

definition root1 :: ustr where
  "root1 = projr (commit_args env0 args1)"

definition path1 :: pyval where
  "path1 = PList [PList [PBool True, PStr (HASH_PREFIX @ hex_of (level1 ! 0))]]"

definition disclosure1 :: pydict where
  "disclosure1 = [(lit ''fields'', PDict [(lit ''to'',
     PDict [(lit ''value'', PStr (lit ''bob'')), (lit ''path'', path1)])])]"

definition msgs1 :: "bytes list" where
  "msgs1 = [dom_sep @ lit ''empty'', projr (leaf_input env0 (lit ''amount'') (PInt 3)),
     projr (leaf_input env0 (lit ''to'') (PStr (lit ''bob''))), node_input (level1 ! 0) (level1 ! 1)]"

lemma commit_args1: "commit_args env0 args1 = Inr root1"
  by code_simp

lemma disclose_args1: "disclose_args env0 args1 [lit ''to''] = Inr disclosure1"
  by code_simp

lemma verify_disclosure1: "verify_disclosure env0 root1 disclosure1 = Inr [(lit ''to'', PStr (lit ''bob''))]"
  by code_simp

lemma level1_eq:
  "field_order args1 = Inr [lit ''amount'', lit ''to'']"
  "arg_leaves env0 args1 [lit ''amount'', lit ''to''] = Inr level1" "length level1 = 2"
  "decode_entry (PList [PBool True, PStr (HASH_PREFIX @ hex_of (level1 ! 0))]) = (True, level1 ! 0)"
  "conf_leaf env0 (lit ''to'') (PStr (lit ''bob'')) = Inr (level1 ! 1)"
  "distinct (map (sha256 env0) msgs1)"
  by code_simp+

lemma msgs1_commit: "commit_msgs env0 args1 \<subseteq> set msgs1"
proof -
  obtain a b where ab: "level1 = [a, b]" using level1_eq(3) by (auto simp: length_Suc_conv numeral_2_eq_2)
  have "conf_tree.tree_inputs env0 [a, b] = {node_input a b}"
    by (simp add: conf_tree.tree_inputs.simps)
  then have "conf_tree.tree_inputs env0 level1 \<subseteq> set msgs1" by (simp add: ab msgs1_def)
  moreover have "leaf_msgs env0 args1 \<subseteq> set msgs1"
    by (auto simp: leaf_msgs_def args1_def msgs1_def split: if_splits)
  moreover have "dom_sep @ lit ''empty'' \<in> set msgs1" by (simp add: msgs1_def)
  ultimately show ?thesis using level1_eq(1,2) unfolding commit_msgs_def by auto
qed

lemma msgs1_disclosure: "disclosure_msgs env0 disclosure1 \<subseteq> set msgs1"
proof -
  have p: "py_iter path1 = Inr [PList [PBool True, PStr (HASH_PREFIX @ hex_of (level1 ! 0))]]"
    by (simp add: path1_def py_iter_def)
  have "entry_msgs env0 (lit ''to'') (PStr (lit ''bob'')) path1 \<subseteq> set msgs1"
    using level1_eq(4,5) p unfolding entry_msgs_def by (auto simp: msgs1_def)
  then show ?thesis unfolding disclosure_msgs_def by (auto simp: disclosure1_def dict_get_def)
qed

lemma collision_free1: "collision_free env0 (commit_msgs env0 args1 \<union> disclosure_msgs env0 disclosure1)"
  by (rule collision_free_code[OF level1_eq(6)]) (use msgs1_commit msgs1_disclosure in blast)

section \<open>An approval\<close>

definition created1 :: "ApprovalRequest approval_op" where
  "created1 = create_request env0 0 (lit ''0.0'') (lit ''n'') (lit ''pay'') (lit ''agent:a'') (pay 3) [] [] (new_manager 300)"

definition request1 :: ustr where
  "request1 = ar_request_id (projr (fst created1))"

definition approved1 :: "ApprovalRequest approval_op" where
  "approved1 = decide 10 10 request1 True (lit ''ann'') (snd created1)"

definition consumed1 :: "ApprovalRequest approval_op" where
  "consumed1 = consume env0 20 request1 (lit ''pay'') (lit ''agent:a'') (pay 3) (snd approved1)"

definition hash_pay3 :: ustr where
  "hash_pay3 = projr (args_hash env0 (pay 3))"

definition events1 :: "approval_event list" where
  "events1 = [Create request1 (lit ''pay'') (lit ''agent:a'') hash_pay3, Decide request1 True]"

lemma approval_steps1:
  "\<not> isl (fst created1)" "ar_args_hash (projr (fst created1)) = hash_pay3" "\<not> isl (fst approved1)" "\<not> isl (fst consumed1)"
  "args_hash env0 (pay 3) = Inr hash_pay3"
  by code_simp+

lemma op_Inr: "\<not> isl (fst p) \<Longrightarrow> p = (Inr (projr (fst p)), snd p)"
  by (cases p) (auto simp: isl_def)

lemma approval_run1: "approval_run env0 events1 (snd approved1)"
proof -
  have c: "create_request env0 0 (lit ''0.0'') (lit ''n'') (lit ''pay'') (lit ''agent:a'') (pay 3) [] [] (new_manager 300) =
      (Inr (projr (fst created1)), snd created1)"
    using op_Inr[OF approval_steps1(1)] by (simp add: created1_def)
  have d: "decide 10 10 request1 True (lit ''ann'') (snd created1) = (Inr (projr (fst approved1)), snd approved1)"
    using op_Inr[OF approval_steps1(3)] by (simp add: approved1_def)
  have "\<not> has_key (am_requests (new_manager 300)) k" for k by (simp add: new_manager_def has_key_def)
  from approval_run.decide[OF approval_run.create[OF approval_run.start c this] d]
  show ?thesis by (simp add: events1_def request1_def approval_steps1(2))
qed

lemma consume1:
  "consume env0 20 request1 (lit ''pay'') (lit ''agent:a'') (pay 3) (snd approved1) = (Inr (projr (fst consumed1)), snd consumed1)"
  using op_Inr[OF approval_steps1(4)] by (simp add: consumed1_def)

section \<open>An audit chain\<close>

definition env1 :: env where
  "env1 = env0\<lparr>ed_verify := (\<lambda>pem sig msg. pem = lit ''pem'' \<and> sig = sha256 env0 msg)\<rparr>"

definition signer1 :: RecordSigner where
  "signer1 = \<lparr>rs_key_id = lit ''key1'', rs_sign = sha256 env0, rs_pq = None\<rparr>"

definition verifier1 :: AuditVerifier where
  "verifier1 = \<lparr>av_public_key = Some (lit ''pem''), av_pq_public_keys = [], av_require_pq = False\<rparr>"

abbreviation sink0 :: HashChainSink where "sink0 \<equiv> blank_sink (Some signer1) 100 True"

definition header1 :: pydict where
  "header1 = projr (chain_header env1 (Some signer1) (lit ''t0''))"

definition message1 :: bytes where
  "message1 = projr (audit_json env1 (PDict (event_record sink0 (lit ''t1'') (PDict (pay 3)))))"

definition hash1 :: ustr where
  "hash1 = sha256_hex env1 message1"

definition event1 :: pydict where
  "event1 = event_record sink0 (lit ''t1'') (PDict (pay 3)) @ [(lit ''hash'', PStr hash1)]"

definition sink1 :: HashChainSink where
  "sink1 = sink0\<lparr>hs_leaf_hashes := [PStr hash1], hs_prev_hash := PStr hash1, hs_next_index := 1\<rparr>"

definition file0 :: "chain_line list" where
  "file0 = [Record (PDict header1), Record (PDict event1)]"

definition message2 :: bytes where
  "message2 = projr (audit_json env1 (PDict (checkpoint_body (PInt 1) (PStr hash1) (PStr (lit ''key1'')))))"

definition file1 :: "chain_line list" where
  "file1 = file0 @ [Record (PDict ((lit ''checkpoint'', PBool True) # checkpoint_body (PInt 1) (PStr hash1) (PStr (lit ''key1''))
     @ (lit ''timestamp'', PStr (lit ''t2'')) # sign_record signer1 message2))]"

lemma digest32_env1: "digest32 env1"
  using digest32_env0 by (simp add: digest32_def env1_def)

lemma matched1: "matched env1 verifier1 (Some signer1)"
  using digest32_env0 by (auto simp: matched_def trusted_signer_def signer1_def verifier1_def env1_def digest32_def)
    (metis list.size(3) zero_neq_numeral)

lemma messages1:
  "chain_header env1 (Some signer1) (lit ''t0'') = Inr header1"
  "audit_json env1 (PDict (event_record sink0 (lit ''t1'') (PDict (pay 3)))) = Inr message1"
  "merkle_root env1 [PStr hash1] = Inr hash1"
  "audit_json env1 (PDict (checkpoint_body (PInt 1) (PStr hash1) (PStr (lit ''key1'')))) = Inr message2"
  by code_simp+

lemma sink_run1: "sink_run env1 (Some signer1) sink1 file0"
proof -
  have "new_sink env1 (Some signer1) 100 (lit ''t0'') (Path None) = Inr (sink0, [Record (PDict header1)])"
    by (simp add: new_sink_def messages1(1))
  moreover have "append_event env1 (lit ''t1'') (lit ''t1'') (PDict (pay 3)) sink0 [Record (PDict header1)] = (Inr event1, sink1, file0)"
    unfolding append_event_def messages1(2)
    by (simp add: Let_def write_line_def event1_def sink1_def file0_def hash1_def blank_sink_def)
  ultimately show ?thesis using sink_run.append[OF sink_run.create] by blast
qed

lemma close1: "close_sink env1 (lit ''t2'') sink1 file0 = (Inr (), sink1\<lparr>hs_closed := True\<rparr>, file1)"
  using messages1(3,4)
  by (simp add: close_sink_def emit_checkpoint_def Let_def sink1_def blank_sink_def write_line_def signer1_def file1_def)

lemma chain_events1: "chain_events file1 = [event1]"
proof -
  obtain m where h: "header1 = header_body (Some signer1) (lit ''t0'') @ sign_record signer1 m"
    using messages1(1) by (auto simp: chain_header_def intro: sym)
  have "\<not> is_event header1" unfolding h by (simp add: is_event_def header_body_def dict_get_def)
  moreover have "is_event event1" by (simp add: is_event_def event1_def event_record_def dict_get_def)
  ultimately show ?thesis by (simp add: chain_events_def file1_def file0_def is_event_def dict_get_def)
qed

lemma plain1: "plain_records [event1, event1]"
proof -
  have "wf_str GENESIS_HASH" by (simp add: GENESIS_HASH_def wf_str_def list_all_iff)
  then show ?thesis by (simp add: plain_records_def event1_def event_record_def pay_def blank_sink_def)
qed

lemma no_collision1: "collision_free env1 (body_msgs env1 [event1, event1])"
  by (auto simp: collision_free_def body_msgs_def inj_on_def)

end
