(* ===== verification/PyJsonRead.thy ===== *)
theory PyJsonRead
  imports PyJson Canon
begin

text \<open>
  \<open>json.loads\<close> of a text and of bytes, as the sources call it: with or without the duplicate-key hook of
  \<open>raucle/_canon.py\<close>.  Every failure is a \<open>ValueError\<close> (\<open>JSONDecodeError\<close> and \<open>UnicodeDecodeError\<close> are).
  The reader of values has a bound on its steps, one more than the number of characters left, each step
  consuming at least one; the value of a float literal is a parameter.  The main fact is that the reader
  inverts the printer of \<open>PyJson\<close>.
\<close>

section \<open>Bytes to text\<close>

text \<open>\<open>bs.decode("utf-8", "surrogatepass")\<close>.\<close>

function utf8_decode_pass :: "bytes \<Rightarrow> ustr res" where
  "utf8_decode_pass [] = Inr []"
| "utf8_decode_pass (b # bs) = (case utf8_next b bs of
       (Some c, rest) \<Rightarrow> rbind (utf8_decode_pass rest) (\<lambda>s. Inr (c # s))
     | (None, _) \<Rightarrow>
         if b = 0xED \<and> length bs \<ge> 2 \<and> 0xA0 \<le> bs ! 0 \<and> bs ! 0 \<le> 0xBF \<and> 0x80 \<le> bs ! 1 \<and> bs ! 1 \<le> 0xBF
         then rbind (utf8_decode_pass (drop 2 bs)) (\<lambda>s. Inr ((0xD000 + 64 * (bs ! 0 - 0x80) + (bs ! 1 - 0x80)) # s))
         else Inl (ValueError ''utf-8''))"
  by pat_completeness auto
termination
  by (relation "measure length") (auto simp: less_Suc_eq_le dest: utf8_next_length[OF sym])

text \<open>UTF-16 and UTF-32 code units, and the pairing of surrogates, lone ones passing.\<close>

fun pack_units :: "nat \<Rightarrow> bool \<Rightarrow> bytes \<Rightarrow> nat list res" where
  "pack_units n big [] = Inr []"
| "pack_units n big (b # bs) =
     (if n = 0 \<or> length bs < n - 1 then Inl (ValueError ''truncated data'')
      else let u = take n (b # bs)
           in rbind (pack_units n big (drop (n - 1) bs)) (\<lambda>us.
              Inr (foldl (\<lambda>a c. 256 * a + c) 0 (if big then u else rev u) # us)))"

fun pair_surrogates :: "nat list \<Rightarrow> ustr" where
  "pair_surrogates (u # v # r) =
     (if 0xD800 \<le> u \<and> u \<le> 0xDBFF \<and> 0xDC00 \<le> v \<and> v \<le> 0xDFFF
      then (0x10000 + (u - 0xD800) * 0x400 + (v - 0xDC00)) # pair_surrogates r
      else u # pair_surrogates (v # r))"
| "pair_surrogates us = us"

definition utf16_decode_pass :: "bool \<Rightarrow> bytes \<Rightarrow> ustr res" where
  "utf16_decode_pass big bs = rbind (pack_units 2 big bs) (\<lambda>us. Inr (pair_surrogates us))"

definition utf32_decode_pass :: "bool \<Rightarrow> bytes \<Rightarrow> ustr res" where
  "utf32_decode_pass big bs = rbind (pack_units 4 big bs) (\<lambda>us.
     if list_all (\<lambda>u. u < 0x110000) us then Inr us else Inl (ValueError ''utf-32''))"

text \<open>\<open>json.detect_encoding\<close> and the decoding it selects.\<close>

definition decode_json_bytes :: "bytes \<Rightarrow> ustr res" where
  "decode_json_bytes b =
     (if startswith b [0, 0, 0xFE, 0xFF] then utf32_decode_pass True (drop 4 b)
      else if startswith b [0xFF, 0xFE, 0, 0] then utf32_decode_pass False (drop 4 b)
      else if startswith b [0xFE, 0xFF] then utf16_decode_pass True (drop 2 b)
      else if startswith b [0xFF, 0xFE] then utf16_decode_pass False (drop 2 b)
      else if startswith b [0xEF, 0xBB, 0xBF] then utf8_decode_pass (drop 3 b)
      else if length b \<ge> 4 \<and> b ! 0 = 0 then (if b ! 1 \<noteq> 0 then utf16_decode_pass True b else utf32_decode_pass True b)
      else if length b \<ge> 4 \<and> b ! 1 = 0 then (if b ! 2 \<noteq> 0 \<or> b ! 3 \<noteq> 0 then utf16_decode_pass False b else utf32_decode_pass False b)
      else if length b = 2 \<and> b ! 0 = 0 then utf16_decode_pass True b
      else if length b = 2 \<and> b ! 1 = 0 then utf16_decode_pass False b
      else utf8_decode_pass b)"

section \<open>Text to values\<close>

definition json_space :: "nat \<Rightarrow> bool" where
  "json_space c = (c = 32 \<or> c = 9 \<or> c = 10 \<or> c = 13)"

definition skip_ws :: "ustr \<Rightarrow> ustr" where
  "skip_ws = dropWhile json_space"

definition json_digit :: "nat \<Rightarrow> bool" where
  "json_digit c = (48 \<le> c \<and> c \<le> 57)"

definition bad_json :: "'a res" where
  "bad_json = Inl (ValueError ''JSON'')"

definition read_hex4 :: "ustr \<Rightarrow> (nat \<times> ustr) option" where
  "read_hex4 s = (case map hex_val (take 4 s) of
       [Some a, Some b, Some c, Some d] \<Rightarrow> Some (4096 * a + 256 * b + 16 * c + d, drop 4 s)
     | _ \<Rightarrow> None)"

definition simple_escape :: "nat \<Rightarrow> nat option" where
  "simple_escape c = (if c = 34 \<or> c = 92 \<or> c = 47 then Some c else if c = 98 then Some 8 else if c = 102 then Some 12
     else if c = 110 then Some 10 else if c = 114 then Some 13 else if c = 116 then Some 9 else None)"

text \<open>One character of a string literal, after the opening quote; an escaped surrogate pair is one character.\<close>

definition read_char :: "ustr \<Rightarrow> (nat \<times> ustr) option" where
  "read_char s = (case s of
       [] \<Rightarrow> None
     | c # r \<Rightarrow>
         if c < 32 then None
         else if c \<noteq> 92 then Some (c, r)
         else (case r of
             [] \<Rightarrow> None
           | e # t \<Rightarrow>
               if e \<noteq> 117 then map_option (\<lambda>x. (x, t)) (simple_escape e)
               else (case read_hex4 t of
                   None \<Rightarrow> None
                 | Some (u, t') \<Rightarrow>
                     if 0xD800 \<le> u \<and> u \<le> 0xDBFF \<and> startswith t' [92, 117]
                     then (case read_hex4 (drop 2 t') of
                         Some (v, t'') \<Rightarrow> if 0xDC00 \<le> v \<and> v \<le> 0xDFFF
                           then Some (0x10000 + (u - 0xD800) * 0x400 + (v - 0xDC00), t'') else Some (u, t')
                       | None \<Rightarrow> None)
                     else Some (u, t'))))"

lemma read_hex4_shorter: "read_hex4 s = Some (u, r) \<Longrightarrow> length r < length s"
  by (cases s) (auto simp: read_hex4_def split: list.splits option.splits)

lemma read_char_shorter: "read_char s = Some (c, r) \<Longrightarrow> length r < length s"
  by (auto simp: read_char_def dest!: read_hex4_shorter split: list.splits if_splits option.splits prod.splits)

function read_string :: "ustr \<Rightarrow> (ustr \<times> ustr) res" where
  "read_string s = (if s \<noteq> [] \<and> hd s = 34 then Inr ([], tl s)
     else (case read_char s of
         None \<Rightarrow> bad_json
       | Some (c, r) \<Rightarrow> rbind (read_string r) (\<lambda>(t, r'). Inr (c # t, r'))))"
  by pat_completeness auto
termination
  by (relation "measure length") (auto dest: read_char_shorter)

declare read_string.simps [simp del]

definition read_frac :: "ustr \<Rightarrow> ustr \<times> ustr" where
  "read_frac r = (if length r \<ge> 2 \<and> r ! 0 = 46 \<and> json_digit (r ! 1)
     then (46 # takeWhile json_digit (tl r), dropWhile json_digit (tl r)) else ([], r))"

definition read_exp :: "ustr \<Rightarrow> ustr \<times> ustr" where
  "read_exp r = (case r of
       [] \<Rightarrow> ([], r)
     | c # t \<Rightarrow>
         if c = 101 \<or> c = 69
         then (let sg = takeWhile (\<lambda>d. d = 43 \<or> d = 45) (take 1 t); u = drop (length sg) t in
               if takeWhile json_digit u = [] then ([], r)
               else (c # sg @ takeWhile json_digit u, dropWhile json_digit u))
         else ([], r))"

text \<open>A number: an integer of at most 4300 digits, or a float if it has a fraction or an exponent.\<close>

definition read_unsigned :: "(ustr \<Rightarrow> pyfloat) \<Rightarrow> bool \<Rightarrow> ustr \<Rightarrow> (pyval \<times> ustr) res" where
  "read_unsigned fp neg t =
     (if t = [] \<or> \<not> json_digit (hd t) then bad_json
      else let digits = (if hd t = 48 then [48] else takeWhile json_digit t);
               r = drop (length digits) t;
               (frac, r1) = read_frac r;
               (ex, r2) = read_exp r1 in
           if frac = [] \<and> ex = []
           then (if length digits > 4300 then Inl (ValueError ''int digits'')
                 else Inr (PInt (if neg then - int (num_val digits) else int (num_val digits)), r))
           else Inr (PFloat (fp ((if neg then [45] else []) @ digits @ frac @ ex)), r2))"

definition read_number :: "(ustr \<Rightarrow> pyfloat) \<Rightarrow> ustr \<Rightarrow> (pyval \<times> ustr) res" where
  "read_number fp s = (if startswith s [45] then read_unsigned fp True (tl s) else read_unsigned fp False s)"

definition words :: "(string \<times> pyval) list" where
  "words = [(''null'', PNone), (''true'', PBool True), (''false'', PBool False), (''NaN'', PFloat NaN),
     (''Infinity'', PFloat PosInf), (''-Infinity'', PFloat NegInf)]"

definition read_word :: "ustr \<Rightarrow> (pyval \<times> ustr) option" where
  "read_word s = (case filter (\<lambda>w. startswith s (lit (fst w))) words of
       [] \<Rightarrow> None
     | w # _ \<Rightarrow> Some (snd w, drop (length (fst w)) s))"

text \<open>The hook on the pairs of an object, or the plain dictionary, in which a later pair wins.\<close>

definition make_object :: "bool \<Rightarrow> (ustr \<times> pyval) list \<Rightarrow> pydict res" where
  "make_object hook kvs = (if hook then reject_duplicate_keys kvs else Inr (foldl (\<lambda>d kv. dict_set (fst kv) (snd kv) d) [] kvs))"

fun read_value :: "(ustr \<Rightarrow> pyfloat) \<Rightarrow> bool \<Rightarrow> nat \<Rightarrow> ustr \<Rightarrow> (pyval \<times> ustr) res"
  and read_elems :: "(ustr \<Rightarrow> pyfloat) \<Rightarrow> bool \<Rightarrow> nat \<Rightarrow> ustr \<Rightarrow> (pyval list \<times> ustr) res"
  and read_members :: "(ustr \<Rightarrow> pyfloat) \<Rightarrow> bool \<Rightarrow> nat \<Rightarrow> ustr \<Rightarrow> ((ustr \<times> pyval) list \<times> ustr) res" where
  "read_value fp hook 0 s = bad_json"
| "read_value fp hook (Suc n) s =
     (if s = [] then bad_json
      else if hd s = 34 then rbind (read_string (tl s)) (\<lambda>(t, r). Inr (PStr t, r))
      else if hd s = 91 then
        (let r = skip_ws (tl s) in
         if startswith r [93] then Inr (PList [], tl r)
         else rbind (read_elems fp hook n r) (\<lambda>(xs, r'). Inr (PList xs, r')))
      else if hd s = 123 then
        (let r = skip_ws (tl s) in
         if startswith r [125] then Inr (PDict [], tl r)
         else rbind (read_members fp hook n r) (\<lambda>(kvs, r').
              rbind (make_object hook kvs) (\<lambda>d. Inr (PDict d, r'))))
      else (case read_word s of Some vr \<Rightarrow> Inr vr | None \<Rightarrow> read_number fp s))"
| "read_elems fp hook 0 s = bad_json"
| "read_elems fp hook (Suc n) s =
     rbind (read_value fp hook n s) (\<lambda>(v, r).
     let r' = skip_ws r in
     if startswith r' [93] then Inr ([v], tl r')
     else if startswith r' [44] then rbind (read_elems fp hook n (skip_ws (tl r'))) (\<lambda>(vs, r''). Inr (v # vs, r''))
     else bad_json)"
| "read_members fp hook 0 s = bad_json"
| "read_members fp hook (Suc n) s =
     (if \<not> startswith s [34] then bad_json
      else rbind (read_string (tl s)) (\<lambda>(k, r).
           if \<not> startswith (skip_ws r) [58] then bad_json
           else rbind (read_value fp hook n (skip_ws (tl (skip_ws r)))) (\<lambda>(v, r1).
                let r' = skip_ws r1 in
                if startswith r' [125] then Inr ([(k, v)], tl r')
                else if startswith r' [44] then rbind (read_members fp hook n (skip_ws (tl r'))) (\<lambda>(kvs, r''). Inr ((k, v) # kvs, r''))
                else bad_json)))"

definition json_loads :: "(ustr \<Rightarrow> pyfloat) \<Rightarrow> bool \<Rightarrow> ustr \<Rightarrow> pyval res" where
  "json_loads fp hook s =
     rbind (read_value fp hook (Suc (length s)) (skip_ws s)) (\<lambda>(v, r).
     if skip_ws r = [] then Inr v else Inl (ValueError ''Extra data''))"

definition json_loads_bytes :: "(ustr \<Rightarrow> pyfloat) \<Rightarrow> bool \<Rightarrow> bytes \<Rightarrow> pyval res" where
  "json_loads_bytes fp hook b = rbind (decode_json_bytes b) (json_loads fp hook)"

section \<open>The reader inverts the printer\<close>

lemma startswith_Cons [simp]: "startswith (c # r) [d] \<longleftrightarrow> c = d" "\<not> startswith [] (d # t)"
  by (auto simp: startswith_def)

lemma read_char_escape: "read_char (escape_char c @ u) = Some (c, u)"
proof (cases "c < 32")
  case True
  then have "c div 16 < 16" "c mod 16 < 16" "hex_val 48 = Some 0" by (auto simp: hex_val_def)
  moreover have "16 * (c div 16) + c mod 16 = c" by simp
  ultimately show ?thesis using True
    by (auto simp: escape_char_def read_char_def simple_escape_def read_hex4_def hex_val_digit)
next
  case False
  then show ?thesis by (auto simp: escape_char_def read_char_def simple_escape_def)
qed

lemma read_string_escapes: "read_string (concat (map escape_char s) @ 34 # u) = Inr (s, u)"
proof (induction s)
  case (Cons c s)
  obtain b t where "escape_char c = b # t" "b \<noteq> 34" using escape_char_head by blast
  then show ?case using Cons read_char_escape[of c "concat (map escape_char s) @ 34 # u"]
    by (subst read_string.simps) auto
qed (simp add: read_string.simps)

text \<open>What may follow a value inside a document.\<close>

definition value_end :: "ustr \<Rightarrow> bool" where
  "value_end r = (r = [] \<or> hd r = 44 \<or> hd r = 93 \<or> hd r = 125)"

lemma value_end_simps [simp]:
  "value_end []" "value_end (44 # r)" "value_end (93 # r)" "value_end (125 # r)"
  by (simp_all add: value_end_def)

lemma skip_ws_simps [simp]: "skip_ws [] = []" "\<not> json_space c \<Longrightarrow> skip_ws (c # r) = c # r"
  by (simp_all add: skip_ws_def)

lemma skip_value_end [simp]: "value_end r \<Longrightarrow> skip_ws r = r"
  by (cases r) (auto simp: value_end_def json_space_def)

fun short_ints :: "pyval \<Rightarrow> bool" where
  "short_ints (PInt i) = (length (dec_nat (nat \<bar>i\<bar>)) \<le> 4300)"
| "short_ints (PList xs) = (\<forall>v\<in>set xs. short_ints v)"
| "short_ints (PDict d) = (\<forall>kv\<in>set d. short_ints (snd kv))"
| "short_ints v = True"

fun distinct_keys :: "pyval \<Rightarrow> bool" where
  "distinct_keys (PList xs) = (\<forall>v\<in>set xs. distinct_keys v)"
| "distinct_keys (PDict d) = (distinct (map fst d) \<and> (\<forall>kv\<in>set d. distinct_keys (snd kv)))"
| "distinct_keys v = True"

definition readable :: "pyval \<Rightarrow> bool" where
  "readable v = (float_free v \<and> short_ints v \<and> distinct_keys v)"

lemma dec_nat_zero: "hd (dec_nat n) = 48 \<Longrightarrow> n = 0"
proof (induction n rule: dec_nat.induct)
  case (1 n)
  show ?case
  proof (cases "n < 10")
    case False
    then have "hd (dec_nat n) = hd (dec_nat (n div 10))" using dec_nat_nonempty by (simp add: dec_nat.simps[of n])
    then have "n div 10 = 0" using 1 False by simp
    then show ?thesis using False by simp
  qed (use 1 in \<open>simp add: dec_nat.simps[of n]\<close>)
qed

lemma read_frac_end [simp]: "value_end r \<Longrightarrow> read_frac r = ([], r)"
  by (cases r) (auto simp: read_frac_def value_end_def)

lemma read_exp_end [simp]: "value_end r \<Longrightarrow> read_exp r = ([], r)"
  by (cases r) (auto simp: read_exp_def value_end_def)

lemma read_digits:
  assumes "value_end r"
  shows "takeWhile json_digit (dec_nat n @ r) = dec_nat n"
proof -
  have "\<forall>c\<in>set (dec_nat n). json_digit c" using dec_nat_digits by (simp add: json_digit_def)
  moreover have "takeWhile json_digit r = []" using assms by (cases r) (auto simp: value_end_def json_digit_def)
  ultimately show ?thesis by simp
qed

lemma read_unsigned_nat:
  assumes "value_end r" "length (dec_nat n) \<le> 4300"
  shows "read_unsigned fp neg (dec_nat n @ r) = Inr (PInt (if neg then - int n else int n), r)"
proof -
  obtain c s where c: "dec_nat n = c # s" "48 \<le> c" "c \<le> 57" using dec_nat_head by blast
  have d: "(if hd (dec_nat n @ r) = 48 then [48] else takeWhile json_digit (dec_nat n @ r)) = dec_nat n"
  proof (cases "c = 48")
    case True
    then have "n = 0" using dec_nat_zero[of n] c(1) by simp
    then show ?thesis using True c(1) by (simp add: dec_nat.simps[of 0])
  next
    case False
    then show ?thesis using read_digits[OF assms(1), of n] c(1) by simp
  qed
  have nd: "\<not> (dec_nat n @ r = [] \<or> \<not> json_digit (hd (dec_nat n @ r)))" using c by (simp add: json_digit_def)
  show ?thesis
    unfolding read_unsigned_def d Let_def using nd assms dec_nat_nonempty[of n] by (simp add: num_val_dec)
qed

lemma read_number_int:
  assumes "value_end r" "length (dec_nat (nat \<bar>i\<bar>)) \<le> 4300"
  shows "read_number fp (dec_int i @ r) = Inr (PInt i, r)"
proof (cases "i < 0")
  case True
  then show ?thesis using read_unsigned_nat[OF assms(1), of "nat (- i)" fp True] assms(2)
    by (simp add: read_number_def dec_int_def)
next
  case False
  obtain c s where "dec_nat (nat i) = c # s" "48 \<le> c" using dec_nat_head by blast
  then show ?thesis using read_unsigned_nat[OF assms(1), of "nat i" fp False] assms(2) False
    by (simp add: read_number_def dec_int_def)
qed

lemma json_head_not_space: "float_free v \<Longrightarrow> skip_ws (json_text fr v @ r) = json_text fr v @ r"
  using json_text_head[of v fr] by (cases v) (auto simp: kind_char_def json_space_def split: if_splits)

lemma read_word_number: "read_word (dec_int i @ r) = None"
proof -
  obtain c s where c: "dec_nat (nat \<bar>i\<bar>) = c # s" "48 \<le> c" "c \<le> 57" using dec_nat_head by blast
  then have "dec_int i @ r = (if i < 0 then 45 # c # s @ r else c # s @ r)" by (auto simp: dec_int_def)
  then show ?thesis using c by (auto simp: read_word_def words_def startswith_def lit_def)
qed

lemma read_words:
  "read_word (110 # 117 # 108 # 108 # r) = Some (PNone, r)"
  "read_word (116 # 114 # 117 # 101 # r) = Some (PBool True, r)"
  "read_word (102 # 97 # 108 # 115 # 101 # r) = Some (PBool False, r)"
  by (auto simp: read_word_def words_def startswith_def lit_def)

text \<open>What the induction gives for a part of a document.\<close>

definition reads :: "(pyfloat \<Rightarrow> ustr) \<Rightarrow> (ustr \<Rightarrow> pyfloat) \<Rightarrow> bool \<Rightarrow> pyval \<Rightarrow> bool" where
  "reads fr fp hook v = (\<forall>n r. value_end r \<longrightarrow> length (json_text fr v) \<le> n \<longrightarrow>
     read_value fp hook (Suc n) (json_text fr v @ r) = Inr (v, r))"

lemma readsD:
  "reads fr fp hook v \<Longrightarrow> value_end r \<Longrightarrow> length (json_text fr v) < n \<Longrightarrow>
    read_value fp hook n (json_text fr v @ r) = Inr (v, r)"
  by (cases n) (auto simp: reads_def)

lemma read_elems_joined:
  assumes "xs \<noteq> []" "\<forall>v\<in>set xs. reads fr fp hook v \<and> float_free v" "length (joined (map (json_text fr) xs)) + 2 \<le> n"
  shows "read_elems fp hook n (joined (map (json_text fr) xs) @ 93 # r) = Inr (xs, r)"
  using assms
proof (induction xs arbitrary: n)
  case (Cons v xs)
  then obtain m where n: "n = Suc m" by (cases n) auto
  show ?case
  proof (cases "xs = []")
    case True
    then show ?thesis using Cons.prems n readsD[of fr fp hook v "93 # r" m] by simp
  next
    case False
    then obtain w ys where "xs = w # ys" by (cases xs) auto
    have l: "length (json_text fr v) + length (joined (map (json_text fr) xs)) + 3 \<le> n"
      using Cons.prems(3) False by (simp add: joined_Cons)
    have sk: "skip_ws (joined (map (json_text fr) xs) @ 93 # r) = joined (map (json_text fr) xs) @ 93 # r"
      using Cons.prems(2) json_head_not_space[of w fr "joined (map (json_text fr) ys) @ 93 # r"] json_head_not_space[of w fr]
      by (auto simp: \<open>xs = w # ys\<close> joined_Cons)
    have "read_elems fp hook m (joined (map (json_text fr) xs) @ 93 # r) = Inr (xs, r)"
      using Cons.IH[of m] False Cons.prems(2) l n by simp
    then show ?thesis
      using readsD[of fr fp hook v "44 # joined (map (json_text fr) xs) @ 93 # r" m] Cons.prems(2) l n False sk
      by (simp add: joined_Cons)
  qed
qed simp

abbreviation member_text :: "(pyfloat \<Rightarrow> ustr) \<Rightarrow> ustr \<times> pyval \<Rightarrow> ustr" where
  "member_text fr kv \<equiv> json_str (fst kv) @ 58 # json_text fr (snd kv)"

lemma read_members_joined:
  assumes "d \<noteq> []" "\<forall>kv\<in>set d. reads fr fp hook (snd kv) \<and> float_free (snd kv)" "length (joined (map (member_text fr) d)) + 2 \<le> n"
  shows "read_members fp hook n (joined (map (member_text fr) d) @ 125 # r) = Inr (d, r)"
  using assms
proof (induction d arbitrary: n)
  case (Cons kv d)
  obtain k v where kv: "kv = (k, v)" by (cases kv)
  obtain m where n: "n = Suc m" using Cons.prems(3) by (cases n) auto
  have st: "read_string (concat (map escape_char k) @ 34 # u) = Inr (k, u)" for u by (rule read_string_escapes)
  have js: "json_str k @ u = 34 # concat (map escape_char k) @ 34 # u" for u by (simp add: json_str_def)
  have v: "reads fr fp hook v" "float_free v" using Cons.prems(2) kv by auto
  show ?case
  proof (cases "d = []")
    case True
    then show ?thesis using Cons.prems(3) n readsD[OF v(1), of "125 # r" m] v(2)
      by (simp add: kv js st json_head_not_space json_space_def)
  next
    case False
    then obtain e ys where d: "d = e # ys" by (cases d) auto
    have l: "length (member_text fr kv) + length (joined (map (member_text fr) d)) + 3 \<le> n"
      using Cons.prems(3) False by (simp add: joined_Cons)
    have sk: "skip_ws (joined (map (member_text fr) d) @ 125 # r) = joined (map (member_text fr) d) @ 125 # r"
      by (simp add: d joined_Cons json_str_def json_space_def)
    have "read_members fp hook m (joined (map (member_text fr) d) @ 125 # r) = Inr (d, r)"
      using Cons.IH[of m] False Cons.prems(2) l n by simp
    then show ?thesis
      using readsD[OF v(1), of "44 # joined (map (member_text fr) d) @ 125 # r" m] v(2) l n False sk
      by (simp add: kv js st joined_Cons json_head_not_space json_space_def)
  qed
qed simp

lemma dict_set_new: "k \<notin> fst ` set d \<Longrightarrow> dict_set k v d = d @ [(k, v)]"
  by (induction d) auto

lemma plain_object: "distinct (map fst kvs) \<Longrightarrow> make_object hook kvs = Inr kvs"
proof -
  let ?step = "\<lambda>kv (seen :: pydict). if has_key seen (fst kv) then Inl (ValueError ''duplicate key'') else Inr (dict_set (fst kv) (snd kv) seen)"
  have "distinct (map fst (d @ kvs)) \<Longrightarrow> rfold ?step kvs d = Inr (d @ kvs) \<and> foldl (\<lambda>d kv. dict_set (fst kv) (snd kv) d) d kvs = d @ kvs" for d
  proof (induction kvs arbitrary: d)
    case (Cons kv kvs)
    have "distinct (map fst ((d @ [kv]) @ kvs))" using Cons.prems by simp
    from Cons.IH[OF this] show ?case using Cons.prems by (simp add: dict_set_new has_key_iff)
  qed simp
  from this[of "[]"] show "distinct (map fst kvs) \<Longrightarrow> make_object hook kvs = Inr kvs"
    by (simp add: make_object_def reject_duplicate_keys_def)
qed

lemma reads_readable: "readable v \<Longrightarrow> reads fr fp hook v"
proof (induction v)
  case (PList xs)
  then have a: "\<forall>v\<in>set xs. reads fr fp hook v \<and> float_free v" by (auto simp: readable_def)
  show ?case unfolding reads_def
  proof (intro allI impI)
    fix n r
    assume n: "length (json_text fr (PList xs)) \<le> n"
    show "read_value fp hook (Suc n) (json_text fr (PList xs) @ r) = Inr (PList xs, r)"
    proof (cases xs)
      case (Cons w ys)
      have sk: "skip_ws (joined (map (json_text fr) xs) @ 93 # r) = joined (map (json_text fr) xs) @ 93 # r"
        using a json_head_not_space[of w fr] by (auto simp: Cons joined_Cons)
      have "\<not> startswith (joined (map (json_text fr) xs) @ 93 # r) [93]"
        using a json_text_head[of w fr] by (cases w) (auto simp: Cons joined_Cons kind_char_def)
      then show ?thesis using read_elems_joined[OF _ a, of n r] n Cons sk by simp
    qed simp
  qed
next
  case (PDict d)
  then have a: "\<forall>kv\<in>set d. reads fr fp hook (snd kv) \<and> float_free (snd kv)" "distinct (map fst d)"
    by (fastforce simp: readable_def)+
  show ?case unfolding reads_def
  proof (intro allI impI)
    fix n r
    assume n: "length (json_text fr (PDict d)) \<le> n"
    show "read_value fp hook (Suc n) (json_text fr (PDict d) @ r) = Inr (PDict d, r)"
    proof (cases d)
      case (Cons e ys)
      have sk: "skip_ws (joined (map (member_text fr) d) @ 125 # r) = joined (map (member_text fr) d) @ 125 # r"
        "\<not> startswith (joined (map (member_text fr) d) @ 125 # r) [125]"
        by (simp_all add: Cons joined_Cons json_str_def json_space_def)
      then show ?thesis using read_members_joined[OF _ a(1), of n r] n Cons plain_object[OF a(2)] by simp
    qed simp
  qed
next
  case (PInt i)
  obtain c s where c: "dec_int i = c # s" "kind_char c = 48" using dec_int_head by blast
  then have "c \<noteq> 34" "c \<noteq> 91" "c \<noteq> 123" by (auto simp: kind_char_def split: if_splits)
  then show ?case using PInt read_number_int[of _ i fp] read_word_number[of i] c
    by (auto simp: reads_def readable_def)
qed (use read_words in \<open>auto simp: reads_def readable_def json_str_def read_string_escapes\<close>)

text \<open>The two readers on what the printers write.\<close>

lemma json_loads_text:
  assumes "readable v"
  shows "json_loads fp hook (json_text fr v) = Inr v"
proof -
  have "float_free v" using assms by (simp add: readable_def)
  then show ?thesis
    using readsD[OF reads_readable[OF assms, of fr fp hook], of "[]" "Suc (length (json_text fr v))"] json_head_not_space[of v fr "[]"]
    by (simp add: json_loads_def)
qed

lemma utf8_pass_encode: "scalar_str s \<Longrightarrow> utf8_decode_pass (utf8_encode s) = Inr s"
proof (induction s)
  case (Cons c s)
  obtain b bs where b: "utf8_char c = b # bs" by (cases "utf8_char c") (auto simp: utf8_char_def split: if_splits)
  have "utf8_next b (bs @ utf8_encode s) = (Some c, utf8_encode s)"
    using Cons.prems utf8_next_char[of c "utf8_encode s"] b by simp
  then show ?case using Cons b by (simp add: utf8_encode_def)
qed (simp add: utf8_encode_def)

lemma json_loads_object:
  assumes "readable (PDict d)" "scalar_str (json_text fr (PDict d))"
  shows "json_loads_bytes fp hook (utf8_encode (json_text fr (PDict d))) = Inr (PDict d)"
proof -
  obtain c t where t: "json_text fr (PDict d) = 123 # c # t" "c = 34 \<or> c = 125"
    by (cases d) (auto simp: joined_Cons json_str_def)
  obtain bs where b: "utf8_encode (json_text fr (PDict d)) = 123 # c # bs"
    unfolding t(1) using t(2) by (auto simp: utf8_encode_def utf8_char_def)
  have "decode_json_bytes (123 # c # bs) = utf8_decode_pass (123 # c # bs)"
    using t(2) by (auto simp: decode_json_bytes_def startswith_def)
  then show ?thesis
    using utf8_pass_encode[OF assms(2)] json_loads_text[OF assms(1), of fp hook fr] unfolding json_loads_bytes_def b by simp
qed

end
