(* ===== verification/Receipts.thy ===== *)
theory Receipts
  imports PyJsonRead Records Gate
begin

text \<open>
  Provenance receipts, \<open>raucle/provenance.py\<close>: the operations and what each requires, the capability
  statement of an agent, the receipt with its signed payload, its compact JWS form and the parser, and the
  two-signature form of \<open>raucle/pq.py\<close>.

  The record \<open>host\<close> holds what the module calls and is not read here, beside \<open>env\<close>: the value of a float
  literal, \<open>str\<close> of a list, a dictionary or a float, \<open>int\<close> of a string, the verification of an RFC 3161
  token, and whether the runtime has ML-DSA.  The values of a parsed payload are of any JSON type, as in the
  code, which checks them only where it uses them.
\<close>

record host =
  h_env :: env
  float_parse :: "ustr \<Rightarrow> pyfloat"
  obj_str :: "pyval \<Rightarrow> ustr"
  str_int :: "ustr \<Rightarrow> int res"
  tsa_verify :: "bytes \<Rightarrow> bytes \<Rightarrow> int \<Rightarrow> bool \<times> ustr"
  mldsa :: bool

section \<open>Operations\<close>

datatype Operation = USER_INPUT | MODEL_CALL | TOOL_CALL | RETRIEVAL | GUARDRAIL_SCAN | AGENT_HANDOFF | SANITISATION | MERGE

primrec op_value :: "Operation \<Rightarrow> ustr" where
  "op_value USER_INPUT = lit ''user_input''"
| "op_value MODEL_CALL = lit ''model_call''"
| "op_value TOOL_CALL = lit ''tool_call''"
| "op_value RETRIEVAL = lit ''retrieval''"
| "op_value GUARDRAIL_SCAN = lit ''guardrail_scan''"
| "op_value AGENT_HANDOFF = lit ''agent_handoff''"
| "op_value SANITISATION = lit ''sanitisation''"
| "op_value MERGE = lit ''merge''"

definition operations :: "Operation list" where
  "operations = [USER_INPUT, MODEL_CALL, TOOL_CALL, RETRIEVAL, GUARDRAIL_SCAN, AGENT_HANDOFF, SANITISATION, MERGE]"

text \<open>\<open>Operation(v)\<close>.\<close>

definition op_of :: "pyval \<Rightarrow> Operation res" where
  "op_of v = (case filter (\<lambda>o'. v = PStr (op_value o')) operations of
       [] \<Rightarrow> Inl (ValueError ''not a valid Operation'')
     | o' # _ \<Rightarrow> Inr o')"

definition ROOTABLE_OPS :: "Operation list" where
  "ROOTABLE_OPS = [USER_INPUT, GUARDRAIL_SCAN]"

datatype receipt_field = F_input_hash | F_output_hash | F_model | F_tool | F_corpus | F_ruleset_hash | F_guardrail_verdict

primrec REQUIRED_FIELDS_BY_OP :: "Operation \<Rightarrow> receipt_field list" where
  "REQUIRED_FIELDS_BY_OP USER_INPUT = [F_input_hash]"
| "REQUIRED_FIELDS_BY_OP MODEL_CALL = [F_input_hash, F_output_hash, F_model]"
| "REQUIRED_FIELDS_BY_OP TOOL_CALL = [F_input_hash, F_output_hash, F_tool]"
| "REQUIRED_FIELDS_BY_OP RETRIEVAL = [F_input_hash, F_output_hash, F_corpus]"
| "REQUIRED_FIELDS_BY_OP GUARDRAIL_SCAN = [F_input_hash, F_ruleset_hash, F_guardrail_verdict]"
| "REQUIRED_FIELDS_BY_OP AGENT_HANDOFF = [F_output_hash]"
| "REQUIRED_FIELDS_BY_OP SANITISATION = [F_input_hash, F_output_hash, F_tool, F_corpus]"
| "REQUIRED_FIELDS_BY_OP MERGE = [F_output_hash]"

section \<open>The receipt\<close>

record ProvenanceReceipt =
  r_agent_id :: pyval
  r_agent_key_id :: pyval
  r_operation :: Operation
  r_parents :: "pyval list"
  r_input_hash :: pyval
  r_output_hash :: pyval
  r_model :: pyval
  r_tool :: pyval
  r_corpus :: pyval
  r_ruleset_hash :: pyval
  r_guardrail_verdict :: pyval
  r_taint :: "pyval list"
  r_tenant :: pyval
  r_issued_at :: pyval
  r_x_bilateral :: pyval
  r_jws :: ustr
  r_receipt_hash :: ustr

primrec field_value :: "ProvenanceReceipt \<Rightarrow> receipt_field \<Rightarrow> pyval" where
  "field_value r F_input_hash = r_input_hash r"
| "field_value r F_output_hash = r_output_hash r"
| "field_value r F_model = r_model r"
| "field_value r F_tool = r_tool r"
| "field_value r F_corpus = r_corpus r"
| "field_value r F_ruleset_hash = r_ruleset_hash r"
| "field_value r F_guardrail_verdict = r_guardrail_verdict r"

primrec field_name :: "receipt_field \<Rightarrow> ustr" where
  "field_name F_input_hash = lit ''input_hash''"
| "field_name F_output_hash = lit ''output_hash''"
| "field_name F_model = lit ''model''"
| "field_name F_tool = lit ''tool''"
| "field_name F_corpus = lit ''corpus''"
| "field_name F_ruleset_hash = lit ''ruleset_hash''"
| "field_name F_guardrail_verdict = lit ''guardrail_verdict''"

text \<open>\<open>sorted(xs, key=_utf16_key)\<close>: the key function raises on a member that is not a string.\<close>

definition utf16_sorted :: "pyval list \<Rightarrow> pyval list res" where
  "utf16_sorted xs =
     py_sorted (\<lambda>v. case v of PStr s \<Rightarrow> utf16_key s | _ \<Rightarrow> Inl (TypeError ''utf16_key'')) xs"

definition sequence_errors :: "pyval list \<Rightarrow> string list res" where
  "sequence_errors xs =
     rbind (utf16_sorted xs) (\<lambda>ys.
     rbind (py_set [] xs) (\<lambda>us.
     Inr ((if xs \<noteq> ys then [''must be sorted''] else []) @ (if length xs \<noteq> length us then [''must not contain duplicates''] else []))))"

definition structural_errors :: "ProvenanceReceipt \<Rightarrow> string list res" where
  "structural_errors r =
     rbind (sequence_errors (r_parents r)) (\<lambda>ps.
     rbind (sequence_errors (r_taint r)) (\<lambda>ts.
     Inr ((if r_parents r = [] \<and> r_operation r \<notin> set ROOTABLE_OPS then [''empty parents''] else []) @
          (if r_operation r = MERGE \<and> length (r_parents r) < 2 then [''merge receipt must have >= 2 parents''] else []) @
          map (\<lambda>_. ''missing required field'')
            (filter (\<lambda>f. \<not> truthy (field_value r f)) (REQUIRED_FIELDS_BY_OP (r_operation r))) @ ps @ ts)))"

definition validate_receipt_strict :: "ProvenanceReceipt \<Rightarrow> unit res" where
  "validate_receipt_strict r = rbind (structural_errors r) (\<lambda>errs. rcheck (errs = []) (ValueError ''structure''))"

section \<open>Hashes and blocks\<close>

abbreviation SHA256_PREFIX :: ustr where "SHA256_PREFIX \<equiv> lit ''sha256:''"

definition hash_text :: "host \<Rightarrow> ustr \<Rightarrow> ustr res" where
  "hash_text H s = rbind (utf8_encode_strict s) (\<lambda>b. Inr (SHA256_PREFIX @ sha256_hex (h_env H) b))"

definition hash_obj :: "host \<Rightarrow> pyval \<Rightarrow> ustr res" where
  "hash_obj H v = rbind (canonical_json (h_env H) v) (\<lambda>b. Inr (SHA256_PREFIX @ sha256_hex (h_env H) b))"

text \<open>\<open>str(v)\<close> and \<open>int(v)\<close>.\<close>

definition py_str :: "host \<Rightarrow> pyval \<Rightarrow> ustr" where
  "py_str H v = (case v of
       PStr s \<Rightarrow> s
     | PInt i \<Rightarrow> dec_int i
     | PBool b \<Rightarrow> (if b then lit ''True'' else lit ''False'')
     | PNone \<Rightarrow> lit ''None''
     | _ \<Rightarrow> obj_str H v)"

definition py_int :: "host \<Rightarrow> pyval \<Rightarrow> int res" where
  "py_int H v = (case v of
       PInt i \<Rightarrow> Inr i
     | PBool b \<Rightarrow> Inr (if b then 1 else 0)
     | PStr s \<Rightarrow> str_int H s
     | PFloat (Finite q) \<Rightarrow> Inr (if q < 0 then - \<lfloor>- q\<rfloor> else \<lfloor>q\<rfloor>)
     | PFloat _ \<Rightarrow> Inl (ValueError ''cannot convert float'')
     | _ \<Rightarrow> Inl (TypeError ''int''))"

definition digest_material :: "host \<Rightarrow> pydict \<Rightarrow> pydict" where
  "digest_material H cap =
     [(lit ''capability_id'', PStr (py_str H (dict_get cap (lit ''token_id'') (PStr [])))),
      (lit ''issuer'', PStr (py_str H (dict_get cap (lit ''issuer'') (PStr [])))),
      (lit ''key_id'', PStr (py_str H (dict_get cap (lit ''key_id'') (PStr [])))),
      (lit ''parent_id'', get_or_none cap ''parent_id'')]"

definition authorization_block :: "host \<Rightarrow> pydict \<Rightarrow> pydict res" where
  "authorization_block H cap =
     rbind (canonical_json (h_env H) (PDict (digest_material H cap))) (\<lambda>m.
     Inr (digest_material H cap @ [(lit ''attenuated'', PBool (get_or_none cap ''parent_id'' \<noteq> PNone)),
       (lit ''chain_digest'', PStr (sha256_hex (h_env H) m))]))"

definition BILATERAL_OUTCOMES :: "ustr list" where
  "BILATERAL_OUTCOMES = map lit [''executed'', ''failed'', ''rejected'']"

definition bilateral_signing_input :: "host \<Rightarrow> ustr \<Rightarrow> ustr \<Rightarrow> ustr \<Rightarrow> bytes res" where
  "bilateral_signing_input H kid outcome out_hash = canonical_json (h_env H) (PDict
     [(lit ''executor_key_id'', PStr kid), (lit ''outcome'', PStr outcome), (lit ''output_hash'', PStr out_hash)])"

definition sign_bilateral_outcome :: "host \<Rightarrow> (bytes \<Rightarrow> bytes) \<Rightarrow> ustr \<Rightarrow> ustr \<Rightarrow> ustr \<Rightarrow> pydict res" where
  "sign_bilateral_outcome H sign kid outcome out_hash =
     rbind (rcheck (outcome \<in> set BILATERAL_OUTCOMES) (ValueError ''unknown bilateral outcome'')) (\<lambda>_.
     rbind (bilateral_signing_input H kid outcome out_hash) (\<lambda>m.
     Inr [(lit ''outcome'', PStr outcome), (lit ''output_hash'', PStr out_hash), (lit ''executor_key_id'', PStr kid),
          (lit ''signature'', PStr (std_b64encode (sign m)))]))"

section \<open>Capability statements\<close>

record CapabilityStatement =
  st_agent_id :: ustr
  st_key_id :: ustr
  st_public_key_pem :: ustr
  st_allowed_models :: "ustr list"
  st_allowed_tools :: "ustr list"
  st_data_classifications :: "ustr list"
  st_sanitisation_authority :: "ustr list"
  st_issuer :: ustr
  st_issued_at :: int
  st_expires_at :: "int option"
  st_signature :: ustr

definition CAP_STMT_KNOWN_FIELDS :: "ustr list" where
  "CAP_STMT_KNOWN_FIELDS = map lit [''agent_id'', ''key_id'', ''public_key_pem'', ''allowed_models'', ''allowed_tools'',
     ''data_classifications'', ''sanitisation_authority'', ''issuer'', ''issued_at'', ''expires_at'', ''signature'']"

definition cap_stmt_req_str :: "pydict \<Rightarrow> string \<Rightarrow> ustr res" where
  "cap_stmt_req_str d name = (case get_or_none d name of
       PStr s \<Rightarrow> if s = [] then Inl (ValueError name) else Inr s
     | _ \<Rightarrow> Inl (ValueError name))"

definition cap_stmt_opt_str :: "pydict \<Rightarrow> string \<Rightarrow> ustr res" where
  "cap_stmt_opt_str d name = (case dict_get d (lit name) (PStr []) of
       PNone \<Rightarrow> Inr []
     | PStr s \<Rightarrow> Inr s
     | _ \<Rightarrow> Inl (ValueError name))"

definition cap_stmt_opt_int :: "pydict \<Rightarrow> string \<Rightarrow> int \<Rightarrow> int res" where
  "cap_stmt_opt_int d name dflt = (case dict_get d (lit name) (PInt dflt) of
       PNone \<Rightarrow> Inr dflt
     | PInt i \<Rightarrow> Inr i
     | _ \<Rightarrow> Inl (ValueError name))"

definition cap_stmt_opt_int_or_none :: "pydict \<Rightarrow> string \<Rightarrow> int option res" where
  "cap_stmt_opt_int_or_none d name = (case get_or_none d name of
       PNone \<Rightarrow> Inr None
     | PInt i \<Rightarrow> Inr (Some i)
     | _ \<Rightarrow> Inl (ValueError name))"

definition cap_stmt_opt_str_list :: "pydict \<Rightarrow> string \<Rightarrow> ustr list res" where
  "cap_stmt_opt_str_list d name = (case dict_get d (lit name) (PList []) of
       PList xs \<Rightarrow> rmap (\<lambda>v. case v of PStr s \<Rightarrow> Inr s | _ \<Rightarrow> Inl (ValueError name)) xs
     | _ \<Rightarrow> Inl (ValueError name))"

definition sorted_strs :: "ustr list \<Rightarrow> pyval res" where
  "sorted_strs xs = rbind (py_sorted utf16_key xs) (\<lambda>ys. Inr (PList (map PStr ys)))"

definition statement_body :: "CapabilityStatement \<Rightarrow> pydict res" where
  "statement_body s =
     rbind (sorted_strs (st_allowed_models s)) (\<lambda>models.
     rbind (sorted_strs (st_allowed_tools s)) (\<lambda>tools.
     rbind (sorted_strs (st_data_classifications s)) (\<lambda>classes.
     rbind (sorted_strs (st_sanitisation_authority s)) (\<lambda>auth.
     Inr ([(lit ''agent_id'', PStr (st_agent_id s)), (lit ''key_id'', PStr (st_key_id s)),
           (lit ''public_key_pem'', PStr (st_public_key_pem s)), (lit ''allowed_models'', models),
           (lit ''allowed_tools'', tools), (lit ''data_classifications'', classes), (lit ''issuer'', PStr (st_issuer s)),
           (lit ''issued_at'', PInt (st_issued_at s)),
           (lit ''expires_at'', case st_expires_at s of None \<Rightarrow> PNone | Some t \<Rightarrow> PInt t)]
          @ (if st_sanitisation_authority s = [] then [] else [(lit ''sanitisation_authority'', auth)]))))))"

definition statement_to_dict :: "CapabilityStatement \<Rightarrow> pydict res" where
  "statement_to_dict s = rbind (statement_body s) (\<lambda>d. Inr (d @ [(lit ''signature'', PStr (st_signature s))]))"

definition statement_from_dict :: "pyval \<Rightarrow> CapabilityStatement res" where
  "statement_from_dict v = (case v of
       PDict d \<Rightarrow>
         rbind (rcheck (list_all (\<lambda>k. k \<in> set CAP_STMT_KNOWN_FIELDS) (keys d)) (ValueError ''unknown field(s)'')) (\<lambda>_.
         rbind (cap_stmt_req_str d ''agent_id'') (\<lambda>aid.
         rbind (cap_stmt_req_str d ''key_id'') (\<lambda>kid.
         rbind (cap_stmt_req_str d ''public_key_pem'') (\<lambda>pem.
         rbind (cap_stmt_opt_str_list d ''allowed_models'') (\<lambda>models.
         rbind (cap_stmt_opt_str_list d ''allowed_tools'') (\<lambda>tools.
         rbind (cap_stmt_opt_str_list d ''data_classifications'') (\<lambda>classes.
         rbind (cap_stmt_opt_str_list d ''sanitisation_authority'') (\<lambda>auth.
         rbind (cap_stmt_req_str d ''issuer'') (\<lambda>iss.
         rbind (cap_stmt_opt_int d ''issued_at'' 0) (\<lambda>iat.
         rbind (cap_stmt_opt_int_or_none d ''expires_at'') (\<lambda>exp.
         rbind (cap_stmt_opt_str d ''signature'') (\<lambda>sig.
         Inr \<lparr>st_agent_id = aid, st_key_id = kid, st_public_key_pem = pem, st_allowed_models = models,
              st_allowed_tools = tools, st_data_classifications = classes, st_sanitisation_authority = auth,
              st_issuer = iss, st_issued_at = iat, st_expires_at = exp, st_signature = sig\<rparr>))))))))))))
     | _ \<Rightarrow> Inl (ValueError ''must be a JSON object''))"

definition py_mem :: "pyval \<Rightarrow> pyval list \<Rightarrow> bool" where
  "py_mem v xs = list_ex (py_eq v) xs"

definition permits_model :: "CapabilityStatement \<Rightarrow> pyval \<Rightarrow> bool" where
  "permits_model s m = (if st_allowed_models s = [] then True else py_mem m (map PStr (st_allowed_models s)))"

definition permits_tool :: "CapabilityStatement \<Rightarrow> pyval \<Rightarrow> bool" where
  "permits_tool s t = (if st_allowed_tools s = [] then True else py_mem t (map PStr (st_allowed_tools s)))"

definition permits_sanitising :: "CapabilityStatement \<Rightarrow> ustr \<Rightarrow> bool" where
  "permits_sanitising s tag =
     (if lit ''*'' \<in> set (st_sanitisation_authority s) then True else tag \<in> set (st_sanitisation_authority s))"

section \<open>Identities\<close>

record AgentIdentity =
  ai_agent_id :: ustr
  ai_sign :: "bytes \<Rightarrow> bytes"
  ai_statement :: CapabilityStatement

definition new_identity :: "ustr \<Rightarrow> (bytes \<Rightarrow> bytes) \<Rightarrow> CapabilityStatement \<Rightarrow> AgentIdentity res" where
  "new_identity aid sign stmt = rbind (validate_agent_id aid) (\<lambda>_.
     Inr \<lparr>ai_agent_id = aid, ai_sign = sign, ai_statement = stmt\<rparr>)"

text \<open>\<open>generate\<close>, with the fresh key pair as arguments.\<close>

definition generate_identity ::
  "host \<Rightarrow> (bytes \<Rightarrow> bytes) \<Rightarrow> ustr \<Rightarrow> int \<Rightarrow> ustr \<Rightarrow> ustr list \<Rightarrow> ustr list \<Rightarrow> ustr list \<Rightarrow> ustr \<Rightarrow> int option \<Rightarrow> AgentIdentity res" where
  "generate_identity H sign pem now aid models tools classes iss ttl =
     rbind (validate_agent_id aid) (\<lambda>_.
     let stmt = \<lparr>st_agent_id = aid, st_key_id = take 16 (sha256_hex (h_env H) pem), st_public_key_pem = pem,
            st_allowed_models = models, st_allowed_tools = tools, st_data_classifications = classes,
            st_sanitisation_authority = [], st_issuer = iss, st_issued_at = now,
            st_expires_at = (case ttl of None \<Rightarrow> None | Some t \<Rightarrow> if t = 0 then None else Some (now + t)),
            st_signature = []\<rparr> in
     rbind (statement_body stmt) (\<lambda>b.
     rbind (canonical_json (h_env H) (PDict b)) (\<lambda>m.
     new_identity aid sign (stmt\<lparr>st_signature := std_b64encode (sign m)\<rparr>))))"

abbreviation ai_key_id :: "AgentIdentity \<Rightarrow> ustr" where
  "ai_key_id A \<equiv> st_key_id (ai_statement A)"

section \<open>Signing\<close>

abbreviation EXPECTED_TYP :: ustr where "EXPECTED_TYP \<equiv> lit ''provenance-receipt/v1''"

abbreviation RAUCLE_V1 :: ustr where "RAUCLE_V1 \<equiv> lit ''raucle/v1''"

abbreviation PQ1_PROFILE :: ustr where "PQ1_PROFILE \<equiv> lit ''raucle/pq1''"

abbreviation PQ1_ALG :: ustr where "PQ1_ALG \<equiv> lit ''ml-dsa-65''"

definition optional_fields :: "receipt_field list" where
  "optional_fields = [F_input_hash, F_output_hash, F_model, F_tool, F_corpus, F_ruleset_hash, F_guardrail_verdict]"

definition payload :: "ProvenanceReceipt \<Rightarrow> pydict res" where
  "payload r =
     rbind (utf16_sorted (r_parents r)) (\<lambda>ps.
     rbind (utf16_sorted (r_taint r)) (\<lambda>ts.
     Inr ([(lit ''iss'', PStr (lit ''raucle-detect/provenance'')), (lit ''typ'', PStr EXPECTED_TYP),
           (lit ''iat'', r_issued_at r), (lit ''agent_id'', r_agent_id r), (lit ''agent_key_id'', r_agent_key_id r),
           (lit ''operation'', PStr (op_value (r_operation r))), (lit ''parents'', PList ps), (lit ''taint'', PList ts)]
          @ map (\<lambda>f. (field_name f, field_value r f)) (filter (\<lambda>f. truthy (field_value r f)) optional_fields)
          @ (if r_tenant r = PNone then [] else [(lit ''tenant'', r_tenant r)])
          @ (if r_x_bilateral r = PNone then [] else [(lit ''x_bilateral'', r_x_bilateral r)]))))"

text \<open>The hybrid signer: the identifier of the ML-DSA key and the two signing functions.\<close>

record HybridSigner =
  hy_ed_sign :: "bytes \<Rightarrow> bytes"
  hy_pq_sign :: "bytes \<Rightarrow> bytes"
  hy_pq_key_id :: ustr

definition sign_both :: "HybridSigner \<Rightarrow> bytes \<Rightarrow> ustr" where
  "sign_both S m = b64 (hy_ed_sign S m) @ lit ''.'' @ b64 (hy_pq_sign S m)"

definition pq1_header :: "pydict \<Rightarrow> ustr \<Rightarrow> pydict res" where
  "pq1_header base kid =
     rbind (py_iter (dict_get base (lit ''crit'') (PList []))) (\<lambda>crit.
     let crit' = (if py_mem (PStr PQ1_PROFILE) crit then crit else crit @ [PStr PQ1_PROFILE]) in
     Inr (dict_set (lit ''pqk'') (PStr kid) (dict_set (lit ''crit'') (PList crit')
       (dict_set PQ1_PROFILE (PStr PQ1_ALG) base))))"

definition v1_header :: "ustr \<Rightarrow> pydict" where
  "v1_header kid =
     [(lit ''alg'', PStr (lit ''EdDSA'')), (lit ''typ'', PStr EXPECTED_TYP), (lit ''kid'', PStr kid),
      (lit ''crit'', PList [PStr RAUCLE_V1]), (RAUCLE_V1, PStr (lit ''provenance''))]"

definition ascii_encode :: "ustr \<Rightarrow> bytes res" where
  "ascii_encode s = (if list_all (\<lambda>c. c < 128) s then Inr s else Inl (ValueError ''ascii''))"

definition receipt_hash_of :: "host \<Rightarrow> ustr \<Rightarrow> ustr res" where
  "receipt_hash_of H jws = rbind (ascii_encode jws) (\<lambda>b. Inr (SHA256_PREFIX @ sha256_hex (h_env H) b))"

definition sign_receipt ::
  "host \<Rightarrow> AgentIdentity \<Rightarrow> HybridSigner option \<Rightarrow> ProvenanceReceipt \<Rightarrow> ProvenanceReceipt res" where
  "sign_receipt H A hybrid r =
     rbind (case hybrid of None \<Rightarrow> Inr (v1_header (ai_key_id A)) | Some S \<Rightarrow> pq1_header (v1_header (ai_key_id A)) (hy_pq_key_id S)) (\<lambda>header.
     rbind (canonical_json (h_env H) (PDict header)) (\<lambda>hb.
     rbind (payload r) (\<lambda>pd.
     rbind (canonical_json (h_env H) (PDict pd)) (\<lambda>pb.
     let signing_input = b64 hb @ lit ''.'' @ b64 pb;
         sig = (case hybrid of None \<Rightarrow> b64 (ai_sign A signing_input) | Some S \<Rightarrow> sign_both S signing_input);
         jws = signing_input @ lit ''.'' @ sig in
     rbind (receipt_hash_of H jws) (\<lambda>h.
     Inr (r\<lparr>r_jws := jws, r_receipt_hash := h\<rparr>))))))"

definition to_jws :: "ProvenanceReceipt \<Rightarrow> ustr res" where
  "to_jws r = (if r_jws r = [] then Inl (ValueError ''receipt has not been signed yet'') else Inr (r_jws r))"

section \<open>Parsing\<close>

text \<open>\<open>v.get(k)\<close> on a value that should be a dictionary.\<close>

definition get_attr :: "pyval \<Rightarrow> string \<Rightarrow> pyval res" where
  "get_attr v k = (case v of PDict d \<Rightarrow> Inr (get_or_none d k) | _ \<Rightarrow> Inl (AttributeError ''get''))"

definition declares_pq1 :: "pydict \<Rightarrow> bool" where
  "declares_pq1 header = py_eq (dict_get header PQ1_PROFILE PNone) (PStr PQ1_ALG)"

definition enforce_crit :: "pydict \<Rightarrow> unit res" where
  "enforce_crit header = (case get_or_none header ''crit'' of
       PNone \<Rightarrow> Inl (ValueError ''missing crit'')
     | PList crit \<Rightarrow>
         let understood = RAUCLE_V1 # (if declares_pq1 header then [PQ1_PROFILE] else []) in
         rbind (rcheck (list_all is_str crit) (ValueError ''crit must be a list of strings'')) (\<lambda>_.
         rbind (rcheck (list_all (\<lambda>c. str_of c \<in> set understood) crit) (ValueError ''unknown critical header parameter'')) (\<lambda>_.
         rbind (rcheck (py_mem (PStr RAUCLE_V1) crit) (ValueError ''crit must include'')) (\<lambda>_.
         rcheck (list_all (\<lambda>c. has_key header (str_of c)) crit) (ValueError ''critical header parameter absent''))))
     | _ \<Rightarrow> Inl (ValueError ''crit must be a list of strings''))"

definition enforce_header :: "host \<Rightarrow> ustr \<Rightarrow> pyval \<Rightarrow> unit res" where
  "enforce_header H header_b64 expected_kid =
     rbind (rbind (b64d header_b64) (json_loads_bytes (float_parse H) True)) (\<lambda>hv. case hv of
       PDict header \<Rightarrow>
         rbind (rcheck (py_eq (get_or_none header ''alg'') (PStr (lit ''EdDSA''))) (ValueError ''unexpected JWS alg'')) (\<lambda>_.
         rbind (enforce_crit header) (\<lambda>_.
         rbind (rcheck (\<not> declares_pq1 header \<or> is_str (get_or_none header ''pqk'') \<and> length (str_of (get_or_none header ''pqk'')) = 16)
           (ValueError ''pqk'')) (\<lambda>_.
         rbind (rcheck (expected_kid = PNone \<or> py_eq (get_or_none header ''kid'') expected_kid) (ValueError ''kid'')) (\<lambda>_.
         rbind (rcheck (py_eq (get_or_none header ''typ'') (PStr EXPECTED_TYP)) (ValueError ''unexpected JOSE typ'')) (\<lambda>_.
         rbind (rcheck (py_eq (dict_get header RAUCLE_V1 PNone) (PStr (lit ''provenance''))) (ValueError ''raucle/v1'')) (\<lambda>_.
         rbind (py_iter (get_or_none header ''crit'')) (\<lambda>crit.
         let allowed_keys = map lit [''alg'', ''typ'', ''kid'', ''crit''] @ map str_of crit
               @ (if declares_pq1 header then [PQ1_PROFILE, lit ''pqk''] else []) in
         rcheck (list_all (\<lambda>k. k \<in> set allowed_keys) (keys header)) (ValueError ''unexpected JOSE header key(s)''))))))))
     | _ \<Rightarrow> Inl (ValueError ''JOSE header must be a JSON object''))"

definition enforce_strict_payload :: "host \<Rightarrow> ustr \<Rightarrow> pydict \<Rightarrow> bytes \<Rightarrow> unit res" where
  "enforce_strict_payload H header_b64 pd payload_bytes =
     rbind (enforce_header H header_b64 (get_or_none pd ''agent_key_id'')) (\<lambda>_.
     rbind (rcheck (py_eq (get_or_none pd ''typ'') (PStr EXPECTED_TYP)) (ValueError ''payload typ'')) (\<lambda>_.
     rbind (rcheck (is_str (get_or_none pd ''iss'') \<and> truthy (get_or_none pd ''iss'')) (ValueError ''iss'')) (\<lambda>_.
     rbind (b64d header_b64) (\<lambda>header_bytes.
     rbind (json_loads_bytes (float_parse H) True header_bytes) (\<lambda>header_obj.
     rbind (canonical_json (h_env H) header_obj) (\<lambda>hb.
     rbind (rcheck (hb = header_bytes) (ValueError ''JOSE header is not canonical JSON'')) (\<lambda>_.
     rbind (canonical_json (h_env H) (PDict pd)) (\<lambda>pb.
     rcheck (pb = payload_bytes) (ValueError ''JWS payload is not canonical JSON'')))))))))"

definition MAX_JWS_BYTES :: nat where "MAX_JWS_BYTES = 64 * 1024"

definition MAX_PAYLOAD_BYTES :: nat where "MAX_PAYLOAD_BYTES = 32 * 1024"

definition require_key :: "pydict \<Rightarrow> string \<Rightarrow> pyval res" where
  "require_key d k = (case map_of d (lit k) of Some v \<Rightarrow> Inr v | None \<Rightarrow> Inl (KeyError k))"

definition receipt_of_payload :: "pydict \<Rightarrow> ProvenanceReceipt res" where
  "receipt_of_payload d =
     (let opt = (\<lambda>f. dict_get d (field_name f) (PStr [])) in
      rbind (require_key d ''agent_id'') (\<lambda>aid.
      rbind (require_key d ''agent_key_id'') (\<lambda>kid.
      rbind (rbind (require_key d ''operation'') op_of) (\<lambda>oper.
      rbind (py_iter (dict_get d (lit ''parents'') (PList []))) (\<lambda>ps.
      rbind (py_iter (dict_get d (lit ''taint'') (PList []))) (\<lambda>ts.
      Inr \<lparr>r_agent_id = aid, r_agent_key_id = kid, r_operation = oper, r_parents = ps,
           r_input_hash = opt F_input_hash, r_output_hash = opt F_output_hash, r_model = opt F_model,
           r_tool = opt F_tool, r_corpus = opt F_corpus, r_ruleset_hash = opt F_ruleset_hash,
           r_guardrail_verdict = opt F_guardrail_verdict, r_taint = ts, r_tenant = get_or_none d ''tenant'',
           r_issued_at = dict_get d (lit ''iat'') (PInt 0), r_x_bilateral = get_or_none d ''x_bilateral'',
           r_jws = [], r_receipt_hash = []\<rparr>))))))"

definition from_jws :: "host \<Rightarrow> bool \<Rightarrow> bool \<Rightarrow> ustr \<Rightarrow> ProvenanceReceipt res" where
  "from_jws H strict validate_structure jws =
     (let parts = split_on 46 jws in
      rbind (rcheck (length jws \<le> MAX_JWS_BYTES) (ValueError ''JWS too large'')) (\<lambda>_.
      rbind (rcheck (length parts = 3 \<or> length parts = 4) (ValueError ''malformed JWS'')) (\<lambda>_.
      rbind (b64d (parts ! 1)) (\<lambda>payload_bytes.
      rbind (rcheck (length payload_bytes \<le> MAX_PAYLOAD_BYTES) (ValueError ''JWS payload too large'')) (\<lambda>_.
      rbind (json_loads_bytes (float_parse H) True payload_bytes) (\<lambda>pv. case pv of
        PDict pd \<Rightarrow>
          rbind (if strict then enforce_strict_payload H (parts ! 0) pd payload_bytes else Inr ()) (\<lambda>_.
          rbind (receipt_of_payload pd) (\<lambda>r0.
          rbind (receipt_hash_of H jws) (\<lambda>h.
          let r = r0\<lparr>r_jws := jws, r_receipt_hash := h\<rparr> in
          rbind (if strict \<and> validate_structure then validate_receipt_strict r else Inr ()) (\<lambda>_.
          Inr r))))
      | _ \<Rightarrow> Inl (if strict then AttributeError ''get'' else TypeError ''indices'')))))))"

definition receipt_to_dict :: "ProvenanceReceipt \<Rightarrow> pydict res" where
  "receipt_to_dict r = rbind (payload r) (\<lambda>d.
     Inr (d @ [(lit ''receipt_hash'', PStr (r_receipt_hash r)), (lit ''jws'', PStr (r_jws r))]))"

section \<open>The two-signature slot\<close>

definition parse_hybrid_signature :: "ustr \<Rightarrow> (bytes \<times> bytes) option" where
  "parse_hybrid_signature slot = (case split_on 46 slot of
       [ed_b64, pq_b64] \<Rightarrow> (case (b64d ed_b64, b64d pq_b64) of
           (Inr ed_sig, Inr pq_sig) \<Rightarrow> if length ed_sig = 64 \<and> length pq_sig = 3309 then Some (ed_sig, pq_sig) else None
         | _ \<Rightarrow> None)
     | _ \<Rightarrow> None)"

definition verify_hybrid :: "host \<Rightarrow> bytes \<Rightarrow> ustr \<Rightarrow> ustr \<Rightarrow> ustr \<Rightarrow> bool" where
  "verify_hybrid H signing_input slot ed_key pq_key = (case parse_hybrid_signature slot of
       None \<Rightarrow> False
     | Some (ed_sig, pq_sig) \<Rightarrow>
         ed_verify (h_env H) ed_key ed_sig signing_input \<and> pq_verify (h_env H) pq_key pq_sig signing_input)"

end
