(* ===== verification/ReceiptChain.thy ===== *)
theory ReceiptChain
  imports Receipts
begin

text \<open>
  The receipt chain, \<open>raucle/provenance.py\<close>: the logger that writes receipts and carries taint from
  parents to children, and the verifier of a chain file with its extension checks, the walk to the roots,
  and the migration of old files.

  A chain file is the list of its lines, without the blank ones and stripped, as texts.
\<close>

section \<open>The logger\<close>

record ProvenanceLogger =
  lg_agent :: AgentIdentity
  lg_tenant :: pyval
  lg_hybrid :: "HybridSigner option"
  lg_taint :: "(ustr \<times> pyval list) list"

definition load_taint_line :: "host \<Rightarrow> ustr \<Rightarrow> (ustr \<times> pyval list) list \<Rightarrow> (ustr \<times> pyval list) list res" where
  "load_taint_line H line tbl =
     (case rbind (json_loads (float_parse H) False line) (\<lambda>raw.
           rbind (get_attr raw ''jws'') (\<lambda>j.
           if \<not> truthy j then Inr None
           else (case j of
               PStr jws \<Rightarrow> rbind (from_jws H False True jws) (\<lambda>r.
                 rbind (py_set [] (r_taint r)) (\<lambda>ts. Inr (Some (r_receipt_hash r, ts))))
             | PList _ \<Rightarrow> Inl (AttributeError ''split'')
             | PDict _ \<Rightarrow> Inl (AttributeError ''split'')
             | _ \<Rightarrow> Inl (TypeError ''len'')))) of
        Inl (ValueError _) \<Rightarrow> Inr tbl
      | Inl (KeyError _) \<Rightarrow> Inr tbl
      | Inl e \<Rightarrow> Inl e
      | Inr None \<Rightarrow> Inr tbl
      | Inr (Some (h, ts)) \<Rightarrow> Inr (if h = [] then tbl else dict_set h ts tbl))"

definition load_existing_taints :: "host \<Rightarrow> ustr list \<Rightarrow> (ustr \<times> pyval list) list res" where
  "load_existing_taints H lines = rfold (load_taint_line H) lines []"

text \<open>The constructor on an existing or a new chain file, or on a stream, whose content it does not read.\<close>

definition new_logger ::
  "host \<Rightarrow> AgentIdentity \<Rightarrow> ustr list option \<Rightarrow> pyval \<Rightarrow> HybridSigner option \<Rightarrow> ProvenanceLogger res" where
  "new_logger H A existing tenant hybrid =
     rbind (case existing of None \<Rightarrow> Inr [] | Some lines \<Rightarrow> load_existing_taints H lines) (\<lambda>tbl.
     Inr \<lparr>lg_agent = A, lg_tenant = tenant, lg_hybrid = hybrid, lg_taint = tbl\<rparr>)"

definition inherit_taint :: "ProvenanceLogger \<Rightarrow> ustr list \<Rightarrow> ustr list \<Rightarrow> pyval list res" where
  "inherit_taint L parents extra =
     py_set [] (map PStr extra @ concat (map (\<lambda>p. dict_get (lg_taint L) p []) parents))"

definition build_receipt ::
  "ProvenanceLogger \<Rightarrow> int \<Rightarrow> Operation \<Rightarrow> ustr list \<Rightarrow> pyval list \<Rightarrow> ProvenanceReceipt res" where
  "build_receipt L now oper parents taint = rbind (py_sort taint) (\<lambda>ts.
     Inr \<lparr>r_agent_id = PStr (ai_agent_id (lg_agent L)), r_agent_key_id = PStr (ai_key_id (lg_agent L)), r_operation = oper,
      r_parents = map PStr parents, r_input_hash = PStr [], r_output_hash = PStr [], r_model = PStr [], r_tool = PStr [],
      r_corpus = PStr [], r_ruleset_hash = PStr [], r_guardrail_verdict = PStr [], r_taint = ts,
      r_tenant = lg_tenant L, r_issued_at = PInt now, r_x_bilateral = PNone, r_jws = [], r_receipt_hash = []\<rparr>)"

definition envelope :: "ProvenanceReceipt \<Rightarrow> pyval" where
  "envelope r = PDict [(lit ''receipt_hash'', PStr (r_receipt_hash r)), (lit ''jws'', PStr (r_jws r))]"

text \<open>
  \<open>json.dumps\<close> with its default separators, a comma and a colon each followed by a space, on an envelope.
\<close>

definition envelope_line :: "ProvenanceReceipt \<Rightarrow> ustr" where
  "envelope_line r = lit ''{'' @ json_str (lit ''receipt_hash'') @ lit '': '' @ json_str (r_receipt_hash r) @ lit '', ''
     @ json_str (lit ''jws'') @ lit '': '' @ json_str (r_jws r) @ lit ''}''"

definition emit_receipt ::
  "host \<Rightarrow> ProvenanceReceipt \<Rightarrow> ProvenanceLogger \<Rightarrow> ustr list \<Rightarrow> (ustr \<times> ProvenanceLogger \<times> ustr list) res" where
  "emit_receipt H r L lines =
     rbind (sign_receipt H (lg_agent L) (lg_hybrid L) r) (\<lambda>r.
     rbind (py_set [] (r_taint r)) (\<lambda>ts.
     Inr (r_receipt_hash r, L\<lparr>lg_taint := dict_set (r_receipt_hash r) ts (lg_taint L)\<rparr>, lines @ [envelope_line r])))"

type_synonym logger_op = "ProvenanceLogger \<Rightarrow> ustr list \<Rightarrow> (ustr \<times> ProvenanceLogger \<times> ustr list) res"

definition record_user_input :: "host \<Rightarrow> int \<Rightarrow> ustr \<Rightarrow> ustr list \<Rightarrow> logger_op" where
  "record_user_input H now text taint L lines =
     rbind (hash_text H text) (\<lambda>h.
     rbind (py_set [] (map PStr (if taint = [] then [lit ''external_user''] else taint))) (\<lambda>ts.
     rbind (build_receipt L now USER_INPUT [] ts) (\<lambda>r.
     emit_receipt H (r\<lparr>r_input_hash := PStr h\<rparr>) L lines)))"

definition check_model_permission :: "ProvenanceLogger \<Rightarrow> ustr \<Rightarrow> unit res" where
  "check_model_permission L m = rcheck (permits_model (ai_statement (lg_agent L)) (PStr m)) (PermissionError ''model'')"

definition check_tool_permission :: "ProvenanceLogger \<Rightarrow> ustr \<Rightarrow> unit res" where
  "check_tool_permission L t = rcheck (permits_tool (ai_statement (lg_agent L)) (PStr t)) (PermissionError ''tool'')"

definition record_model_call :: "host \<Rightarrow> int \<Rightarrow> ustr list \<Rightarrow> ustr \<Rightarrow> ustr \<Rightarrow> ustr \<Rightarrow> ustr list \<Rightarrow> logger_op" where
  "record_model_call H now parents model input_text output_text extra L lines =
     rbind (check_model_permission L model) (\<lambda>_.
     rbind (hash_text H input_text) (\<lambda>hi.
     rbind (hash_text H output_text) (\<lambda>ho.
     rbind (inherit_taint L parents extra) (\<lambda>ts.
     rbind (build_receipt L now MODEL_CALL parents ts) (\<lambda>r.
     emit_receipt H (r\<lparr>r_model := PStr model, r_input_hash := PStr hi, r_output_hash := PStr ho\<rparr>) L lines)))))"

definition record_tool_call :: "host \<Rightarrow> int \<Rightarrow> ustr list \<Rightarrow> ustr \<Rightarrow> pyval \<Rightarrow> pyval \<Rightarrow> ustr list \<Rightarrow> logger_op" where
  "record_tool_call H now parents tl_name input_args outp extra L lines =
     rbind (check_tool_permission L tl_name) (\<lambda>_.
     rbind (hash_obj H input_args) (\<lambda>hi.
     rbind (hash_obj H outp) (\<lambda>ho.
     rbind (inherit_taint L parents extra) (\<lambda>ts.
     rbind (build_receipt L now TOOL_CALL parents ts) (\<lambda>r.
     emit_receipt H (r\<lparr>r_tool := PStr tl_name, r_input_hash := PStr hi, r_output_hash := PStr ho\<rparr>) L lines)))))"

definition record_retrieval :: "host \<Rightarrow> int \<Rightarrow> ustr list \<Rightarrow> ustr \<Rightarrow> ustr \<Rightarrow> pyval \<Rightarrow> bool \<Rightarrow> logger_op" where
  "record_retrieval H now parents corpus query chunks corpus_trusted L lines =
     rbind (hash_text H query) (\<lambda>hi.
     rbind (hash_obj H chunks) (\<lambda>ho.
     rbind (inherit_taint L parents (if corpus_trusted then [] else [lit ''rag:'' @ corpus])) (\<lambda>ts.
     rbind (build_receipt L now RETRIEVAL parents ts) (\<lambda>r.
     emit_receipt H (r\<lparr>r_corpus := PStr corpus, r_input_hash := PStr hi, r_output_hash := PStr ho\<rparr>) L lines))))"

definition record_guardrail_scan :: "host \<Rightarrow> int \<Rightarrow> ustr list \<Rightarrow> ustr \<Rightarrow> ustr \<Rightarrow> ustr \<Rightarrow> ustr \<Rightarrow> logger_op" where
  "record_guardrail_scan H now parents scanned verdict ruleset target L lines =
     rbind (hash_text H scanned) (\<lambda>hi.
     rbind (inherit_taint L parents [lit ''guardrail-scan:'' @ target]) (\<lambda>ts.
     rbind (build_receipt L now GUARDRAIL_SCAN parents ts) (\<lambda>r.
     emit_receipt H (r\<lparr>r_input_hash := PStr hi, r_ruleset_hash := PStr ruleset, r_guardrail_verdict := PStr verdict\<rparr>) L lines)))"

definition record_agent_handoff :: "host \<Rightarrow> int \<Rightarrow> ustr list \<Rightarrow> ustr \<Rightarrow> pyval \<Rightarrow> logger_op" where
  "record_agent_handoff H now parents target handoff L lines =
     rbind (validate_agent_id target) (\<lambda>_.
     rbind (hash_obj H (PDict [(lit ''target'', PStr target)])) (\<lambda>hi.
     rbind (hash_obj H handoff) (\<lambda>ho.
     rbind (inherit_taint L parents []) (\<lambda>ts.
     rbind (build_receipt L now AGENT_HANDOFF parents ts) (\<lambda>r.
     emit_receipt H (r\<lparr>r_input_hash := PStr hi, r_output_hash := PStr ho\<rparr>) L lines)))))"

abbreviation REMOVED_PREFIX :: ustr where "REMOVED_PREFIX \<equiv> lit ''removed:''"

definition record_sanitisation :: "host \<Rightarrow> int \<Rightarrow> ustr list \<Rightarrow> ustr list \<Rightarrow> ustr \<Rightarrow> ustr \<Rightarrow> ustr \<Rightarrow> logger_op" where
  "record_sanitisation H now parents removed sanitiser input_text output_text L lines =
     rbind (inherit_taint L parents []) (\<lambda>inherited.
     rbind (hash_text H input_text) (\<lambda>hi.
     rbind (hash_text H output_text) (\<lambda>ho.
     rbind (build_receipt L now SANITISATION parents (filter (\<lambda>t. \<not> py_mem t (map PStr removed)) inherited)) (\<lambda>r.
     rbind (py_sorted utf16_key (remdups removed)) (\<lambda>rs.
     emit_receipt H (r\<lparr>r_tool := PStr sanitiser, r_input_hash := PStr hi, r_output_hash := PStr ho,
        r_corpus := PStr (REMOVED_PREFIX @ join_with 44 rs)\<rparr>) L lines)))))"

definition record_merge :: "host \<Rightarrow> int \<Rightarrow> ustr list \<Rightarrow> pyval \<Rightarrow> ustr list \<Rightarrow> logger_op" where
  "record_merge H now parents outp extra L lines =
     rbind (rcheck (length parents \<ge> 2) (ValueError ''merge requires at least 2 parents'')) (\<lambda>_.
     rbind (hash_obj H outp) (\<lambda>ho.
     rbind (inherit_taint L parents extra) (\<lambda>ts.
     rbind (build_receipt L now MERGE parents ts) (\<lambda>r.
     emit_receipt H (r\<lparr>r_output_hash := PStr ho\<rparr>) L lines))))"

section \<open>The verifier\<close>

record ProvReport =
  pr_valid :: bool
  pr_receipt_count :: nat
  pr_signature_failures :: nat
  pr_parent_link_failures :: nat
  pr_taint_failures :: nat
  pr_capability_violations :: nat
  pr_unauthorised :: nat
  pr_tampered :: "ustr list"
  pr_errors :: "string list"

definition prov_report0 :: ProvReport where
  "prov_report0 = \<lparr>pr_valid = True, pr_receipt_count = 0, pr_signature_failures = 0, pr_parent_link_failures = 0,
     pr_taint_failures = 0, pr_capability_violations = 0, pr_unauthorised = 0, pr_tampered = [], pr_errors = []\<rparr>"

definition complain :: "string \<Rightarrow> ProvReport \<Rightarrow> ProvReport" where
  "complain msg R = R\<lparr>pr_errors := pr_errors R @ [msg], pr_valid := False\<rparr>"

text \<open>The keys are those that load; an ML-DSA key that does not load is recorded as \<open>None\<close>.\<close>

record ProvenanceVerifier =
  pv_keys :: "(ustr \<times> ustr) list"
  pv_exec_keys :: "(ustr \<times> ustr) list"
  pv_caps :: "(ustr \<times> CapabilityStatement) list"
  pv_pq_keys :: "(ustr \<times> ustr option) list"
  pv_require_pq :: bool

definition new_prov_verifier ::
  "host \<Rightarrow> (ustr \<times> ustr) list \<Rightarrow> (ustr \<times> CapabilityStatement) list \<Rightarrow> (ustr \<times> ustr) list \<Rightarrow> bool \<Rightarrow> (ustr \<times> ustr) list \<Rightarrow> ProvenanceVerifier" where
  "new_prov_verifier H public_keys caps pq_keys require_pq exec_keys =
     \<lparr>pv_keys = public_keys, pv_exec_keys = exec_keys, pv_caps = caps,
      pv_pq_keys = map (\<lambda>(kid, pem). (kid, pq_load (h_env H) pem)) pq_keys, pv_require_pq = require_pq\<rparr>"

definition parse_chain_line :: "host \<Rightarrow> ustr \<Rightarrow> ProvReport \<Rightarrow> (pyval option \<times> ProvReport) res" where
  "parse_chain_line H line R = (case json_loads (float_parse H) True line of
       Inl e \<Rightarrow> Inr (None, complain ''malformed record'' R)
     | Inr raw \<Rightarrow>
         rbind (py_iter raw) (\<lambda>ks.
         rbind (py_set [] ks) (\<lambda>fs.
         let extra = filter (\<lambda>k. \<not> (is_str k \<and> unknown_envelope_fields {str_of k} = {})) fs in
         if extra = [] then Inr (Some raw, R)
         else rbind (py_sort extra) (\<lambda>_. Inr (None, complain ''malformed record'' R)))))"

section \<open>Signatures\<close>

definition signing_input :: "ustr list \<Rightarrow> ustr" where
  "signing_input parts = parts ! 0 @ lit ''.'' @ parts ! 1"

definition jose_header :: "host \<Rightarrow> ustr \<Rightarrow> pydict res" where
  "jose_header H header_b64 =
     rbind (rbind (b64d header_b64) (json_loads_bytes (float_parse H) True)) (\<lambda>hv. case hv of
       PDict header \<Rightarrow> Inr header
     | _ \<Rightarrow> Inl (AttributeError ''get''))"

definition verify_signature_hybrid :: "host \<Rightarrow> ProvenanceVerifier \<Rightarrow> ustr list \<Rightarrow> ustr \<Rightarrow> bool res" where
  "verify_signature_hybrid H V parts key =
     rbind (jose_header H (parts ! 0)) (\<lambda>header.
     if \<not> declares_pq1 header then Inr False
     else rbind (lookup_raw (pv_pq_keys V) (get_or_none header ''pqk'')) (\<lambda>k. case k of
         Some (Some pq_key) \<Rightarrow>
           rbind (ascii_encode (signing_input parts)) (\<lambda>m.
           Inr (verify_hybrid H m (parts ! 2 @ lit ''.'' @ parts ! 3) key pq_key))
       | _ \<Rightarrow> if \<not> mldsa H then Inl (PQUnavailable ''no ML-DSA support'') else Inr False))"

definition verify_signature_v1 :: "host \<Rightarrow> ustr list \<Rightarrow> ustr \<Rightarrow> bool res" where
  "verify_signature_v1 H parts key =
     rbind (jose_header H (parts ! 0)) (\<lambda>header.
     if declares_pq1 header then Inr False
     else rbind (ascii_encode (signing_input parts)) (\<lambda>m.
          rbind (b64d (parts ! 2)) (\<lambda>sig.
          Inr (ed_verify (h_env H) key sig m))))"

definition verify_receipt_signature :: "host \<Rightarrow> ProvenanceVerifier \<Rightarrow> ProvenanceReceipt \<Rightarrow> bool res" where
  "verify_receipt_signature H V r =
     rbind (lookup_raw (pv_keys V) (r_agent_key_id r)) (\<lambda>k. case k of
       None \<Rightarrow> Inr False
     | Some key \<Rightarrow>
         let parts = split_on 46 (r_jws r) in
         (case (if length parts = 4 then verify_signature_hybrid H V parts key
                else if length parts = 3 then verify_signature_v1 H parts key else Inr False) of
            Inl (ValueError _) \<Rightarrow> Inr False
          | Inl (TypeError _) \<Rightarrow> Inr False
          | Inl (KeyError _) \<Rightarrow> Inr False
          | res \<Rightarrow> res))"

definition verify_statement :: "host \<Rightarrow> ProvenanceVerifier \<Rightarrow> CapabilityStatement \<Rightarrow> ustr \<Rightarrow> bool" where
  "verify_statement H V s agent_key_id =
     (st_key_id s = agent_key_id \<and>
      (case ascii_encode (st_public_key_pem s) of
         Inl _ \<Rightarrow> False
       | Inr pem \<Rightarrow> take 16 (sha256_hex (h_env H) pem) = st_key_id s) \<and>
      (case map_of (pv_keys V) agent_key_id of
         None \<Rightarrow> False
       | Some key \<Rightarrow>
           (case rbind (std_b64decode (st_signature s)) (\<lambda>sig.
                 rbind (statement_body s) (\<lambda>b.
                 rbind (canonical_json (h_env H) (PDict b)) (\<lambda>m. Inr (ed_verify (h_env H) key sig m)))) of
              Inr ok \<Rightarrow> ok
            | Inl _ \<Rightarrow> False)))"

section \<open>One record\<close>

definition validate_chain_record ::
  "host \<Rightarrow> ProvenanceVerifier \<Rightarrow> pyval \<Rightarrow> ProvReport \<Rightarrow> (ProvenanceReceipt option \<times> ProvReport) res" where
  "validate_chain_record H V raw R = (case raw of
       PDict d \<Rightarrow>
         (case rbind (require_key d ''jws'') (\<lambda>j. case j of
                 PStr jws \<Rightarrow> from_jws H True False jws
               | PList _ \<Rightarrow> Inl (AttributeError ''split'')
               | PDict _ \<Rightarrow> Inl (AttributeError ''split'')
               | _ \<Rightarrow> Inl (TypeError ''len'')) of
            Inl (ValueError _) \<Rightarrow> Inr (None, complain ''malformed record'' R)
          | Inl (KeyError _) \<Rightarrow> Inr (None, complain ''malformed record'' R)
          | Inl e \<Rightarrow> Inl e
          | Inr r \<Rightarrow>
              let R1 = (if py_eq (get_or_none d ''receipt_hash'') (PStr (r_receipt_hash r)) then R
                        else (complain ''receipt_hash mismatch'' R)\<lparr>pr_tampered := pr_tampered R @ [r_receipt_hash r]\<rparr>) in
              rbind (verify_receipt_signature H V r) (\<lambda>ok.
              let R2 = (if ok then R1
                        else (complain ''signature verification failed'' R1)\<lparr>pr_signature_failures := pr_signature_failures R1 + 1\<rparr>);
                  R3 = (if pv_require_pq V \<and> length (filter (\<lambda>c. c = 46) (r_jws r)) \<noteq> 3 then complain ''require_pq'' R2 else R2) in
              rbind (structural_errors r) (\<lambda>errs.
              Inr (Some r, fold complain errs R3))))
     | _ \<Rightarrow> Inl (TypeError ''indices''))"

definition capability_violation :: "string \<Rightarrow> ProvReport \<Rightarrow> ProvReport" where
  "capability_violation msg R = (complain msg R)\<lparr>pr_capability_violations := pr_capability_violations R + 1\<rparr>"

definition verify_capability_conformance ::
  "host \<Rightarrow> ProvenanceVerifier \<Rightarrow> ProvenanceReceipt \<Rightarrow> ProvReport \<Rightarrow> ProvReport res" where
  "verify_capability_conformance H V r R =
     (if pv_caps V = [] then Inr R
      else rbind (lookup_raw (pv_caps V) (r_agent_key_id r)) (\<lambda>s. case s of
          None \<Rightarrow> Inr (capability_violation ''no capability statement'' R)
        | Some stmt \<Rightarrow>
            if \<not> verify_statement H V stmt (str_of (r_agent_key_id r)) then Inr (capability_violation ''statement verification'' R)
            else
              let R1 = (if py_eq (r_agent_id r) (PStr (st_agent_id stmt)) then R else capability_violation ''agent_id'' R) in
              rbind (case st_expires_at stmt of
                  None \<Rightarrow> Inr False
                | Some e \<Rightarrow> if truthy (r_issued_at r) then py_le (PInt e) (r_issued_at r) else Inr False) (\<lambda>expired.
              let R2 = (if expired then capability_violation ''expired'' R1 else R1);
                  R3 = (if truthy (r_model r) \<and> \<not> permits_model stmt (r_model r) then capability_violation ''model'' R2 else R2);
                  R4 = (if truthy (r_tool r) \<and> \<not> permits_tool stmt (r_tool r) then capability_violation ''tool'' R3 else R3)
              in Inr R4)))"

end
