(* ===== verification/ReceiptVerify.thy ===== *)
theory ReceiptVerify
  imports ReceiptChain AuditChain
begin

text \<open>
  The rest of the chain verifier of \<open>raucle/provenance.py\<close>: the extension checks of one receipt (delegated
  authority, leases, revocations, task intents, harness findings, time anchors, bilateral outcomes), the
  pass over the parent links and the taint, \<open>verify_chain\<close>, the walk to the roots and the migration of old
  files.

  The verifier's dictionaries are association lists.  \<open>revocation_lines\<close> only feeds the text of an error
  and is left out, as are the line numbers.
\<close>

section \<open>Reading the payload\<close>

text \<open>\<open>v.get(...)\<close> on a value that should be a dictionary, and \<open>min\<close> of a set.\<close>

definition attr_dict :: "pyval \<Rightarrow> pydict res" where
  "attr_dict v = (case v of PDict d \<Rightarrow> Inr d | _ \<Rightarrow> Inl (AttributeError ''get''))"

definition min_of :: "pyval list \<Rightarrow> pyval res" where
  "min_of xs = (case xs of
       [] \<Rightarrow> Inl (ValueError ''min of an empty set'')
     | y # ys \<Rightarrow> rfold (\<lambda>z m. py_min m z) ys y)"

definition complain_if :: "bool \<Rightarrow> string \<Rightarrow> ProvReport \<Rightarrow> ProvReport" where
  "complain_if b msg R = (if b then complain msg R else R)"

text \<open>A \<open>try\<close> that catches \<open>ValueError\<close> and \<open>TypeError\<close>.\<close>

definition value_or_type :: "'a \<Rightarrow> 'a res \<Rightarrow> 'a res" where
  "value_or_type dflt m = (case m of
       Inl (ValueError _) \<Rightarrow> Inr dflt
     | Inl (TypeError _) \<Rightarrow> Inr dflt
     | _ \<Rightarrow> m)"

definition decode_gate_payload :: "host \<Rightarrow> pyval \<Rightarrow> (pyval \<times> pyval) res" where
  "decode_gate_payload H raw =
     (case (case raw of PDict d \<Rightarrow> get_or_none d ''jws'' | _ \<Rightarrow> PNone) of
        PStr jws \<Rightarrow>
          if length (filter (\<lambda>c. c = 46) jws) \<ge> 2
          then rbind (value_or_type PNone (rbind (b64d (split_on 46 jws ! 1)) (json_loads_bytes (float_parse H) False))) (\<lambda>decoded.
               Inr (decoded, case decoded of PDict d \<Rightarrow> or_else (get_or_none d ''x_gate'') (PDict []) | _ \<Rightarrow> PDict []))
          else Inr (PNone, PDict [])
      | _ \<Rightarrow> Inr (PNone, PDict []))"

text \<open>\<open>decoded.get(k) if isinstance(decoded, dict) else None\<close>.\<close>

definition payload_get :: "pyval \<Rightarrow> string \<Rightarrow> pyval" where
  "payload_get decoded k = (case decoded of PDict d \<Rightarrow> get_or_none d k | _ \<Rightarrow> PNone)"

section \<open>Extension checks\<close>

definition block_material :: "pydict \<Rightarrow> pydict" where
  "block_material auth =
     [(lit ''capability_id'', dict_get auth (lit ''capability_id'') (PStr [])),
      (lit ''issuer'', dict_get auth (lit ''issuer'') (PStr [])),
      (lit ''key_id'', dict_get auth (lit ''key_id'') (PStr [])),
      (lit ''parent_id'', get_or_none auth ''parent_id'')]"

definition verify_delegated_authority_digest :: "host \<Rightarrow> pyval \<Rightarrow> ProvReport \<Rightarrow> ProvReport res" where
  "verify_delegated_authority_digest H x R =
     rbind (get_attr x ''authorization'') (\<lambda>a.
     if \<not> truthy a then Inr R
     else rbind (attr_dict a) (\<lambda>auth.
          rbind (canonical_json (h_env H) (PDict (block_material auth))) (\<lambda>m.
          Inr (complain_if (\<not> py_eq (get_or_none auth ''chain_digest'') (PStr (sha256_hex (h_env H) m)))
                 ''authorization chain_digest mismatch'' R))))"

definition verify_lease_redemption ::
  "host \<Rightarrow> pydict \<Rightarrow> pydict \<Rightarrow> pydict option \<Rightarrow> ProvReport \<Rightarrow> ProvReport res" where
  "verify_lease_redemption H decoded lease grant R = (case grant of
       None \<Rightarrow> Inr (complain ''lease redeemed with no lease grant'' R)
     | Some g \<Rightarrow>
         rbind (py_int H (dict_get decoded (lit ''iat'') (PInt 0))) (\<lambda>redeemed_at.
         rbind (py_int H (dict_get g (lit ''granted_at'') (PInt 0))) (\<lambda>granted_at.
         rbind (py_int H (dict_get g (lit ''ttl_seconds'') (PInt 0))) (\<lambda>ttl.
         let R1 = complain_if (redeemed_at > granted_at + ttl) ''lease redeemed after lease expired'' R;
             grant_scopes = or_else (get_or_none g ''scopes'') (PDict []);
             redeem_scopes = or_else (get_or_none lease ''scopes'') (PDict []) in
         if truthy redeem_scopes \<and> truthy grant_scopes
         then (case rbind (attr_dict grant_scopes) (\<lambda>p. rbind (attr_dict redeem_scopes) (assert_narrowing p)) of
                 Inr _ \<Rightarrow> Inr R1
               | Inl (ValueError _) \<Rightarrow> Inr (complain ''lease redeemed beyond its granted scope'' R1)
               | Inl e \<Rightarrow> Inl e)
         else Inr R1))))"

type_synonym lease_table = "(ustr \<times> pydict) list"

definition verify_lease_extension ::
  "host \<Rightarrow> pyval \<Rightarrow> lease_table \<Rightarrow> ProvReport \<Rightarrow> (lease_table \<times> ProvReport) res" where
  "verify_lease_extension H decoded grants R = (case (decoded, payload_get decoded ''x_lease'') of
       (PDict d, PDict lease) \<Rightarrow>
         (let action = get_or_none lease ''action'';
              lid = py_str H (dict_get lease (lit ''lease_id'') (PStr [])) in
          if py_eq action (PStr (lit ''granted'')) then Inr (dict_set lid lease grants, R)
          else if py_eq action (PStr (lit ''redeemed''))
          then rbind (verify_lease_redemption H d lease (map_of grants lid) R) (\<lambda>R'. Inr (grants, R'))
          else Inr (grants, R))
     | _ \<Rightarrow> Inr (grants, R))"

definition verify_cascade_revocation ::
  "pyval \<Rightarrow> pyval \<Rightarrow> pyval list \<Rightarrow> ProvReport \<Rightarrow> (pyval list \<times> ProvReport) res" where
  "verify_cascade_revocation x decoded revoked R =
     rbind (get_attr x ''authorization'') (\<lambda>a.
     rbind (attr_dict (or_else a (PDict []))) (\<lambda>auth.
     rbind (py_set [] [get_or_none auth ''capability_id'', get_or_none auth ''parent_id'']) (\<lambda>cited.
     let hit = filter (\<lambda>v. py_mem v (filter (\<lambda>c. c \<noteq> PNone) cited)) revoked in
     rbind (if hit = [] then Inr R else rbind (min_of hit) (\<lambda>_. Inr (complain ''cited authority was revoked'' R))) (\<lambda>R1.
     case payload_get decoded ''x_revocation'' of
       PDict rv \<Rightarrow>
         if rv = [] then Inr (revoked, R1)
         else rbind (py_iter (or_else (get_or_none rv ''revoked_ids'') (PList []))) (\<lambda>ids.
              rbind (py_set revoked ids) (\<lambda>revoked'. Inr (revoked', R1)))
     | _ \<Rightarrow> Inr (revoked, R1)))))"

text \<open>
  \<open>_check_constraints\<close> on raw values.  A disclosure that is not an object answers \<open>in\<close> and raises when it is
  indexed by a field name; constraints that are not an object are iterated and then asked for \<open>get\<close>.
\<close>

definition check_opaque_fields :: "pydict \<Rightarrow> pyval \<Rightarrow> string option res" where
  "check_opaque_fields c args =
     (let on_field = (\<lambda>absent kind. rbind (py_items (dict_get c kind (PDict []))) (rfirst (\<lambda>kv.
            rbind (py_in (PStr (fst kv)) args) (\<lambda>b. if b then Inl (TypeError ''indices'') else Inr absent))));
          present = rbind (py_iter (dict_get c RP (PList []))) (rfirst (\<lambda>fld.
            rbind (py_in fld args) (\<lambda>b. Inr (if b then None else Some ''required field missing''))));
          combos = rbind (py_iter (dict_get c FC (PList []))) (rfirst (\<lambda>combo.
            rbind (py_iter combo) (\<lambda>flds. rbind (rall (\<lambda>f. py_in f args) flds) (\<lambda>b.
            Inr (if b then Some ''forbidden field combination all present'' else None))))) in
      rfirst (\<lambda>check. check ()) [\<lambda>_. on_field None FV, \<lambda>_. on_field (Some ''field is absent'') AV,
        \<lambda>_. on_field (Some ''field is absent'') SW, \<lambda>_. on_field (Some ''field is absent'') MX,
        \<lambda>_. on_field (Some ''field is absent'') MN, \<lambda>_. present, \<lambda>_. combos])"

definition registered_kind :: "pyval \<Rightarrow> string option res" where
  "registered_kind k = rbind (in_dict k CONSTRAINT_REGISTRY) (\<lambda>b.
     Inr (if b then None else Some ''unmodelled constraint kind reached the gate''))"

definition check_raw_constraints :: "env \<Rightarrow> pyval \<Rightarrow> pyval \<Rightarrow> string option res" where
  "check_raw_constraints E c args = (case (c, args) of
       (PDict d, PDict a) \<Rightarrow> check_constraints E d a
     | _ \<Rightarrow>
         rbind (py_iter c) (\<lambda>kinds.
         rbind (rfirst registered_kind kinds) (\<lambda>r.
         if r \<noteq> None then Inr r
         else rbind (attr_dict c) (\<lambda>d. check_opaque_fields d args))))"

definition verify_task_intent :: "host \<Rightarrow> pyval \<Rightarrow> ProvenanceReceipt \<Rightarrow> ProvReport \<Rightarrow> ProvReport res" where
  "verify_task_intent H x r R =
     rbind (attr_dict x) (\<lambda>xd.
     let i = get_or_none xd ''intent'' in
     if i = PNone \<or> \<not> py_eq (get_or_none xd ''decision'') (PStr (lit ''allow'')) then Inr R
     else
       let gate_tool = or_else (get_or_none xd ''tool'') (r_tool r) in
       rbind (attr_dict i) (\<lambda>it.
       rbind (if get_or_none it ''tools'' = PNone then Inr True else py_in gate_tool (get_or_none it ''tools'')) (\<lambda>inside.
       let R1 = complain_if (\<not> inside) ''ALLOW receipt tool outside intent scope'' R;
           cs = get_or_none it ''constraints'' in
       rbind (attr_dict (or_else (get_or_none xd ''intent_check'') (PDict []))) (\<lambda>chk.
       let satisfied = or_else (get_or_none chk ''satisfied_fields'') (PDict []) in
       if truthy cs \<and> truthy satisfied
       then rbind (check_raw_constraints (h_env H) cs satisfied) (\<lambda>why.
            Inr (complain_if (why \<noteq> None) ''ALLOW receipt violates intent constraint'' R1))
       else Inr R1))))"

type_synonym receipt_table = "(ustr \<times> ProvenanceReceipt) list"

definition verify_harness_finding :: "host \<Rightarrow> pyval \<Rightarrow> receipt_table \<Rightarrow> ProvReport \<Rightarrow> ProvReport res" where
  "verify_harness_finding H decoded receipts R = (case payload_get decoded ''x_finding'' of
       PDict finding \<Rightarrow>
         (case map_of receipts (py_str H (dict_get finding (lit ''cited_receipt'') (PStr []))) of
            None \<Rightarrow> Inr (complain ''finding cites receipt not in the chain'' R)
          | Some cited \<Rightarrow>
              rbind (attr_dict (or_else (get_or_none finding ''repro'') (PDict []))) (\<lambda>repro.
              let claimed = py_str H (dict_get repro (lit ''actual_decision'') (PStr []));
                  recorded = r_guardrail_verdict cited in
              Inr (complain_if (claimed \<noteq> [] \<and> truthy recorded \<and> \<not> py_eq (PStr claimed) recorded)
                ''finding misreports the cited receipt'' R)))
     | _ \<Rightarrow> Inr R)"

definition verify_time_digest_binding ::
  "host \<Rightarrow> pydict \<Rightarrow> pydict \<Rightarrow> ustr \<Rightarrow> receipt_table \<Rightarrow> (ustr \<times> ustr) list \<Rightarrow> ProvReport \<Rightarrow> ProvReport res" where
  "verify_time_digest_binding H decoded x_ts digest receipts raw_lines R =
     (let R1 = complain_if (digest \<noteq> SHA256_PREFIX @ py_str H (dict_get decoded (lit ''input_hash'') (PStr [])))
            ''x_timestamp digest does not bind the receipt input_hash'' R;
          cited = py_str H (dict_get x_ts (lit ''parent_receipt'') (PStr [])) in
      if \<not> has_key receipts cited then Inr (complain ''x_timestamp cites receipt not in the chain'' R1)
      else rbind (case map_of raw_lines cited of
               None \<Rightarrow> Inr []
             | Some l \<Rightarrow> rbind (utf8_encode_strict l) (\<lambda>b. Inr (SHA256_PREFIX @ sha256_hex (h_env H) b))) (\<lambda>rederived.
           Inr (complain_if (rederived \<noteq> digest) ''x_timestamp digest does not re-derive'' R1)))"

definition removeprefix :: "ustr \<Rightarrow> ustr \<Rightarrow> ustr" where
  "removeprefix p s = (if startswith s p then drop (length p) s else s)"

definition verify_time_source_mode :: "host \<Rightarrow> pydict \<Rightarrow> ustr \<Rightarrow> ProvReport \<Rightarrow> ProvReport res" where
  "verify_time_source_mode H x_ts digest R =
     (let mode = get_or_none x_ts ''mode'' in
      if py_eq mode (PStr (lit ''tsa''))
      then rbind (case dict_get x_ts (lit ''token'') (PStr []) of
               PStr s \<Rightarrow> std_b64decode s
             | _ \<Rightarrow> Inl (TypeError ''b64decode'')) (\<lambda>token.
           rbind (fromhex (removeprefix SHA256_PREFIX digest)) (\<lambda>imprint.
           rbind (py_int H (dict_get x_ts (lit ''nonce'') (PInt 0))) (\<lambda>nonce.
           let (ok, gen_time) = tsa_verify H token imprint nonce in
           Inr (if \<not> ok then complain ''Time Stamp Token'' R
                else complain_if (py_str H (get_or_none x_ts ''gen_time'') \<noteq> gen_time)
                       ''recorded gen_time disagrees with the token'' R))))
      else if py_eq mode (PStr (lit ''opentimestamps'')) then Inr R
      else if py_eq mode (PStr (lit ''internal'')) then Inr (complain ''internal time-source mode'' R)
      else Inr (complain ''unsupported x_timestamp mode'' R))"

definition verify_time_anchor ::
  "host \<Rightarrow> pyval \<Rightarrow> receipt_table \<Rightarrow> (ustr \<times> ustr) list \<Rightarrow> ProvReport \<Rightarrow> ProvReport res" where
  "verify_time_anchor H decoded receipts raw_lines R = (case (decoded, payload_get decoded ''x_timestamp'') of
       (PDict d, PDict x_ts) \<Rightarrow>
         (let digest = py_str H (dict_get x_ts (lit ''digest'') (PStr [])) in
          rbind (verify_time_digest_binding H d x_ts digest receipts raw_lines R) (verify_time_source_mode H x_ts digest))
     | _ \<Rightarrow> Inr R)"

definition executor_signature_ok :: "host \<Rightarrow> ustr \<Rightarrow> ustr \<Rightarrow> ustr \<Rightarrow> ustr \<Rightarrow> ustr \<Rightarrow> bool res" where
  "executor_signature_ok H key sig_b64 kid outcome out_hash =
     value_or_type False
       (rbind (std_b64decode sig_b64) (\<lambda>sig.
        rbind (bilateral_signing_input H kid outcome out_hash) (\<lambda>m. Inr (ed_verify (h_env H) key sig m))))"

definition verify_bilateral :: "host \<Rightarrow> ProvenanceVerifier \<Rightarrow> pyval \<Rightarrow> ProvenanceReceipt \<Rightarrow> ProvReport \<Rightarrow> ProvReport res" where
  "verify_bilateral H V decoded r R = (case payload_get decoded ''x_bilateral'' of
       PNone \<Rightarrow> Inr R
     | PDict xb \<Rightarrow>
         (let outcome = get_or_none xb ''outcome'';
              known = py_mem outcome (map PStr BILATERAL_OUTCOMES);
              out_hash = get_or_none xb ''output_hash'';
              kid = get_or_none xb ''executor_key_id'';
              sig = get_or_none xb ''signature'';
              R1 = complain_if (\<not> known) ''x_bilateral outcome outside the closed vocabulary'' R;
              R2 = complain_if (\<not> truthy (r_output_hash r) \<or> \<not> py_eq out_hash (r_output_hash r))
                     ''x_bilateral output_hash does not bind'' R1;
              R3 = complain_if (\<not> truthy sig \<or> \<not> is_str sig) ''x_bilateral carries no executor signature'' R2;
              R4 = (if \<not> truthy kid \<or> \<not> is_str kid then complain ''x_bilateral names no executor key id'' R3
                    else complain_if (\<not> has_key (pv_exec_keys V) (str_of kid)) ''no executor key registered'' R3) in
          case (sig, kid) of
            (PStr s, PStr k) \<Rightarrow>
              (case map_of (pv_exec_keys V) k of
                 Some key \<Rightarrow>
                   if s \<noteq> [] \<and> k \<noteq> [] \<and> known
                   then rbind (executor_signature_ok H key s k (str_of outcome) (py_str H out_hash)) (\<lambda>ok.
                        Inr (complain_if (\<not> ok) ''x_bilateral executor signature does not verify'' R4))
                   else Inr R4
               | None \<Rightarrow> Inr R4)
          | _ \<Rightarrow> Inr R4)
     | _ \<Rightarrow> Inr (complain ''x_bilateral must be an object'' R))"

section \<open>The walk over the file\<close>

record walk_state =
  ws_receipts :: receipt_table
  ws_lines :: "(ustr \<times> ustr) list"
  ws_revoked :: "pyval list"
  ws_grants :: lease_table
  ws_report :: ProvReport

definition walk0 :: walk_state where
  "walk0 = \<lparr>ws_receipts = [], ws_lines = [], ws_revoked = [], ws_grants = [], ws_report = prov_report0\<rparr>"

definition verify_receipt_extensions ::
  "host \<Rightarrow> ProvenanceVerifier \<Rightarrow> pyval \<Rightarrow> ProvenanceReceipt \<Rightarrow> walk_state \<Rightarrow> walk_state res" where
  "verify_receipt_extensions H V raw r S =
     rbind (decode_gate_payload H raw) (\<lambda>(decoded, x_gate).
     rbind (verify_delegated_authority_digest H x_gate (ws_report S)) (\<lambda>R1.
     rbind (verify_lease_extension H decoded (ws_grants S) R1) (\<lambda>(grants, R2).
     rbind (verify_cascade_revocation x_gate decoded (ws_revoked S) R2) (\<lambda>(revoked, R3).
     rbind (verify_task_intent H x_gate r R3) (\<lambda>R4.
     rbind (verify_harness_finding H decoded (ws_receipts S) R4) (\<lambda>R5.
     rbind (verify_time_anchor H decoded (ws_receipts S) (ws_lines S) R5) (\<lambda>R6.
     rbind (verify_bilateral H V decoded r R6) (\<lambda>R7.
     Inr (S\<lparr>ws_grants := grants, ws_revoked := revoked, ws_report := R7\<rparr>)))))))))"

definition count_receipt :: "ProvenanceReceipt \<Rightarrow> walk_state \<Rightarrow> walk_state" where
  "count_receipt r S = S\<lparr>ws_receipts := dict_set (r_receipt_hash r) r (ws_receipts S),
     ws_report := (ws_report S)\<lparr>pr_receipt_count := pr_receipt_count (ws_report S) + 1\<rparr>\<rparr>"

definition prov_verify_line :: "host \<Rightarrow> ProvenanceVerifier \<Rightarrow> ustr \<Rightarrow> walk_state \<Rightarrow> walk_state res" where
  "prov_verify_line H V line S =
     rbind (parse_chain_line H line (ws_report S)) (\<lambda>(parsed, R). case parsed of
       None \<Rightarrow> Inr (S\<lparr>ws_report := R\<rparr>)
     | Some raw \<Rightarrow>
         rbind (validate_chain_record H V raw R) (\<lambda>(checked, R'). case checked of
           None \<Rightarrow> Inr (S\<lparr>ws_report := R'\<rparr>)
         | Some r \<Rightarrow>
             rbind (verify_capability_conformance H V r R') (\<lambda>R''.
             rbind (verify_receipt_extensions H V raw r
                (S\<lparr>ws_report := R'', ws_lines := dict_set (r_receipt_hash r) line (ws_lines S)\<rparr>)) (\<lambda>S'.
             Inr (count_receipt r S')))))"

section \<open>Parent links and taint\<close>

definition difference :: "pyval list \<Rightarrow> pyval list \<Rightarrow> pyval list" where
  "difference xs ys = filter (\<lambda>x. \<not> py_mem x ys) xs"

definition removed_tags :: "ustr \<Rightarrow> ustr list" where
  "removed_tags corpus =
     (if startswith corpus REMOVED_PREFIX
      then remdups (filter (\<lambda>t. t \<noteq> []) (split_on 44 (drop (length REMOVED_PREFIX) corpus))) else [])"

definition taint_failure :: "string \<Rightarrow> ProvReport \<Rightarrow> ProvReport" where
  "taint_failure msg R = (complain msg R)\<lparr>pr_taint_failures := pr_taint_failures R + 1\<rparr>"

definition check_sanitisation_taint ::
  "ProvenanceVerifier \<Rightarrow> ProvenanceReceipt \<Rightarrow> pyval list \<Rightarrow> pyval list \<Rightarrow> ProvReport \<Rightarrow> ProvReport res" where
  "check_sanitisation_taint V r inherited my_taint R =
     rbind (case r_corpus r of PStr c \<Rightarrow> Inr (removed_tags c) | _ \<Rightarrow> Inl (AttributeError ''startswith'')) (\<lambda>removed.
     rbind (if pv_caps V = [] then Inr R
            else rbind (lookup_raw (pv_caps V) (r_agent_key_id r)) (\<lambda>stmt.
              let unauthorised = filter (\<lambda>tag. case stmt of None \<Rightarrow> True | Some s \<Rightarrow> \<not> permits_sanitising s tag) removed in
              Inr (if unauthorised = [] then R
                   else (complain ''unauthorised taint laundering'' R)\<lparr>pr_unauthorised := pr_unauthorised R + 1\<rparr>))) (\<lambda>R1.
     let expected = difference inherited (map PStr removed) in
     if difference my_taint expected = [] \<and> difference expected my_taint = [] then Inr R1
     else rbind (py_sort expected) (\<lambda>_. rbind (py_sort my_taint) (\<lambda>_.
          Inr (taint_failure ''sanitisation taint mismatch'' R1)))))"

definition check_monotonic_taint :: "pyval list \<Rightarrow> pyval list \<Rightarrow> ProvReport \<Rightarrow> ProvReport res" where
  "check_monotonic_taint inherited my_taint R =
     (let missing = difference inherited my_taint in
      if missing = [] then Inr R
      else rbind (py_sort missing) (\<lambda>_. Inr (taint_failure ''taint not monotonic'' R)))"

definition add_parent_taint :: "receipt_table \<Rightarrow> pyval \<Rightarrow> pyval list \<Rightarrow> pyval list res" where
  "add_parent_taint receipts p inherited =
     rbind (lookup_raw receipts p) (\<lambda>pr. case pr of None \<Rightarrow> Inr inherited | Some parent \<Rightarrow> py_set inherited (r_taint parent))"

definition check_taint :: "ProvenanceVerifier \<Rightarrow> receipt_table \<Rightarrow> ProvenanceReceipt \<Rightarrow> ProvReport \<Rightarrow> ProvReport res" where
  "check_taint V receipts r R =
     (if r_parents r = [] then Inr R
      else rbind (rfold (add_parent_taint receipts) (r_parents r) []) (\<lambda>inherited.
           rbind (py_set [] (r_taint r)) (\<lambda>my_taint.
           if r_operation r = SANITISATION then check_sanitisation_taint V r inherited my_taint R
           else check_monotonic_taint inherited my_taint R)))"

definition check_parent_link :: "receipt_table \<Rightarrow> pyval \<Rightarrow> ProvReport \<Rightarrow> ProvReport res" where
  "check_parent_link receipts p R =
     rbind (in_dict p receipts) (\<lambda>b.
     Inr (if b then R else (complain ''parent not found in chain'' R)\<lparr>pr_parent_link_failures := pr_parent_link_failures R + 1\<rparr>))"

definition verify_dag_and_taint :: "ProvenanceVerifier \<Rightarrow> receipt_table \<Rightarrow> ProvReport \<Rightarrow> ProvReport res" where
  "verify_dag_and_taint V receipts R =
     rfold (\<lambda>(h, r) R. rbind (rfold (check_parent_link receipts) (r_parents r) R) (check_taint V receipts r)) receipts R"

definition prov_verify_chain :: "host \<Rightarrow> ProvenanceVerifier \<Rightarrow> ustr list \<Rightarrow> ProvReport res" where
  "prov_verify_chain H V lines =
     rbind (rfold (prov_verify_line H V) lines walk0) (\<lambda>S. verify_dag_and_taint V (ws_receipts S) (ws_report S))"

section \<open>The walk to the roots\<close>

definition load_line :: "host \<Rightarrow> ustr \<Rightarrow> receipt_table \<Rightarrow> receipt_table res" where
  "load_line H line tbl =
     (case rbind (json_loads (float_parse H) False line) (\<lambda>raw.
           rbind (case raw of PDict d \<Rightarrow> require_key d ''jws'' | _ \<Rightarrow> Inl (TypeError ''indices'')) (\<lambda>j. case j of
               PStr jws \<Rightarrow> from_jws H False True jws
             | PList _ \<Rightarrow> Inl (AttributeError ''split'')
             | PDict _ \<Rightarrow> Inl (AttributeError ''split'')
             | _ \<Rightarrow> Inl (TypeError ''len''))) of
        Inl (ValueError _) \<Rightarrow> Inr tbl
      | Inl (KeyError _) \<Rightarrow> Inr tbl
      | Inl e \<Rightarrow> Inl e
      | Inr r \<Rightarrow> Inr (dict_set (r_receipt_hash r) r tbl))"

definition load_all :: "host \<Rightarrow> ustr list \<Rightarrow> receipt_table res" where
  "load_all H lines = rfold (load_line H) lines []"

definition unvisited :: "receipt_table \<Rightarrow> pyval list \<Rightarrow> ustr list" where
  "unvisited receipts visited = filter (\<lambda>h. \<not> py_mem (PStr h) visited) (keys receipts)"

lemma unvisited_shrinks:
  assumes "map_of receipts h = Some r" and "\<not> py_mem (PStr h) visited"
  shows "length (unvisited receipts (visited @ [PStr h])) < length (unvisited receipts visited)"
proof -
  have h: "h \<in> set (unvisited receipts visited)"
    using assms map_of_SomeD[OF assms(1)] by (force simp: unvisited_def)
  have "unvisited receipts (visited @ [PStr h]) = filter (\<lambda>k. k \<noteq> h) (unvisited receipts visited)"
    by (auto simp: unvisited_def py_mem_def intro: filter_cong)
  then show ?thesis using h by (simp add: length_filter_less)
qed

lemma unvisited_le: "length (unvisited receipts (visited @ [v])) \<le> length (unvisited receipts visited)"
proof -
  have "unvisited receipts (visited @ [v]) = filter (\<lambda>h. \<not> py_eq (PStr h) v) (unvisited receipts visited)"
    by (auto simp: unvisited_def py_mem_def intro: filter_cong)
  then show ?thesis by simp
qed

text \<open>The loop of \<open>trace\<close>: the queue, the visited set, the receipts in the order they are reached.\<close>

function trace_loop ::
  "receipt_table \<Rightarrow> pyval list \<Rightarrow> pyval list \<Rightarrow> ProvenanceReceipt list \<Rightarrow> ProvenanceReceipt list res" where
  "trace_loop receipts [] visited order = Inr order"
| "trace_loop receipts (current # queue) visited order =
     (if \<not> py_hashable current then Inl (TypeError ''unhashable'')
      else if py_mem current visited then trace_loop receipts queue visited order
      else (case (if is_str current then map_of receipts (str_of current) else None) of
          None \<Rightarrow> trace_loop receipts queue (visited @ [current]) order
        | Some r \<Rightarrow> trace_loop receipts (queue @ r_parents r) (visited @ [current]) (order @ [r])))"
  by pat_completeness auto
termination
proof (relation "measures [\<lambda>(receipts, queue, visited, order). length (unvisited receipts visited), \<lambda>(receipts, queue, visited, order). length queue]", goal_cases)
  case (3 receipts current queue visited order)
  then show ?case using unvisited_le[of receipts visited current] by (auto simp: le_less)
next
  case (4 receipts current queue visited order r)
  then show ?case using unvisited_shrinks[of receipts "str_of current" r visited] by (auto simp: is_str_iff split: if_splits)
qed auto

definition trace :: "host \<Rightarrow> ustr \<Rightarrow> ustr list \<Rightarrow> ProvenanceReceipt list res" where
  "trace H h lines =
     rbind (load_all H lines) (\<lambda>receipts.
     if \<not> has_key receipts h then Inl (KeyError ''receipt not found in chain'')
     else trace_loop receipts [PStr h] [] [])"

section \<open>Migration\<close>

definition migrate_line :: "host \<Rightarrow> ProvenanceVerifier \<Rightarrow> ustr \<Rightarrow> ustr res" where
  "migrate_line H V line =
     rbind (json_loads (float_parse H) True line) (\<lambda>raw.
     let j = payload_get raw ''jws'' in
     rbind (rcheck (truthy j) (ValueError ''record has no jws field'')) (\<lambda>_.
     rbind (case j of
         PStr jws \<Rightarrow> from_jws H True True jws
       | PList _ \<Rightarrow> Inl (AttributeError ''split'')
       | PDict _ \<Rightarrow> Inl (AttributeError ''split'')
       | _ \<Rightarrow> Inl (TypeError ''len'')) (\<lambda>r.
     rbind (verify_receipt_signature H V r) (\<lambda>ok.
     rbind (rcheck ok (ValueError ''signature verification failed'')) (\<lambda>_.
     Inr (envelope_line r))))))"

definition migrate_chain_envelope :: "host \<Rightarrow> (ustr \<times> ustr) list \<Rightarrow> ustr list \<Rightarrow> ustr list res" where
  "migrate_chain_envelope H public_keys lines = rmap (migrate_line H (new_prov_verifier H public_keys [] [] False [])) lines"

end
