(* ===== verification/ReceiptLaws.thy ===== *)
theory ReceiptLaws
  imports ReceiptVerify GateLaws
begin

text \<open>
  What a valid report of the chain verifier means.  A complaint is never taken back, so every check of a
  valid report passed; from that follow the signatures, the parent links, the taint discipline and the
  extension rules of the chain.
\<close>

section \<open>Complaints\<close>

lemma complain_invalid [simp]: "\<not> pr_valid (complain msg R)"
  by (simp add: complain_def)

lemma complain_if_valid [simp]: "pr_valid (complain_if b msg R) \<longleftrightarrow> \<not> b \<and> pr_valid R"
  by (simp add: complain_if_def)

lemma capability_violation_invalid [simp]: "\<not> pr_valid (capability_violation msg R)"
  by (simp add: capability_violation_def)

lemma complaint_not_valid [simp]:
  "pr_valid R' \<Longrightarrow> complain msg R \<noteq> R'"
  "pr_valid R' \<Longrightarrow> complain_if b msg R = R' \<longleftrightarrow> \<not> b \<and> R = R'"
  by (auto simp: complain_if_def)

lemma capability_violation_not_valid: "pr_valid R' \<Longrightarrow> capability_violation msg R \<noteq> R'"
  by auto

lemma taint_failure_invalid [simp]: "\<not> pr_valid (taint_failure msg R)"
  by (simp add: taint_failure_def)

lemma fold_complain_valid [simp]: "pr_valid (fold complain errs R) \<longleftrightarrow> errs = [] \<and> pr_valid R"
proof (induction errs arbitrary: R)
  case (Cons e errs)
  then show ?case by simp
qed simp

text \<open>A check that only complains: what a valid report after it says.\<close>

definition sound_check :: "(ProvReport \<Rightarrow> ProvReport res) \<Rightarrow> bool \<Rightarrow> bool" where
  "sound_check f P = (\<forall>R R'. f R = Inr R' \<longrightarrow> pr_valid R' \<longrightarrow> pr_valid R \<and> P)"

lemma sound_checkI: "(\<And>R R'. f R = Inr R' \<Longrightarrow> pr_valid R' \<Longrightarrow> pr_valid R \<and> P) \<Longrightarrow> sound_check f P"
  by (simp add: sound_check_def)

lemma sound_checkD: "sound_check f P \<Longrightarrow> f R = Inr R' \<Longrightarrow> pr_valid R' \<Longrightarrow> pr_valid R \<and> P"
  by (simp add: sound_check_def)

lemma sound_fold:
  assumes "\<And>x. x \<in> set xs \<Longrightarrow> sound_check (f x) (P x)"
  shows "sound_check (rfold f xs) (\<forall>x\<in>set xs. P x)"
  using assms
proof (induction xs)
  case Nil
  then show ?case by (simp add: sound_check_def)
next
  case (Cons x xs)
  show ?case
  proof (rule sound_checkI)
    fix R R' assume a: "rfold f (x # xs) R = Inr R'" "pr_valid R'"
    then obtain R1 where r: "f x R = Inr R1" "rfold f xs R1 = Inr R'" by auto
    have "pr_valid R1 \<and> (\<forall>x\<in>set xs. P x)" using sound_checkD[OF Cons.IH r(2) a(2)] Cons.prems by simp
    then show "pr_valid R \<and> (\<forall>x\<in>set (x # xs). P x)" using sound_checkD[OF Cons.prems r(1)] by simp
  qed
qed

section \<open>The record of a line\<close>

lemma from_jwsE:
  assumes "from_jws H strict vs jws = Inr r"
  obtains pb pd r0 h where "length jws \<le> MAX_JWS_BYTES" "length (split_on 46 jws) = 3 \<or> length (split_on 46 jws) = 4"
    "b64d (split_on 46 jws ! 1) = Inr pb" "length pb \<le> MAX_PAYLOAD_BYTES" "json_loads_bytes (float_parse H) True pb = Inr (PDict pd)"
    "strict \<longrightarrow> enforce_strict_payload H (split_on 46 jws ! 0) pd pb = Inr ()" "receipt_of_payload pd = Inr r0"
    "receipt_hash_of H jws = Inr h" "r = r0\<lparr>r_jws := jws, r_receipt_hash := h\<rparr>"
    "strict \<and> vs \<longrightarrow> validate_receipt_strict r = Inr ()"
proof -
  from assms obtain pb pv where a: "length jws \<le> MAX_JWS_BYTES" "length (split_on 46 jws) = 3 \<or> length (split_on 46 jws) = 4"
    "b64d (split_on 46 jws ! 1) = Inr pb" "length pb \<le> MAX_PAYLOAD_BYTES" "json_loads_bytes (float_parse H) True pb = Inr pv"
    by (simp only: from_jws_def Let_def rbind_eq_Inr_iff rcheck_eq_Inr_iff) blast
  from assms a obtain pd where d: "pv = PDict pd" by (cases pv) (simp_all add: from_jws_def)
  from assms a d show thesis
    by (auto simp: from_jws_def Let_def split: if_splits intro: that[of pb pd])
qed

lemma from_jws_parts:
  assumes "from_jws H strict vs jws = Inr r"
  shows "r_jws r = jws" "receipt_hash_of H jws = Inr (r_receipt_hash r)"
  using assms by (auto elim!: from_jwsE)

text \<open>The line is an envelope without unknown fields around the receipt, with its right hash.\<close>

definition carries :: "host \<Rightarrow> ustr \<Rightarrow> ProvenanceReceipt \<Rightarrow> bool" where
  "carries H line r = (\<exists>d. json_loads (float_parse H) True line = Inr (PDict d) \<and>
     unknown_envelope_fields (fst ` set d) = {} \<and> map_of d (lit ''jws'') = Some (PStr (r_jws r)) \<and>
     map_of d (lit ''receipt_hash'') = Some (PStr (r_receipt_hash r)) \<and> from_jws H True False (r_jws r) = Inr r)"

definition conformant :: "host \<Rightarrow> ProvenanceVerifier \<Rightarrow> ProvenanceReceipt \<Rightarrow> bool" where
  "conformant H V r = (\<exists>kid stmt. r_agent_key_id r = PStr kid \<and> map_of (pv_caps V) kid = Some stmt \<and>
     verify_statement H V stmt kid \<and> r_agent_id r = PStr (st_agent_id stmt) \<and>
     (\<forall>e. st_expires_at stmt = Some e \<longrightarrow> truthy (r_issued_at r) \<longrightarrow> py_le (PInt e) (r_issued_at r) = Inr False) \<and>
     (truthy (r_model r) \<longrightarrow> permits_model stmt (r_model r)) \<and> (truthy (r_tool r) \<longrightarrow> permits_tool stmt (r_tool r)))"

definition receipt_ok :: "host \<Rightarrow> ProvenanceVerifier \<Rightarrow> ProvenanceReceipt \<Rightarrow> bool" where
  "receipt_ok H V r \<longleftrightarrow> verify_receipt_signature H V r = Inr True \<and> structural_errors r = Inr [] \<and>
     (pv_require_pq V \<longrightarrow> length (filter (\<lambda>c. c = 46) (r_jws r)) = 3) \<and> (pv_caps V \<noteq> [] \<longrightarrow> conformant H V r)"

lemmas py_eq_str [simp] = py_eq_PStr py_eq_PStr_right

lemma parse_chain_line_valid:
  assumes "parse_chain_line H line R = Inr (p, R')" and "pr_valid R'"
  shows "pr_valid R \<and> (\<exists>raw. p = Some raw \<and> json_loads (float_parse H) True line = Inr raw
    \<and> (\<forall>d. raw = PDict d \<longrightarrow> unknown_envelope_fields (fst ` set d) = {}))"
proof -
  have "\<exists>raw. json_loads (float_parse H) True line = Inr raw" "pr_valid R"
    using assms by (auto simp: parse_chain_line_def Let_def split: sum.splits if_splits)
  then obtain raw where l: "json_loads (float_parse H) True line = Inr raw" by blast
  then obtain ks fs where k: "py_iter raw = Inr ks" "py_set [] ks = Inr fs" "p = Some raw"
      "filter (\<lambda>k. \<not> (is_str k \<and> unknown_envelope_fields {str_of k} = {})) fs = []"
    using assms by (auto simp: parse_chain_line_def Let_def split: if_splits)
  have "unknown_envelope_fields (fst ` set d) = {}" if "raw = PDict d" for d
  proof -
    have "unknown_envelope_fields {h} = {}" if h: "h \<in> fst ` set d" for h
    proof -
      have "PStr h \<in> set ks" using k(1) h \<open>raw = PDict d\<close> by (force simp: py_iter_def)
      then have "PStr h \<in> set fs" using py_set_strings[OF k(2)] by simp
      then show ?thesis using k(4) by (auto simp: filter_empty_conv)
    qed
    then show ?thesis by (force simp: unknown_envelope_fields_def)
  qed
  then show ?thesis using l k(3) \<open>pr_valid R\<close> by blast
qed

lemma validate_record_some:
  assumes "validate_chain_record H V raw R = Inr (Some r, R')"
  obtains d where "raw = PDict d" "map_of d (lit ''jws'') = Some (PStr (r_jws r))" "from_jws H True False (r_jws r) = Inr r"
proof -
  obtain d where d: "raw = PDict d"
    using assms by (cases raw) (auto simp: validate_chain_record_def)
  obtain j where j: "map_of d (lit ''jws'') = Some j"
    using assms by (cases "map_of d (lit ''jws'')") (auto simp: validate_chain_record_def d require_key_def)
  obtain jws where j1: "j = PStr jws"
    using assms by (cases j) (auto simp: validate_chain_record_def d require_key_def j)
  have "from_jws H True False jws = Inr r"
    using assms by (cases "from_jws H True False jws")
      (auto simp: validate_chain_record_def d require_key_def j j1 Let_def split: pyexc.splits)
  then show thesis using that d j j1 from_jws_parts(1) by blast
qed

lemma validate_record_none: "validate_chain_record H V raw R = Inr (None, R') \<Longrightarrow> \<not> pr_valid R'"
  by (cases raw) (auto simp: validate_chain_record_def Let_def split: sum.splits pyexc.splits)

lemma validate_record_valid:
  assumes "validate_chain_record H V (PDict d) R = Inr (Some r, R')" and "pr_valid R'"
  shows "pr_valid R" "map_of d (lit ''receipt_hash'') = Some (PStr (r_receipt_hash r))"
    "verify_receipt_signature H V r = Inr True" "structural_errors r = Inr []"
    "pv_require_pq V \<longrightarrow> length (filter (\<lambda>c. c = 46) (r_jws r)) = 3"
proof -
  have j: "map_of d (lit ''jws'') = Some (PStr (r_jws r))" "from_jws H True False (r_jws r) = Inr r"
    using validate_record_some[OF assms(1)] by simp_all
  obtain ok errs where s: "verify_receipt_signature H V r = Inr ok" "structural_errors r = Inr errs"
    using assms(1) by (auto simp: validate_chain_record_def require_key_def j Let_def)
  have v: "ok" "errs = []" "get_or_none d ''receipt_hash'' = PStr (r_receipt_hash r)" "pr_valid R"
    "pv_require_pq V \<longrightarrow> length (filter (\<lambda>c. c = 46) (r_jws r)) = 3"
    using assms by (auto simp: validate_chain_record_def require_key_def j s Let_def split: if_splits)
  then show "pr_valid R" "verify_receipt_signature H V r = Inr True" "structural_errors r = Inr []"
    "pv_require_pq V \<longrightarrow> length (filter (\<lambda>c. c = 46) (r_jws r)) = 3" by (simp_all add: s)
  show "map_of d (lit ''receipt_hash'') = Some (PStr (r_receipt_hash r))"
    using v(3) by (auto simp: dict_get_def split: option.splits)
qed

lemma conformance_valid: "sound_check (verify_capability_conformance H V r) (pv_caps V \<noteq> [] \<longrightarrow> conformant H V r)"
proof (rule sound_checkI)
  fix R R' assume a: "verify_capability_conformance H V r R = Inr R'" "pr_valid R'"
  show "pr_valid R \<and> (pv_caps V \<noteq> [] \<longrightarrow> conformant H V r)"
  proof (cases "pv_caps V = []")
    case True
    then show ?thesis using a by (simp add: verify_capability_conformance_def)
  next
    case False
    obtain stmt where s: "lookup_raw (pv_caps V) (r_agent_key_id r) = Inr (Some stmt)"
      using a False by (auto simp: verify_capability_conformance_def split: option.splits)
    then obtain kid where k: "r_agent_key_id r = PStr kid" "map_of (pv_caps V) kid = Some stmt"
      by (auto simp: lookup_raw_def is_str_iff split: if_splits)
    have l: "lookup_raw (pv_caps V) (PStr kid) = Inr (Some stmt)" using s k by simp
    have st: "verify_statement H V stmt kid"
      using a False by (auto simp: verify_capability_conformance_def l k split: if_splits)
    show ?thesis
      using a False l st unfolding conformant_def
      by (auto simp: verify_capability_conformance_def k Let_def capability_violation_not_valid split: if_splits option.splits)
  qed
qed

section \<open>What the extension checks establish\<close>

text \<open>The payload of a receipt as the extension checks read it, and its gate block.\<close>

definition payload_of :: "host \<Rightarrow> ProvenanceReceipt \<Rightarrow> pydict" where
  "payload_of H r =
     (case rbind (b64d (split_on 46 (r_jws r) ! 1)) (json_loads_bytes (float_parse H) False) of Inr (PDict d) \<Rightarrow> d | _ \<Rightarrow> [])"

definition ext :: "host \<Rightarrow> ProvenanceReceipt \<Rightarrow> string \<Rightarrow> pyval" where
  "ext H r k = get_or_none (payload_of H r) k"

definition gate_block :: "host \<Rightarrow> ProvenanceReceipt \<Rightarrow> pyval" where
  "gate_block H r = or_else (ext H r ''x_gate'') (PDict [])"

text \<open>The capability identifiers the gate block of a receipt cites.\<close>

definition cited_authority :: "host \<Rightarrow> ProvenanceReceipt \<Rightarrow> pyval list" where
  "cited_authority H r = (case gate_block H r of
       PDict x \<Rightarrow> (case get_or_none x ''authorization'' of
           PDict auth \<Rightarrow> [get_or_none auth ''capability_id'', get_or_none auth ''parent_id'']
         | _ \<Rightarrow> [])
     | _ \<Rightarrow> [])"

definition authority_bound :: "host \<Rightarrow> ProvenanceReceipt \<Rightarrow> bool" where
  "authority_bound H r = (\<forall>x auth. gate_block H r = PDict x \<longrightarrow> get_or_none x ''authorization'' = PDict auth \<longrightarrow> auth \<noteq> [] \<longrightarrow>
     (\<exists>m. canonical_json (h_env H) (PDict (block_material auth)) = Inr m \<and>
          get_or_none auth ''chain_digest'' = PStr (sha256_hex (h_env H) m)))"

definition revokes :: "host \<Rightarrow> ProvenanceReceipt \<Rightarrow> ustr \<Rightarrow> bool" where
  "revokes H r i = (\<exists>rv ids. ext H r ''x_revocation'' = PDict rv \<and> get_or_none rv ''revoked_ids'' = PList ids \<and> PStr i \<in> set ids)"

definition lease_of :: "host \<Rightarrow> ProvenanceReceipt \<Rightarrow> string \<Rightarrow> (ustr \<times> pydict) option" where
  "lease_of H r act = (case ext H r ''x_lease'' of
       PDict lease \<Rightarrow>
         if get_or_none lease ''action'' = PStr (lit act)
         then Some (py_str H (dict_get lease (lit ''lease_id'') (PStr [])), lease) else None
     | _ \<Rightarrow> None)"

text \<open>The redemption falls in the window of the grant and does not widen its scopes.\<close>

definition within_grant :: "host \<Rightarrow> ProvenanceReceipt \<Rightarrow> pydict \<Rightarrow> pydict \<Rightarrow> bool" where
  "within_grant H r g lease = (\<exists>t0 granted ttl.
     py_int H (dict_get (payload_of H r) (lit ''iat'') (PInt 0)) = Inr t0 \<and>
     py_int H (dict_get g (lit ''granted_at'') (PInt 0)) = Inr granted \<and>
     py_int H (dict_get g (lit ''ttl_seconds'') (PInt 0)) = Inr ttl \<and> t0 \<le> granted + ttl \<and>
     (truthy (get_or_none g ''scopes'') \<longrightarrow> truthy (get_or_none lease ''scopes'') \<longrightarrow>
       (\<exists>p c. get_or_none g ''scopes'' = PDict p \<and> get_or_none lease ''scopes'' = PDict c \<and> assert_narrowing p c = Inr ())))"

text \<open>The executor's signature over the outcome and the hash of the output.\<close>

definition countersigned :: "host \<Rightarrow> ProvenanceVerifier \<Rightarrow> ProvenanceReceipt \<Rightarrow> bool" where
  "countersigned H V r = (\<forall>xb. ext H r ''x_bilateral'' = PDict xb \<longrightarrow>
     (\<exists>outcome kid key s sig out m. get_or_none xb ''outcome'' = PStr outcome \<and> outcome \<in> set BILATERAL_OUTCOMES \<and>
        get_or_none xb ''executor_key_id'' = PStr kid \<and> map_of (pv_exec_keys V) kid = Some key \<and>
        py_eq (get_or_none xb ''output_hash'') (r_output_hash r) \<and> truthy (r_output_hash r) \<and>
        out = py_str H (get_or_none xb ''output_hash'') \<and>
        get_or_none xb ''signature'' = PStr s \<and> std_b64decode s = Inr sig \<and>
        bilateral_signing_input H kid outcome out = Inr m \<and> ed_verify (h_env H) key sig m))"

text \<open>A time anchor binds the line of an earlier receipt, and a TSA token for that digest verifies.\<close>

definition anchored :: "host \<Rightarrow> receipt_table \<Rightarrow> (ustr \<times> ustr) list \<Rightarrow> ProvenanceReceipt \<Rightarrow> bool" where
  "anchored H receipts raw_lines r = (\<forall>x_ts digest cited. ext H r ''x_timestamp'' = PDict x_ts \<longrightarrow>
     digest = py_str H (dict_get x_ts (lit ''digest'') (PStr [])) \<longrightarrow>
     cited = py_str H (dict_get x_ts (lit ''parent_receipt'') (PStr [])) \<longrightarrow>
     digest = SHA256_PREFIX @ py_str H (dict_get (payload_of H r) (lit ''input_hash'') (PStr [])) \<and>
     has_key receipts cited \<and>
     (\<forall>l. map_of raw_lines cited = Some l \<longrightarrow>
        (\<exists>b. utf8_encode_strict l = Inr b \<and> digest = SHA256_PREFIX @ sha256_hex (h_env H) b)) \<and>
     (get_or_none x_ts ''mode'' = PStr (lit ''opentimestamps'') \<or>
      (\<exists>tok token imprint nonce. get_or_none x_ts ''mode'' = PStr (lit ''tsa'') \<and>
         dict_get x_ts (lit ''token'') (PStr []) = PStr tok \<and> std_b64decode tok = Inr token \<and>
         py_int H (dict_get x_ts (lit ''nonce'') (PInt 0)) = Inr nonce \<and>
         fromhex (removeprefix SHA256_PREFIX digest) = Inr imprint \<and>
         tsa_verify H token imprint nonce = (True, py_str H (get_or_none x_ts ''gen_time'')))))"

text \<open>A harness finding cites an earlier receipt and reports its verdict.\<close>

definition finding_faithful :: "host \<Rightarrow> receipt_table \<Rightarrow> ProvenanceReceipt \<Rightarrow> bool" where
  "finding_faithful H receipts r = (\<forall>f. ext H r ''x_finding'' = PDict f \<longrightarrow>
     (\<exists>cited. map_of receipts (py_str H (dict_get f (lit ''cited_receipt'') (PStr []))) = Some cited \<and>
        (\<forall>rp. get_or_none f ''repro'' = PDict rp \<longrightarrow>
           (let claimed = py_str H (dict_get rp (lit ''actual_decision'') (PStr [])) in
            claimed = [] \<or> \<not> truthy (r_guardrail_verdict cited) \<or> r_guardrail_verdict cited = PStr claimed))))"

definition intent_respected :: "host \<Rightarrow> ProvenanceReceipt \<Rightarrow> bool" where
  "intent_respected H r = (\<forall>x it. gate_block H r = PDict x \<longrightarrow> get_or_none x ''intent'' = PDict it \<longrightarrow>
     get_or_none x ''decision'' = PStr (lit ''allow'') \<longrightarrow>
     (get_or_none it ''tools'' \<noteq> PNone \<longrightarrow>
        py_in (or_else (get_or_none x ''tool'') (r_tool r)) (get_or_none it ''tools'') = Inr True) \<and>
     (\<forall>cs chk sat. get_or_none it ''constraints'' = PDict cs \<longrightarrow> cs \<noteq> [] \<longrightarrow> get_or_none x ''intent_check'' = PDict chk \<longrightarrow>
        get_or_none chk ''satisfied_fields'' = PDict sat \<longrightarrow> sat \<noteq> [] \<longrightarrow> check_constraints (h_env H) cs sat = Inr None))"

lemma payload_cases:
  assumes "map_of d (lit ''jws'') = Some (PStr (r_jws r))"
    and "decode_gate_payload H (PDict d) = Inr (decoded, x)" and "length (filter (\<lambda>c. c = 46) (r_jws r)) \<ge> 2"
  shows "payload_get decoded k = ext H r k" "x = gate_block H r" "\<And>p. decoded = PDict p \<Longrightarrow> p = payload_of H r"
proof -
  obtain m where m: "m = rbind (b64d (split_on 46 (r_jws r) ! 1)) (json_loads_bytes (float_parse H) False)" by simp
  have v: "value_or_type PNone m = Inr decoded"
      "x = (case decoded of PDict p \<Rightarrow> or_else (get_or_none p ''x_gate'') (PDict []) | _ \<Rightarrow> PDict [])"
    using assms(2,3) by (auto simp: assms(1) decode_gate_payload_def dict_get_def m)
  have p: "payload_of H r = (case decoded of PDict p \<Rightarrow> p | _ \<Rightarrow> [])"
    using v(1) unfolding payload_of_def m[symmetric]
    by (cases m) (auto simp: value_or_type_def split: pyexc.splits)
  have "payload_get decoded k = ext H r k \<and> x = gate_block H r \<and> (\<forall>p. decoded = PDict p \<longrightarrow> p = payload_of H r)"
    by (cases decoded) (auto simp: v(2) p ext_def payload_get_def gate_block_def or_else_def dict_get_def)
  then show "payload_get decoded k = ext H r k" "x = gate_block H r" "\<And>p. decoded = PDict p \<Longrightarrow> p = payload_of H r" by blast+
qed

text \<open>What the payload facts give the checks.\<close>

definition reads_payload :: "host \<Rightarrow> ProvenanceReceipt \<Rightarrow> pyval \<Rightarrow> bool" where
  "reads_payload H r decoded \<longleftrightarrow> (\<forall>k. payload_get decoded k = ext H r k) \<and> (\<forall>p. decoded = PDict p \<longrightarrow> p = payload_of H r)"

lemma reads_payloadD:
  assumes "reads_payload H r decoded"
  shows "payload_get decoded k = ext H r k" "ext H r k = PDict q \<Longrightarrow> decoded = PDict (payload_of H r)"
proof -
  show k: "payload_get decoded k = ext H r k" for k using assms by (simp add: reads_payload_def)
  show "decoded = PDict (payload_of H r)" if "ext H r k = PDict q"
    using assms k[of k] that by (cases decoded) (auto simp: reads_payload_def payload_get_def)
qed

lemma or_else_PDict [simp]: "or_else (PDict d) (PDict []) = PDict d" "or_else PNone v = v"
  by (auto simp: or_else_def)

lemma or_else_dict_iff: "or_else v (PDict []) = PDict d \<Longrightarrow> d \<noteq> [] \<Longrightarrow> v = PDict d"
  by (auto simp: or_else_def split: if_splits)

lemma attr_dict_iff [simp]: "attr_dict v = Inr d \<longleftrightarrow> v = PDict d"
  by (cases v) (auto simp: attr_dict_def)

lemma attr_dict_PDict [simp]: "attr_dict (PDict d) = Inr d"
  by simp

lemma get_attr_iff [simp]: "get_attr v k = Inr w \<longleftrightarrow> (\<exists>d. v = PDict d \<and> w = get_or_none d k)"
  by (cases v) (auto simp: get_attr_def)

lemma digest_check: "sound_check (verify_delegated_authority_digest H (gate_block H r)) (authority_bound H r)"
  by (rule sound_checkI) (auto simp: verify_delegated_authority_digest_def authority_bound_def split: if_splits)

lemma redemption_check:
  assumes "ext H r ''x_lease'' = PDict lease"
  shows "sound_check (verify_lease_redemption H (payload_of H r) lease grant) (\<exists>g. grant = Some g \<and> within_grant H r g lease)"
proof (rule sound_checkI)
  fix R R' assume a: "verify_lease_redemption H (payload_of H r) lease grant R = Inr R'" "pr_valid R'"
  then obtain g where g: "grant = Some g" by (cases grant) (auto simp: verify_lease_redemption_def)
  from a obtain t0 granted ttl where t:
    "py_int H (dict_get (payload_of H r) (lit ''iat'') (PInt 0)) = Inr t0"
    "py_int H (dict_get g (lit ''granted_at'') (PInt 0)) = Inr granted"
    "py_int H (dict_get g (lit ''ttl_seconds'') (PInt 0)) = Inr ttl"
    by (auto simp: verify_lease_redemption_def g)
  have "pr_valid R \<and> within_grant H r g lease"
    using a unfolding within_grant_def
    by (auto simp: verify_lease_redemption_def g t Let_def or_else_def split: if_splits sum.splits pyexc.splits)
  then show "pr_valid R \<and> (\<exists>g. grant = Some g \<and> within_grant H r g lease)" using g by blast
qed

lemma lease_check:
  assumes "verify_lease_extension H decoded grants R = Inr (grants', R')" and "pr_valid R'" and "reads_payload H r decoded"
  shows "pr_valid R" "grants' = (case lease_of H r ''granted'' of Some (lid, lease) \<Rightarrow> dict_set lid lease grants | None \<Rightarrow> grants)"
    "lease_of H r ''redeemed'' = Some (lid, lease) \<Longrightarrow> \<exists>g. map_of grants lid = Some g \<and> within_grant H r g lease"
proof -
  note p = reads_payloadD[OF assms(3)]
  have "pr_valid R \<and> grants' = (case lease_of H r ''granted'' of Some (lid, lease) \<Rightarrow> dict_set lid lease grants | None \<Rightarrow> grants)
    \<and> (\<forall>lid lease. lease_of H r ''redeemed'' = Some (lid, lease) \<longrightarrow> (\<exists>g. map_of grants lid = Some g \<and> within_grant H r g lease))"
  proof (cases "ext H r ''x_lease''")
    case (PDict lease)
    then have d: "decoded = PDict (payload_of H r)" by (rule p(2))
    show ?thesis
      using assms(1,2) sound_checkD[OF redemption_check[OF PDict], of _ R R']
      by (auto simp: verify_lease_extension_def p(1)[unfolded d] PDict d Let_def lease_of_def split: if_splits)
  qed (use assms(1,2) in \<open>auto simp: verify_lease_extension_def p(1) lease_of_def split: pyval.splits\<close>)
  then show "pr_valid R" "grants' = (case lease_of H r ''granted'' of Some (lid, lease) \<Rightarrow> dict_set lid lease grants | None \<Rightarrow> grants)"
    "lease_of H r ''redeemed'' = Some (lid, lease) \<Longrightarrow> \<exists>g. map_of grants lid = Some g \<and> within_grant H r g lease" by blast+
qed

lemma revocation_check:
  assumes "verify_cascade_revocation (gate_block H r) decoded revoked R = Inr (revoked', R')" and "pr_valid R'"
    and "reads_payload H r decoded"
  shows "pr_valid R" "PStr i \<in> set revoked \<Longrightarrow> PStr i \<notin> set (cited_authority H r)"
    "PStr i \<in> set revoked \<or> revokes H r i \<Longrightarrow> PStr i \<in> set revoked'"
proof -
  note p = reads_payloadD[OF assms(3)]
  let ?hit = "\<lambda>cited. filter (\<lambda>v. py_mem v (filter (\<lambda>c. c \<noteq> PNone) cited)) revoked"
  let ?tail = "\<lambda>R1. case payload_get decoded ''x_revocation'' of
       PDict rv \<Rightarrow>
         if rv = [] then Inr (revoked, R1)
         else rbind (py_iter (or_else (get_or_none rv ''revoked_ids'') (PList []))) (\<lambda>ids.
              rbind (py_set revoked ids) (\<lambda>revoked'. Inr (revoked', R1)))
     | _ \<Rightarrow> Inr (revoked, R1)"
  obtain x auth cited R1 where c: "gate_block H r = PDict x" "or_else (get_or_none x ''authorization'') (PDict []) = PDict auth"
      "py_set [] [get_or_none auth ''capability_id'', get_or_none auth ''parent_id''] = Inr cited"
      "(if ?hit cited = [] then Inr R else rbind (min_of (?hit cited)) (\<lambda>_. Inr (complain ''cited authority was revoked'' R))) = Inr R1"
      "?tail R1 = Inr (revoked', R')"
    using assms(1) unfolding verify_cascade_revocation_def Let_def rbind_eq_Inr_iff get_attr_iff attr_dict_iff by blast
  have R1: "R1 = R'" using c(5) by (auto split: pyval.splits if_splits)
  have h: "?hit cited = []" "pr_valid R" using c(4) assms(2) by (auto simp: R1 split: if_splits)
  show "pr_valid R" by (rule h)
  show "PStr i \<notin> set (cited_authority H r)" if i: "PStr i \<in> set revoked"
  proof
    assume "PStr i \<in> set (cited_authority H r)"
    then have "PStr i \<in> {get_or_none auth ''capability_id'', get_or_none auth ''parent_id''}"
      using c(1,2) by (cases "get_or_none x ''authorization''") (auto simp: cited_authority_def)
    then have "PStr i \<in> set cited" using py_set_strings[OF c(3)] by simp
    then show False using h(1) i by (force simp: filter_empty_conv py_mem_def list_ex_iff)
  qed
  show "PStr i \<in> set revoked'" if i: "PStr i \<in> set revoked \<or> revokes H r i"
  proof (cases "ext H r ''x_revocation''")
    case (PDict rv)
    then show ?thesis
      using c(5) i py_set_strings[of revoked _ revoked' i]
      by (auto simp: p(1) revokes_def py_iter_def or_else_def dict_get_def split: if_splits)
  qed (use c(5) i in \<open>auto simp: p(1) revokes_def\<close>)
qed

lemma intent_check: "sound_check (verify_task_intent H (gate_block H r) r) (intent_respected H r)"
proof (rule sound_checkI)
  fix R R' assume a: "verify_task_intent H (gate_block H r) r R = Inr R'" "pr_valid R'"
  then obtain x where x: "gate_block H r = PDict x" by (auto simp: verify_task_intent_def)
  show "pr_valid R \<and> intent_respected H r"
  proof (cases "get_or_none x ''decision'' = PStr (lit ''allow'') \<and> get_or_none x ''intent'' \<noteq> PNone")
    case False
    then have "R' = R" using a by (auto simp: verify_task_intent_def x Let_def)
    then show ?thesis using a(2) False by (auto simp: intent_respected_def x)
  next
    case True
    obtain it inside where i: "get_or_none x ''intent'' = PDict it"
      "(if get_or_none it ''tools'' = PNone then Inr True
        else py_in (or_else (get_or_none x ''tool'') (r_tool r)) (get_or_none it ''tools'')) = Inr inside"
      using a(1) True by (auto simp: verify_task_intent_def x Let_def)
    obtain chk where c: "or_else (get_or_none x ''intent_check'') (PDict []) = PDict chk"
      using a(1) True i by (auto simp: verify_task_intent_def x Let_def)
    have v: "inside" "pr_valid R"
      "truthy (get_or_none it ''constraints'') \<Longrightarrow> truthy (or_else (get_or_none chk ''satisfied_fields'') (PDict [])) \<Longrightarrow>
       check_raw_constraints (h_env H) (get_or_none it ''constraints'') (or_else (get_or_none chk ''satisfied_fields'') (PDict [])) = Inr None"
      using a True i c by (auto simp: verify_task_intent_def x Let_def split: if_splits)
    have "check_constraints (h_env H) cs sat = Inr None"
      if "get_or_none it ''constraints'' = PDict cs" "cs \<noteq> []" "get_or_none x ''intent_check'' = PDict chk'"
        "get_or_none chk' ''satisfied_fields'' = PDict sat" "sat \<noteq> []" for cs chk' sat
      using v(3) c that by (simp add: check_raw_constraints_def)
    then show ?thesis using v(1,2) i by (auto simp: intent_respected_def x split: if_splits)
  qed
qed

lemma finding_check:
  assumes "reads_payload H r decoded"
  shows "sound_check (verify_harness_finding H decoded receipts) (finding_faithful H receipts r)"
proof (rule sound_checkI)
  fix R R' assume a: "verify_harness_finding H decoded receipts R = Inr R'" "pr_valid R'"
  note p = reads_payloadD(1)[OF assms]
  show "pr_valid R \<and> finding_faithful H receipts r"
  proof (cases "ext H r ''x_finding''")
    case (PDict f)
    then show ?thesis using a
      by (auto simp: verify_harness_finding_def p finding_faithful_def Let_def split: option.splits)
  qed (use a in \<open>auto simp: verify_harness_finding_def p finding_faithful_def\<close>)
qed

lemma anchor_binding_check:
  "sound_check (verify_time_digest_binding H d x_ts digest receipts raw_lines)
     (digest = SHA256_PREFIX @ py_str H (dict_get d (lit ''input_hash'') (PStr [])) \<and>
      has_key receipts (py_str H (dict_get x_ts (lit ''parent_receipt'') (PStr []))) \<and>
      (\<forall>l. map_of raw_lines (py_str H (dict_get x_ts (lit ''parent_receipt'') (PStr []))) = Some l \<longrightarrow>
        (\<exists>b. utf8_encode_strict l = Inr b \<and> digest = SHA256_PREFIX @ sha256_hex (h_env H) b)))"
  by (rule sound_checkI) (auto simp: verify_time_digest_binding_def Let_def split: if_splits option.splits)

lemma anchor_mode_check:
  "sound_check (verify_time_source_mode H x_ts digest)
     (get_or_none x_ts ''mode'' = PStr (lit ''opentimestamps'') \<or>
      (\<exists>tok token imprint nonce. get_or_none x_ts ''mode'' = PStr (lit ''tsa'') \<and>
         dict_get x_ts (lit ''token'') (PStr []) = PStr tok \<and> std_b64decode tok = Inr token \<and>
         py_int H (dict_get x_ts (lit ''nonce'') (PInt 0)) = Inr nonce \<and>
         fromhex (removeprefix SHA256_PREFIX digest) = Inr imprint \<and>
         tsa_verify H token imprint nonce = (True, py_str H (get_or_none x_ts ''gen_time''))))"
proof (rule sound_checkI)
  fix R R' assume a: "verify_time_source_mode H x_ts digest R = Inr R'" "pr_valid R'"
  obtain v where v: "v = dict_get x_ts (lit ''token'') (PStr [])" by simp
  show "pr_valid R \<and>
     (get_or_none x_ts ''mode'' = PStr (lit ''opentimestamps'') \<or>
      (\<exists>tok token imprint nonce. get_or_none x_ts ''mode'' = PStr (lit ''tsa'') \<and>
         dict_get x_ts (lit ''token'') (PStr []) = PStr tok \<and> std_b64decode tok = Inr token \<and>
         py_int H (dict_get x_ts (lit ''nonce'') (PInt 0)) = Inr nonce \<and>
         fromhex (removeprefix SHA256_PREFIX digest) = Inr imprint \<and>
         tsa_verify H token imprint nonce = (True, py_str H (get_or_none x_ts ''gen_time''))))"
    using a by (cases v) (auto simp: verify_time_source_mode_def Let_def v[symmetric] case_prod_unfold prod_eq_iff split: if_splits)
qed

lemma anchor_check:
  assumes "reads_payload H r decoded"
  shows "sound_check (verify_time_anchor H decoded receipts raw_lines) (anchored H receipts raw_lines r)"
proof (rule sound_checkI)
  fix R R' assume a: "verify_time_anchor H decoded receipts raw_lines R = Inr R'" "pr_valid R'"
  note p = reads_payloadD[OF assms]
  show "pr_valid R \<and> anchored H receipts raw_lines r"
  proof (cases "ext H r ''x_timestamp''")
    case (PDict x_ts)
    then have d: "decoded = PDict (payload_of H r)" by (rule p(2))
    obtain R1 where r: "verify_time_digest_binding H (payload_of H r) x_ts (py_str H (dict_get x_ts (lit ''digest'') (PStr []))) receipts raw_lines R = Inr R1"
        "verify_time_source_mode H x_ts (py_str H (dict_get x_ts (lit ''digest'') (PStr []))) R1 = Inr R'"
      using a(1) by (auto simp: verify_time_anchor_def p(1)[unfolded d] PDict d Let_def)
    note m = sound_checkD[OF anchor_mode_check r(2) a(2)]
    note b = sound_checkD[OF anchor_binding_check r(1) m[THEN conjunct1]]
    show ?thesis using m b unfolding anchored_def PDict by blast
  qed (use a in \<open>auto simp: verify_time_anchor_def p(1) anchored_def split: pyval.splits\<close>)
qed

lemma executor_signature_true:
  "executor_signature_ok H key s kid outcome out = Inr True \<longleftrightarrow>
     (\<exists>sig m. std_b64decode s = Inr sig \<and> bilateral_signing_input H kid outcome out = Inr m \<and> ed_verify (h_env H) key sig m)"
  by (cases "std_b64decode s"; cases "bilateral_signing_input H kid outcome out")
    (auto simp: executor_signature_ok_def value_or_type_def split: pyexc.splits)

lemma bilateral_check:
  assumes "reads_payload H r decoded"
  shows "sound_check (verify_bilateral H V decoded r) (countersigned H V r)"
proof (rule sound_checkI)
  fix R R' assume a: "verify_bilateral H V decoded r R = Inr R'" "pr_valid R'"
  note p = reads_payloadD(1)[OF assms]
  show "pr_valid R \<and> countersigned H V r"
  proof (cases "ext H r ''x_bilateral''")
    case (PDict xb)
    obtain s kid key where k: "get_or_none xb ''signature'' = PStr s" "get_or_none xb ''executor_key_id'' = PStr kid"
        "map_of (pv_exec_keys V) kid = Some key" "s \<noteq> []" "kid \<noteq> []"
      using a by (auto simp: verify_bilateral_def p PDict Let_def is_str_iff has_key_def split: pyval.splits if_splits option.splits)
    obtain outcome where o: "get_or_none xb ''outcome'' = PStr outcome" "outcome \<in> set BILATERAL_OUTCOMES"
      using a by (auto simp: verify_bilateral_def p PDict Let_def k has_key_def py_mem_def list_ex_iff split: if_splits)
    have kn: "py_mem (PStr outcome) (map PStr BILATERAL_OUTCOMES)" using o(2) by (auto simp: py_mem_def list_ex_iff)
    show ?thesis using a
      by (auto simp: verify_bilateral_def p PDict Let_def k o kn has_key_def countersigned_def executor_signature_true split: if_splits)
  qed (use a in \<open>auto simp: verify_bilateral_def p countersigned_def\<close>)
qed

section \<open>One line\<close>

lemma length_split_on: "length (split_on c s) = Suc (length (filter (\<lambda>x. x = c) s))"
  by (induction s) (auto split: list.splits)

definition ext_ok :: "host \<Rightarrow> ProvenanceVerifier \<Rightarrow> walk_state \<Rightarrow> ProvenanceReceipt \<Rightarrow> bool" where
  "ext_ok H V S r \<longleftrightarrow> authority_bound H r \<and>
     (\<forall>lid lease. lease_of H r ''redeemed'' = Some (lid, lease) \<longrightarrow> (\<exists>g. map_of (ws_grants S) lid = Some g \<and> within_grant H r g lease)) \<and>
     (\<forall>i. PStr i \<in> set (ws_revoked S) \<longrightarrow> PStr i \<notin> set (cited_authority H r)) \<and>
     intent_respected H r \<and> finding_faithful H (ws_receipts S) r \<and> anchored H (ws_receipts S) (ws_lines S) r \<and> countersigned H V r"

definition collects :: "host \<Rightarrow> ProvenanceReceipt \<Rightarrow> walk_state \<Rightarrow> walk_state \<Rightarrow> bool" where
  "collects H r S S' \<longleftrightarrow>
     ws_grants S' = (case lease_of H r ''granted'' of Some (lid, lease) \<Rightarrow> dict_set lid lease (ws_grants S) | None \<Rightarrow> ws_grants S) \<and>
     (\<forall>i. PStr i \<in> set (ws_revoked S) \<or> revokes H r i \<longrightarrow> PStr i \<in> set (ws_revoked S'))"

lemma extensions_valid:
  assumes "verify_receipt_extensions H V (PDict d) r S = Inr S'" and "pr_valid (ws_report S')"
    and "map_of d (lit ''jws'') = Some (PStr (r_jws r))" and "from_jws H True False (r_jws r) = Inr r"
  shows "pr_valid (ws_report S)" "ext_ok H V S r" "collects H r S S'" "ws_receipts S' = ws_receipts S" "ws_lines S' = ws_lines S"
proof -
  have dots: "length (filter (\<lambda>c. c = 46) (r_jws r)) \<ge> 2"
    using assms(4) by (auto elim!: from_jwsE simp: length_split_on)
  obtain decoded x R1 grants R2 revoked R3 R4 R5 R6 R7 where e:
    "decode_gate_payload H (PDict d) = Inr (decoded, x)"
    "verify_delegated_authority_digest H x (ws_report S) = Inr R1"
    "verify_lease_extension H decoded (ws_grants S) R1 = Inr (grants, R2)"
    "verify_cascade_revocation x decoded (ws_revoked S) R2 = Inr (revoked, R3)"
    "verify_task_intent H x r R3 = Inr R4"
    "verify_harness_finding H decoded (ws_receipts S) R4 = Inr R5"
    "verify_time_anchor H decoded (ws_receipts S) (ws_lines S) R5 = Inr R6"
    "verify_bilateral H V decoded r R6 = Inr R7"
    "S' = S\<lparr>ws_grants := grants, ws_revoked := revoked, ws_report := R7\<rparr>"
    using assms(1) unfolding verify_receipt_extensions_def by (auto simp: case_prod_unfold)
  note pc = payload_cases[OF assms(3) e(1) dots]
  have rp: "reads_payload H r decoded" and x: "x = gate_block H r" using pc by (auto simp: reads_payload_def)
  have "pr_valid R7" using assms(2) e(9) by simp
  then have r7: "pr_valid R6" "countersigned H V r" using sound_checkD[OF bilateral_check[OF rp] e(8)] by blast+
  have r6: "pr_valid R5" "anchored H (ws_receipts S) (ws_lines S) r" using sound_checkD[OF anchor_check[OF rp] e(7) r7(1)] by blast+
  have r5: "pr_valid R4" "finding_faithful H (ws_receipts S) r" using sound_checkD[OF finding_check[OF rp] e(6) r6(1)] by blast+
  have r4: "pr_valid R3" "intent_respected H r" using sound_checkD[OF intent_check e(5)[unfolded x] r5(1)] by blast+
  note r3 = revocation_check[OF e(4)[unfolded x] r4(1) rp]
  note r2 = lease_check[OF e(3) r3(1) rp]
  have r1: "pr_valid (ws_report S)" "authority_bound H r" using sound_checkD[OF digest_check e(2)[unfolded x] r2(1)] by blast+
  show "pr_valid (ws_report S)" by (rule r1)
  show "ext_ok H V S r" unfolding ext_ok_def using r1 r2(3) r3(2) r4 r5 r6 r7 by blast
  show "collects H r S S'" unfolding collects_def e(9) using r2(2) r3(3) by simp
  show "ws_receipts S' = ws_receipts S" "ws_lines S' = ws_lines S" by (simp_all add: e(9))
qed

lemma line_valid:
  assumes "prov_verify_line H V line S = Inr S'" and "pr_valid (ws_report S')"
  obtains r where "pr_valid (ws_report S)" "carries H line r" "receipt_ok H V r"
    "ext_ok H V (S\<lparr>ws_lines := dict_set (r_receipt_hash r) line (ws_lines S)\<rparr>) r" "collects H r S S'"
    "ws_receipts S' = dict_set (r_receipt_hash r) r (ws_receipts S)"
    "ws_lines S' = dict_set (r_receipt_hash r) line (ws_lines S)"
proof -
  obtain p R where p: "parse_chain_line H line (ws_report S) = Inr (p, R)"
    using assms(1) by (auto simp: prov_verify_line_def)
  have "p \<noteq> None"
  proof
    assume "p = None"
    then have "pr_valid R" using assms p by (auto simp: prov_verify_line_def)
    then show False using parse_chain_line_valid[OF p] \<open>p = None\<close> by simp
  qed
  then obtain raw where raw: "p = Some raw" by blast
  obtain c R1 where c: "validate_chain_record H V raw R = Inr (c, R1)"
    using assms(1) by (auto simp: prov_verify_line_def p raw)
  have "c \<noteq> None"
  proof
    assume "c = None"
    then have "pr_valid R1" using assms by (auto simp: prov_verify_line_def p raw c)
    then show False using validate_record_none c \<open>c = None\<close> by blast
  qed
  then obtain r where r: "c = Some r" by blast
  obtain R2 S1 where s: "verify_capability_conformance H V r R1 = Inr R2"
      "verify_receipt_extensions H V raw r (S\<lparr>ws_report := R2, ws_lines := dict_set (r_receipt_hash r) line (ws_lines S)\<rparr>) = Inr S1"
      "S' = count_receipt r S1"
    using assms(1) by (auto simp: prov_verify_line_def p raw c r)
  obtain d where d: "raw = PDict d" and j: "map_of d (lit ''jws'') = Some (PStr (r_jws r))" "from_jws H True False (r_jws r) = Inr r"
    by (rule validate_record_some[OF c[unfolded r]])
  have v1: "pr_valid (ws_report S1)" using assms(2) by (simp add: s(3) count_receipt_def)
  note x = extensions_valid[OF s(2)[unfolded d] v1 j]
  have v2: "pr_valid R1" "pv_caps V \<noteq> [] \<longrightarrow> conformant H V r" using sound_checkD[OF conformance_valid s(1)] x(1) by simp_all
  note v3 = validate_record_valid[OF c[unfolded r d] v2(1)]
  note v4 = parse_chain_line_valid[OF p v3(1)]
  have "carries H line r" using v4 v3(2) j by (auto simp: carries_def raw d)
  moreover have "receipt_ok H V r" using v2 v3 by (simp add: receipt_ok_def)
  moreover have "ext_ok H V (S\<lparr>ws_lines := dict_set (r_receipt_hash r) line (ws_lines S)\<rparr>) r"
    using x(2) by (simp add: ext_ok_def)
  moreover have "collects H r S S'"
    using x(3) by (simp add: collects_def s(3) count_receipt_def split: option.splits)
  ultimately show thesis using that v4 x(4,5) by (simp add: s(3) count_receipt_def)
qed

section \<open>The whole file\<close>

lemma carries_unique:
  assumes "carries H line r" and "carries H line r'"
  shows "r = r'"
proof -
  obtain d where d: "json_loads (float_parse H) True line = Inr (PDict d)" "map_of d (lit ''jws'') = Some (PStr (r_jws r))"
      "from_jws H True False (r_jws r) = Inr r"
    using assms(1) unfolding carries_def by blast
  obtain d' where d': "json_loads (float_parse H) True line = Inr (PDict d')" "map_of d' (lit ''jws'') = Some (PStr (r_jws r'))"
      "from_jws H True False (r_jws r') = Inr r'"
    using assms(2) unfolding carries_def by blast
  have "d' = d" using d(1) d'(1) by simp
  then have "r_jws r' = r_jws r" using d(2) d'(2) by simp
  then show ?thesis using d(3) d'(3) by (metis sum.inject(2))
qed

lemma carries_hash: "carries H line r \<Longrightarrow> receipt_hash_of H (r_jws r) = Inr (r_receipt_hash r)"
  by (auto simp: carries_def dest: from_jws_parts(2))

definition file_receipts :: "host \<Rightarrow> ustr list \<Rightarrow> ProvenanceReceipt set" where
  "file_receipts H lines = {r. \<exists>line\<in>set lines. carries H line r}"

text \<open>What holds of the walk's state after the lines \<open>pre\<close>.\<close>

definition walked :: "host \<Rightarrow> ProvenanceVerifier \<Rightarrow> ustr list \<Rightarrow> walk_state \<Rightarrow> bool" where
  "walked H V pre S \<longleftrightarrow> pr_valid (ws_report S) \<and> (\<forall>line\<in>set pre. \<exists>r. carries H line r \<and> receipt_ok H V r) \<and>
     (\<forall>h. has_key (ws_receipts S) h \<longleftrightarrow> (\<exists>r\<in>file_receipts H pre. r_receipt_hash r = h)) \<and>
     (\<forall>h r. map_of (ws_receipts S) h = Some r \<longrightarrow> r \<in> file_receipts H pre \<and> r_receipt_hash r = h) \<and>
     (\<forall>h. has_key (ws_lines S) h \<longleftrightarrow> (\<exists>r\<in>file_receipts H pre. r_receipt_hash r = h)) \<and>
     (\<forall>h line. map_of (ws_lines S) h = Some line \<longrightarrow> line \<in> set pre \<and> (\<exists>r. carries H line r \<and> r_receipt_hash r = h)) \<and>
     (\<forall>lid g. map_of (ws_grants S) lid = Some g \<longrightarrow> (\<exists>r\<in>file_receipts H pre. lease_of H r ''granted'' = Some (lid, g))) \<and>
     (\<forall>r\<in>file_receipts H pre. \<forall>i. revokes H r i \<longrightarrow> PStr i \<in> set (ws_revoked S)) \<and> distinct (map fst (ws_receipts S))"

lemma walked_empty: "walked H V [] walk0"
  by (simp add: walked_def walk0_def prov_report0_def file_receipts_def has_key_def)

lemma walked_step:
  assumes "walked H V pre S" and "carries H line r" and "receipt_ok H V r" and "collects H r S S'"
    and "ws_receipts S' = dict_set (r_receipt_hash r) r (ws_receipts S)"
    and "ws_lines S' = dict_set (r_receipt_hash r) line (ws_lines S)" and "pr_valid (ws_report S')"
  shows "walked H V (pre @ [line]) S'"
proof -
  have f: "file_receipts H (pre @ [line]) = insert r (file_receipts H pre)"
  proof -
    have "carries H line q \<longleftrightarrow> q = r" for q using assms(2) carries_unique by blast
    then show ?thesis by (auto simp: file_receipts_def)
  qed
  have g: "\<forall>lid g. map_of (ws_grants S') lid = Some g \<longrightarrow> (\<exists>r\<in>file_receipts H (pre @ [line]). lease_of H r ''granted'' = Some (lid, g))"
    using assms(1,4) by (auto simp: walked_def collects_def f split: option.splits)
  have v: "\<forall>r\<in>file_receipts H (pre @ [line]). \<forall>i. revokes H r i \<longrightarrow> PStr i \<in> set (ws_revoked S')"
    using assms(1,4) by (auto simp: walked_def collects_def f)
  have l: "\<forall>h l. map_of (ws_lines S') h = Some l \<longrightarrow> l \<in> set (pre @ [line]) \<and> (\<exists>r. carries H l r \<and> r_receipt_hash r = h)"
    using assms(1,2) by (auto simp: walked_def assms(6))
  have d: "distinct (map fst (ws_receipts S'))" using assms(1) by (simp add: walked_def assms(5) distinct_dict_set)
  have k: "has_key (dict_set k x t) h \<longleftrightarrow> h = k \<or> has_key t h" for k h x t
    by (simp add: has_key_def)
  note w = assms(1)[unfolded walked_def]
  have r: "(\<forall>h. has_key (ws_receipts S') h \<longleftrightarrow> (\<exists>r\<in>file_receipts H (pre @ [line]). r_receipt_hash r = h))"
    "(\<forall>h. has_key (ws_lines S') h \<longleftrightarrow> (\<exists>r\<in>file_receipts H (pre @ [line]). r_receipt_hash r = h))"
    using w by (auto simp: assms(5,6) k f)
  have m: "\<forall>h r. map_of (ws_receipts S') h = Some r \<longrightarrow> r \<in> file_receipts H (pre @ [line]) \<and> r_receipt_hash r = h"
    using w by (auto simp: assms(5) f)
  have "\<forall>l\<in>set (pre @ [line]). \<exists>r. carries H l r \<and> receipt_ok H V r" using w assms(2,3) by auto
  then show ?thesis unfolding walked_def using assms(7) r m l g v d by blast
qed

lemma walk_valid:
  assumes "rfold (prov_verify_line H V) lines walk0 = Inr S" and "pr_valid (ws_report S)"
  shows "walked H V lines S"
  using assms
proof (induction lines arbitrary: S rule: rev_induct)
  case Nil
  then show ?case by (simp add: walked_empty)
next
  case (snoc line lines)
  then obtain S1 where s: "rfold (prov_verify_line H V) lines walk0 = Inr S1" "prov_verify_line H V line S1 = Inr S"
    by (auto simp: rfold_append)
  obtain r where r: "pr_valid (ws_report S1)" "carries H line r" "receipt_ok H V r" "collects H r S1 S"
      "ws_receipts S = dict_set (r_receipt_hash r) r (ws_receipts S1)" "ws_lines S = dict_set (r_receipt_hash r) line (ws_lines S1)"
    by (rule line_valid[OF s(2) snoc.prems(2)])
  show ?case by (rule walked_step[OF snoc.IH[OF s(1) r(1)] r(2-6) snoc.prems(2)])
qed

text \<open>The state before a line of a valid file, and what the checks of that line established.\<close>

lemma walk_valid_at:
  assumes "rfold (prov_verify_line H V) (pre @ line # post) walk0 = Inr S" and "pr_valid (ws_report S)"
  obtains S1 r where "walked H V pre S1" "carries H line r" "receipt_ok H V r"
    "ext_ok H V (S1\<lparr>ws_lines := dict_set (r_receipt_hash r) line (ws_lines S1)\<rparr>) r"
proof -
  obtain S1 S2 where s: "rfold (prov_verify_line H V) pre walk0 = Inr S1" "prov_verify_line H V line S1 = Inr S2"
      "rfold (prov_verify_line H V) post S2 = Inr S"
    using assms(1) by (auto simp: rfold_append)
  have kept: "pr_valid (ws_report S2)" if "rfold (prov_verify_line H V) post S2 = Inr S" for post
    using that assms(2)
  proof (induction post arbitrary: S2)
    case (Cons l post)
    then obtain S3 where "prov_verify_line H V l S2 = Inr S3" "rfold (prov_verify_line H V) post S3 = Inr S" by auto
    then show ?case using Cons line_valid by blast
  qed simp
  obtain r where "pr_valid (ws_report S1)" "carries H line r" "receipt_ok H V r"
      "ext_ok H V (S1\<lparr>ws_lines := dict_set (r_receipt_hash r) line (ws_lines S1)\<rparr>) r"
    using line_valid[OF s(2) kept[OF s(3)]] by metis
  then show thesis using that walk_valid[OF s(1)] by blast
qed

end
