(* ===== verification/TaintLaws.thy ===== *)
theory TaintLaws
  imports ReceiptLaws AuditLaws
begin

text \<open>
  The second pass of the chain verifier: in a file it calls valid every parent is a receipt of the file, and
  a taint tag reaches every descendant unless an authorised sanitisation step on the way removed it.  The
  walk to the roots returns exactly the ancestors, each once.
\<close>

section \<open>Links between receipts\<close>

definition parent_link :: "ProvenanceReceipt set \<Rightarrow> ProvenanceReceipt \<Rightarrow> ProvenanceReceipt \<Rightarrow> bool" where
  "parent_link F a r \<longleftrightarrow> a \<in> F \<and> r \<in> F \<and> PStr (r_receipt_hash a) \<in> set (r_parents r)"

inductive descends :: "ProvenanceReceipt set \<Rightarrow> ProvenanceReceipt \<Rightarrow> ProvenanceReceipt \<Rightarrow> bool" for F a where
  itself: "a \<in> F \<Longrightarrow> descends F a a"
| child: "descends F a b \<Longrightarrow> parent_link F b c \<Longrightarrow> descends F a c"

lemma descends_mem: "descends F a b \<Longrightarrow> a \<in> F \<and> b \<in> F"
  by (induction rule: descends.induct) (auto simp: parent_link_def)

lemma descends_trans: "descends F b c \<Longrightarrow> descends F a b \<Longrightarrow> descends F a c"
  by (induction rule: descends.induct) (auto intro: descends.child)

section \<open>The taint rule of one receipt\<close>

definition inherits :: "receipt_table \<Rightarrow> ProvenanceReceipt \<Rightarrow> pyval \<Rightarrow> bool" where
  "inherits receipts r v \<longleftrightarrow> (\<exists>h p. PStr h \<in> set (r_parents r) \<and> map_of receipts h = Some p \<and> v \<in> set (r_taint p))"

lemma add_parent_taint_strings:
  assumes "rfold (add_parent_taint receipts) ps seen = Inr inherited" and "PStr t \<in> set seen"
  shows "PStr t \<in> set inherited"
  using assms
proof (induction ps arbitrary: seen)
  case (Cons p ps)
  then obtain s where s: "add_parent_taint receipts p seen = Inr s" "rfold (add_parent_taint receipts) ps s = Inr inherited"
    by auto
  have "PStr t \<in> set s" using s(1) Cons.prems(2) py_set_strings
    by (auto simp: add_parent_taint_def split: option.splits)
  then show ?case by (rule Cons.IH[OF s(2)])
qed simp

lemma inherited_strings:
  assumes "rfold (add_parent_taint receipts) ps seen = Inr inherited"
    and "PStr h \<in> set ps" and "map_of receipts h = Some p" and "PStr t \<in> set (r_taint p)"
  shows "PStr t \<in> set inherited"
  using assms(1,2)
proof (induction ps arbitrary: seen)
  case (Cons q ps)
  then obtain s where s: "add_parent_taint receipts q seen = Inr s" "rfold (add_parent_taint receipts) ps s = Inr inherited"
    by auto
  show ?case
  proof (cases "q = PStr h")
    case True
    then have "PStr t \<in> set s"
      using s(1) assms(3,4) py_set_strings[of seen "r_taint p" s t]
      by (auto simp: add_parent_taint_def lookup_raw_def py_hashable_def)
    then show ?thesis by (rule add_parent_taint_strings[OF s(2)])
  next
    case False
    then show ?thesis using Cons.IH[OF s(2)] Cons.prems(2) by simp
  qed
qed simp

text \<open>A sanitisation receipt may drop a tag it names, by an agent whose statement permits it when statements are supplied.\<close>

definition may_remove :: "ProvenanceVerifier \<Rightarrow> ProvenanceReceipt \<Rightarrow> ustr \<Rightarrow> bool" where
  "may_remove V r t \<longleftrightarrow> r_operation r = SANITISATION \<and> (\<exists>c. r_corpus r = PStr c \<and> t \<in> set (removed_tags c)) \<and>
     (pv_caps V \<noteq> [] \<longrightarrow> (\<exists>kid stmt. r_agent_key_id r = PStr kid \<and> map_of (pv_caps V) kid = Some stmt \<and> permits_sanitising stmt t))"

lemma py_mem_str [simp]: "py_mem (PStr t) xs \<longleftrightarrow> PStr t \<in> set xs"
  by (auto simp: py_mem_def list_ex_iff)

lemma difference_strings: "difference xs ys = [] \<Longrightarrow> PStr t \<in> set xs \<Longrightarrow> PStr t \<in> set ys"
  by (auto simp: difference_def filter_empty_conv)

lemma monotonic_check: "sound_check (check_monotonic_taint inherited my) (difference inherited my = [])"
  by (rule sound_checkI) (auto simp: check_monotonic_taint_def Let_def split: if_splits)

lemma sanitisation_check:
  "sound_check (check_sanitisation_taint V r inherited my)
     (\<exists>c. r_corpus r = PStr c \<and> difference my (difference inherited (map PStr (removed_tags c))) = [] \<and>
          difference (difference inherited (map PStr (removed_tags c))) my = [] \<and>
          (pv_caps V \<noteq> [] \<longrightarrow> (\<forall>t\<in>set (removed_tags c). \<exists>kid stmt. r_agent_key_id r = PStr kid \<and>
             map_of (pv_caps V) kid = Some stmt \<and> permits_sanitising stmt t)))"
proof (rule sound_checkI)
  fix R R' assume a: "check_sanitisation_taint V r inherited my R = Inr R'" "pr_valid R'"
  obtain c where c: "r_corpus r = PStr c" using a(1) by (cases "r_corpus r") (auto simp: check_sanitisation_taint_def)
  let ?exp = "difference inherited (map PStr (removed_tags c))"
  obtain R1 where r: "(if pv_caps V = [] then Inr R
            else rbind (lookup_raw (pv_caps V) (r_agent_key_id r)) (\<lambda>stmt.
              let unauthorised = filter (\<lambda>tag. case stmt of None \<Rightarrow> True | Some s \<Rightarrow> \<not> permits_sanitising s tag) (removed_tags c) in
              Inr (if unauthorised = [] then R
                   else (complain ''unauthorised taint laundering'' R)\<lparr>pr_unauthorised := pr_unauthorised R + 1\<rparr>))) = Inr R1"
      "(if difference my ?exp = [] \<and> difference ?exp my = [] then Inr R1
        else rbind (py_sort ?exp) (\<lambda>_. rbind (py_sort my) (\<lambda>_. Inr (taint_failure ''sanitisation taint mismatch'' R1)))) = Inr R'"
    using a(1) unfolding check_sanitisation_taint_def c pyval.case rbind_simps Let_def rbind_eq_Inr_iff by blast
  have e: "difference my ?exp = []" "difference ?exp my = []" "R1 = R'"
    using r(2) a(2) by (auto split: if_splits)
  have auth: "pr_valid R \<and> (pv_caps V \<noteq> [] \<longrightarrow> (\<forall>t\<in>set (removed_tags c). \<exists>kid stmt. r_agent_key_id r = PStr kid \<and>
      map_of (pv_caps V) kid = Some stmt \<and> permits_sanitising stmt t))"
    using r(1) a(2) by (cases "r_agent_key_id r")
      (auto simp: e(3) lookup_raw_def py_hashable_def Let_def filter_empty_conv split: if_splits option.splits)
  show "pr_valid R \<and> (\<exists>c. r_corpus r = PStr c \<and> difference my (difference inherited (map PStr (removed_tags c))) = [] \<and>
          difference (difference inherited (map PStr (removed_tags c))) my = [] \<and>
          (pv_caps V \<noteq> [] \<longrightarrow> (\<forall>t\<in>set (removed_tags c). \<exists>kid stmt. r_agent_key_id r = PStr kid \<and>
             map_of (pv_caps V) kid = Some stmt \<and> permits_sanitising stmt t)))"
    using auth c e by blast
qed

text \<open>The taint rule for one inherited tag.\<close>

lemma taint_check:
  "sound_check (check_taint V receipts r)
     (\<forall>t. inherits receipts r (PStr t) \<longrightarrow> PStr t \<in> set (r_taint r) \<or> may_remove V r t)"
proof (rule sound_checkI)
  fix R R' assume a: "check_taint V receipts r R = Inr R'" "pr_valid R'"
  show "pr_valid R \<and> (\<forall>t. inherits receipts r (PStr t) \<longrightarrow> PStr t \<in> set (r_taint r) \<or> may_remove V r t)"
  proof (cases "r_parents r = []")
    case True
    then show ?thesis using a by (simp add: check_taint_def inherits_def)
  next
    case False
    then obtain inherited my where i: "rfold (add_parent_taint receipts) (r_parents r) [] = Inr inherited"
        "py_set [] (r_taint r) = Inr my"
        "(if r_operation r = SANITISATION then check_sanitisation_taint V r inherited my R
          else check_monotonic_taint inherited my R) = Inr R'"
      using a(1) by (auto simp: check_taint_def)
    have inh: "PStr t \<in> set inherited" if "inherits receipts r (PStr t)" for t
      using that inherited_strings[OF i(1)] by (auto simp: inherits_def)
    have my: "PStr t \<in> set (r_taint r)" if "PStr t \<in> set my" for t using that py_set_sound[OF i(2)] by auto
    show ?thesis
    proof (cases "r_operation r = SANITISATION")
      case True
      with i(3) have "check_sanitisation_taint V r inherited my R = Inr R'" by simp
      note s = sound_checkD[OF sanitisation_check this a(2)]
      then obtain c where c: "r_corpus r = PStr c" "difference (difference inherited (map PStr (removed_tags c))) my = []"
          "pv_caps V \<noteq> [] \<longrightarrow> (\<forall>t\<in>set (removed_tags c). \<exists>kid stmt. r_agent_key_id r = PStr kid \<and>
             map_of (pv_caps V) kid = Some stmt \<and> permits_sanitising stmt t)" by blast
      have "PStr t \<in> set (r_taint r) \<or> may_remove V r t" if "inherits receipts r (PStr t)" for t
      proof (cases "t \<in> set (removed_tags c)")
        case True
        then show ?thesis using c(1,3) \<open>r_operation r = SANITISATION\<close> by (simp add: may_remove_def)
      next
        case False
        then have "PStr t \<in> set (difference inherited (map PStr (removed_tags c)))"
          using inh[OF that] by (auto simp: difference_def)
        then show ?thesis using my difference_strings[OF c(2)] by blast
      qed
      then show ?thesis using s by blast
    next
      case False
      with i(3) have "check_monotonic_taint inherited my R = Inr R'" by simp
      note s = sound_checkD[OF monotonic_check this a(2)]
      then show ?thesis using inh my difference_strings by blast
    qed
  qed
qed

lemma parent_check: "sound_check (check_parent_link receipts p) (in_dict p receipts = Inr True)"
  by (rule sound_checkI) (auto simp: check_parent_link_def split: if_splits)

lemma dag_check:
  "sound_check (verify_dag_and_taint V receipts)
     (\<forall>(h, r)\<in>set receipts. (\<forall>p\<in>set (r_parents r). in_dict p receipts = Inr True) \<and>
        (\<forall>t. inherits receipts r (PStr t) \<longrightarrow> PStr t \<in> set (r_taint r) \<or> may_remove V r t))"
proof -
  have "sound_check (\<lambda>R. rbind (rfold (check_parent_link receipts) (r_parents r) R) (check_taint V receipts r))
     ((\<forall>p\<in>set (r_parents r). in_dict p receipts = Inr True) \<and>
      (\<forall>t. inherits receipts r (PStr t) \<longrightarrow> PStr t \<in> set (r_taint r) \<or> may_remove V r t))" for r
  proof (rule sound_checkI)
    fix R R' assume a: "rbind (rfold (check_parent_link receipts) (r_parents r) R) (check_taint V receipts r) = Inr R'" "pr_valid R'"
    then obtain R1 where r: "rfold (check_parent_link receipts) (r_parents r) R = Inr R1" "check_taint V receipts r R1 = Inr R'"
      by auto
    note t = sound_checkD[OF taint_check r(2) a(2)]
    note p = sound_checkD[OF sound_fold[OF parent_check] r(1) t[THEN conjunct1]]
    show "pr_valid R \<and> (\<forall>p\<in>set (r_parents r). in_dict p receipts = Inr True) \<and>
      (\<forall>t. inherits receipts r (PStr t) \<longrightarrow> PStr t \<in> set (r_taint r) \<or> may_remove V r t)" using t p by blast
  qed
  then show ?thesis unfolding verify_dag_and_taint_def case_prod_unfold by (intro sound_fold)
qed

section \<open>A valid file\<close>

text \<open>No two receipts of the file have the same SHA-256.\<close>

definition distinct_hashes :: "host \<Rightarrow> ustr list \<Rightarrow> bool" where
  "distinct_hashes H lines \<longleftrightarrow> digest32 (h_env H) \<and> collision_free (h_env H) (r_jws ` file_receipts H lines)"

lemma same_hash_same_receipt:
  assumes "distinct_hashes H lines" and "a \<in> file_receipts H lines" and "b \<in> file_receipts H lines"
    and "r_receipt_hash a = r_receipt_hash b"
  shows "a = b"
proof -
  have h: "receipt_hash_of H (r_jws a) = Inr (r_receipt_hash a)" "receipt_hash_of H (r_jws b) = Inr (r_receipt_hash b)"
    "from_jws H True False (r_jws a) = Inr a" "from_jws H True False (r_jws b) = Inr b"
    using assms(2,3) carries_hash unfolding file_receipts_def carries_def by blast+
  then have "sha256_hex (h_env H) (r_jws a) = sha256_hex (h_env H) (r_jws b)"
    using assms(4) by (auto simp: receipt_hash_of_def ascii_encode_def split: if_splits) (metis same_append_eq)
  then have "r_jws a = r_jws b"
    using assms(1-3) by (auto simp: distinct_hashes_def sha256_hex_inj collision_free_def inj_on_def)
  then show ?thesis using h(3,4) by (metis sum.inject(2))
qed

lemma valid_chainE:
  assumes "prov_verify_chain H V lines = Inr R" and "pr_valid R" and "distinct_hashes H lines"
  obtains T where "\<And>h r. map_of T h = Some r \<longleftrightarrow> r \<in> file_receipts H lines \<and> r_receipt_hash r = h"
    "\<And>r p. r \<in> file_receipts H lines \<Longrightarrow> p \<in> set (r_parents r) \<Longrightarrow> in_dict p T = Inr True"
    "\<And>r t. r \<in> file_receipts H lines \<Longrightarrow> inherits T r (PStr t) \<Longrightarrow> PStr t \<in> set (r_taint r) \<or> may_remove V r t"
proof -
  obtain S where s: "rfold (prov_verify_line H V) lines walk0 = Inr S"
      "verify_dag_and_taint V (ws_receipts S) (ws_report S) = Inr R"
    using assms(1) by (auto simp: prov_verify_chain_def)
  note d = sound_checkD[OF dag_check s(2) assms(2)]
  have w: "walked H V lines S" using walk_valid[OF s(1)] d by blast
  let ?T = "ws_receipts S"
  have t: "map_of ?T h = Some r \<longleftrightarrow> r \<in> file_receipts H lines \<and> r_receipt_hash r = h" for h r
  proof
    show "map_of ?T h = Some r \<Longrightarrow> r \<in> file_receipts H lines \<and> r_receipt_hash r = h" using w unfolding walked_def by blast
  next
    assume r: "r \<in> file_receipts H lines \<and> r_receipt_hash r = h"
    then have "has_key ?T h" using w unfolding walked_def by blast
    then obtain r' where m: "map_of ?T h = Some r'" by (auto simp: has_key_def)
    then have "r' \<in> file_receipts H lines \<and> r_receipt_hash r' = h" using w unfolding walked_def by blast
    then show "map_of ?T h = Some r" using m r same_hash_same_receipt[OF assms(3)] by blast
  qed
  have mem: "(r_receipt_hash r, r) \<in> set ?T" if "r \<in> file_receipts H lines" for r
    using that t[of "r_receipt_hash r" r] by (auto dest: map_of_SomeD)
  show thesis using that[of ?T] t d mem by blast
qed

definition authorised_removal :: "host \<Rightarrow> ProvenanceVerifier \<Rightarrow> ProvenanceReceipt \<Rightarrow> ustr \<Rightarrow> bool" where
  "authorised_removal H V r t \<longleftrightarrow> r_operation r = SANITISATION \<and> (\<exists>c. r_corpus r = PStr c \<and> t \<in> set (removed_tags c)) \<and>
     (pv_caps V \<noteq> [] \<longrightarrow> (\<exists>kid stmt. r_agent_key_id r = PStr kid \<and> map_of (pv_caps V) kid = Some stmt \<and>
        verify_statement H V stmt kid \<and> permits_sanitising stmt t))"

lemma receipts_ok:
  assumes "prov_verify_chain H V lines = Inr R" and "pr_valid R"
  shows "\<forall>line\<in>set lines. \<exists>r. carries H line r \<and> receipt_ok H V r"
proof -
  obtain S where s: "rfold (prov_verify_line H V) lines walk0 = Inr S"
      "verify_dag_and_taint V (ws_receipts S) (ws_report S) = Inr R"
    using assms(1) by (auto simp: prov_verify_chain_def)
  have "walked H V lines S" using walk_valid[OF s(1)] sound_checkD[OF dag_check s(2) assms(2)] by blast
  then show ?thesis unfolding walked_def by blast
qed

lemma file_receipt_ok:
  assumes "prov_verify_chain H V lines = Inr R" and "pr_valid R" and "r \<in> file_receipts H lines"
  shows "receipt_ok H V r"
  using receipts_ok[OF assms(1,2)] assms(3) carries_unique unfolding file_receipts_def by blast

lemma parents_in_file:
  assumes "prov_verify_chain H V lines = Inr R" and "pr_valid R" and "distinct_hashes H lines"
    and "r \<in> file_receipts H lines" and "p \<in> set (r_parents r)"
  shows "\<exists>a\<in>file_receipts H lines. p = PStr (r_receipt_hash a)"
proof -
  obtain T where t: "\<And>h r. map_of T h = Some r \<longleftrightarrow> r \<in> file_receipts H lines \<and> r_receipt_hash r = h"
    "\<And>r p. r \<in> file_receipts H lines \<Longrightarrow> p \<in> set (r_parents r) \<Longrightarrow> in_dict p T = Inr True"
    by (rule valid_chainE[OF assms(1-3)]) blast
  have "in_dict p T = Inr True" by (rule t(2)[OF assms(4,5)])
  then obtain h where "p = PStr h" "has_key T h" by (auto simp: in_dict_def is_str_iff split: if_splits)
  then show ?thesis using t(1) by (auto simp: has_key_def)
qed

lemma taint_step:
  assumes "prov_verify_chain H V lines = Inr R" and "pr_valid R" and "distinct_hashes H lines"
    and "parent_link (file_receipts H lines) a r" and "PStr t \<in> set (r_taint a)"
  shows "PStr t \<in> set (r_taint r) \<or> authorised_removal H V r t"
proof -
  obtain T where t: "\<And>h r. map_of T h = Some r \<longleftrightarrow> r \<in> file_receipts H lines \<and> r_receipt_hash r = h"
    "\<And>r t. r \<in> file_receipts H lines \<Longrightarrow> inherits T r (PStr t) \<Longrightarrow> PStr t \<in> set (r_taint r) \<or> may_remove V r t"
    by (rule valid_chainE[OF assms(1-3)]) blast
  have r: "r \<in> file_receipts H lines" using assms(4) by (simp add: parent_link_def)
  have "inherits T r (PStr t)" using assms(4,5) t(1) unfolding inherits_def parent_link_def by blast
  from t(2)[OF r this] show ?thesis
    using file_receipt_ok[OF assms(1,2) r]
    by (auto simp: may_remove_def authorised_removal_def receipt_ok_def conformant_def)
qed

lemma taint_path:
  assumes "prov_verify_chain H V lines = Inr R" and "pr_valid R" and "distinct_hashes H lines"
    and "descends (file_receipts H lines) a r" and "PStr t \<in> set (r_taint a)"
  shows "PStr t \<in> set (r_taint r) \<or>
    (\<exists>s. descends (file_receipts H lines) a s \<and> descends (file_receipts H lines) s r \<and> authorised_removal H V s t)"
  using assms(4,5)
proof (induction rule: descends.induct)
  case itself
  then show ?case by simp
next
  case (child b c)
  have c: "descends (file_receipts H lines) c c" using child.hyps(2) by (auto simp: parent_link_def intro: descends.itself)
  show ?case using child taint_step[OF assms(1-3) child.hyps(2)] c descends.child by metis
qed

section \<open>Order in the file\<close>

lemma chain_at:
  assumes "prov_verify_chain H V (pre @ line # post) = Inr R" and "pr_valid R"
  obtains S r where "walked H V pre S" "carries H line r" "receipt_ok H V r"
    "ext_ok H V (S\<lparr>ws_lines := dict_set (r_receipt_hash r) line (ws_lines S)\<rparr>) r"
proof -
  obtain S where s: "rfold (prov_verify_line H V) (pre @ line # post) walk0 = Inr S"
      "verify_dag_and_taint V (ws_receipts S) (ws_report S) = Inr R"
    using assms(1) by (auto simp: prov_verify_chain_def)
  have "pr_valid (ws_report S)" using sound_checkD[OF dag_check s(2) assms(2)] by blast
  then show thesis using walk_valid_at[OF s(1)] that by blast
qed

lemma revoked_then_cited:
  assumes "prov_verify_chain H V (pre @ line # post) = Inr R" and "pr_valid R"
    and "q \<in> file_receipts H pre" and "revokes H q i" and "carries H line r"
  shows "PStr i \<notin> set (cited_authority H r)"
proof -
  obtain S r' where s: "walked H V pre S" "carries H line r'" "ext_ok H V (S\<lparr>ws_lines := dict_set (r_receipt_hash r') line (ws_lines S)\<rparr>) r'"
    using chain_at[OF assms(1,2)] by metis
  have "r' = r" by (rule carries_unique[OF s(2) assms(5)])
  moreover have "PStr i \<in> set (ws_revoked S)" using s(1) assms(3,4) unfolding walked_def by blast
  ultimately show ?thesis using s(3) by (simp add: ext_ok_def)
qed

lemma redeemed_after_granted:
  assumes "prov_verify_chain H V (pre @ line # post) = Inr R" and "pr_valid R"
    and "carries H line r" and "lease_of H r ''redeemed'' = Some (lid, lease)"
  shows "\<exists>q\<in>file_receipts H pre. \<exists>g. lease_of H q ''granted'' = Some (lid, g) \<and> within_grant H r g lease"
proof -
  obtain S r' where s: "walked H V pre S" "carries H line r'" "ext_ok H V (S\<lparr>ws_lines := dict_set (r_receipt_hash r') line (ws_lines S)\<rparr>) r'"
    using chain_at[OF assms(1,2)] by metis
  have r: "r' = r" by (rule carries_unique[OF s(2) assms(3)])
  obtain g where g: "map_of (ws_grants S) lid = Some g" "within_grant H r g lease"
    using s(3) assms(4) unfolding r ext_ok_def by fastforce
  show ?thesis using s(1) g unfolding walked_def by blast
qed

section \<open>The walk to the roots\<close>

text \<open>The receipts of a table that the receipt \<open>h\<close> descends from, itself included.\<close>

inductive upstream :: "receipt_table \<Rightarrow> ustr \<Rightarrow> ProvenanceReceipt \<Rightarrow> bool" for T h where
  start: "map_of T h = Some r \<Longrightarrow> upstream T h r"
| parent: "upstream T h q \<Longrightarrow> PStr k \<in> set (r_parents q) \<Longrightarrow> map_of T k = Some r \<Longrightarrow> upstream T h r"

definition keyed :: "receipt_table \<Rightarrow> bool" where
  "keyed T \<longleftrightarrow> (\<forall>h r. map_of T h = Some r \<longrightarrow> r_receipt_hash r = h)"

definition trace_inv :: "receipt_table \<Rightarrow> ustr \<Rightarrow> pyval list \<Rightarrow> pyval list \<Rightarrow> ProvenanceReceipt list \<Rightarrow> bool" where
  "trace_inv T h queue visited order \<longleftrightarrow>
     set order = {r. \<exists>k. PStr k \<in> set visited \<and> map_of T k = Some r} \<and> distinct (map r_receipt_hash order) \<and>
     (\<forall>r\<in>set order. \<forall>k. PStr k \<in> set (r_parents r) \<longrightarrow> PStr k \<in> set visited \<union> set queue) \<and>
     (\<forall>k r. PStr k \<in> set visited \<union> set queue \<longrightarrow> map_of T k = Some r \<longrightarrow> upstream T h r) \<and>
     PStr h \<in> set visited \<union> set queue"

lemma trace_inv_visit:
  assumes "trace_inv T h (PStr k # queue) visited order" and "map_of T k = Some r" and "PStr k \<notin> set visited" and "keyed T"
  shows "trace_inv T h (queue @ r_parents r) (visited @ [PStr k]) (order @ [r])"
proof -
  have r: "r_receipt_hash r = k" "upstream T h r" using assms by (auto simp: keyed_def trace_inv_def)
  have "k \<notin> r_receipt_hash ` set order"
  proof
    assume "k \<in> r_receipt_hash ` set order"
    then obtain q k' where "r_receipt_hash q = k" "PStr k' \<in> set visited" "map_of T k' = Some q"
      using assms(1) by (auto simp: trace_inv_def)
    then show False using assms(3,4) by (auto simp: keyed_def)
  qed
  moreover have "upstream T h q" if "PStr j \<in> set (r_parents r)" "map_of T j = Some q" for j q
    using upstream.parent[OF r(2)] that by blast
  ultimately show ?thesis using assms(1,2) r by (auto simp: trace_inv_def)
qed

lemma trace_inv_skip:
  assumes "trace_inv T h (v # queue) visited order" and "py_mem v visited"
  shows "trace_inv T h queue visited order"
proof -
  have "v \<noteq> PStr k \<or> PStr k \<in> set visited" for k using assms(2) by auto
  then have e: "PStr k \<in> set visited \<union> set (v # queue) \<longleftrightarrow> PStr k \<in> set visited \<union> set queue" for k by auto
  show ?thesis using assms(1) unfolding trace_inv_def e .
qed

lemma trace_inv_dangling:
  assumes "trace_inv T h (v # queue) visited order" and "is_str v \<Longrightarrow> map_of T (str_of v) = None"
  shows "trace_inv T h queue (visited @ [v]) order"
  using assms by (auto simp: trace_inv_def)

lemma trace_loop_inv:
  assumes "trace_loop T queue visited order = Inr out" and "trace_inv T h queue visited order" and "keyed T"
  shows "\<exists>visited'. trace_inv T h [] visited' out"
  using assms
proof (induction T queue visited order rule: trace_loop.induct)
  case (1 T visited order)
  then show ?case by auto
next
  case (2 T v queue visited order)
  show ?case
  proof (cases "py_mem v visited")
    case True
    then show ?thesis using 2 trace_inv_skip by (auto split: if_splits)
  next
    case False
    show ?thesis
    proof (cases "if is_str v then map_of T (str_of v) else None")
      case None
      have "trace_inv T h queue (visited @ [v]) order"
        using trace_inv_dangling[OF "2.prems"(2)] None by (simp split: if_splits)
      then show ?thesis using 2 False None by (auto split: if_splits)
    next
      case (Some r)
      then obtain k where k: "v = PStr k" "map_of T k = Some r" by (auto simp: is_str_iff split: if_splits)
      have "trace_inv T h (queue @ r_parents r) (visited @ [v]) (order @ [r])"
        using trace_inv_visit "2.prems"(2,3) False k by simp
      then show ?thesis using 2 False Some by (auto split: if_splits)
    qed
  qed
qed

lemma trace_inv_start: "trace_inv T h [PStr h] [] []"
  by (auto simp: trace_inv_def intro: upstream.start)

lemma trace_inv_end:
  assumes "trace_inv T h [] visited out"
  shows "set out = {r. upstream T h r}"
proof
  have i: "set out = {r. \<exists>k. PStr k \<in> set visited \<and> map_of T k = Some r}"
    "\<And>r k. r \<in> set out \<Longrightarrow> PStr k \<in> set (r_parents r) \<Longrightarrow> PStr k \<in> set visited"
    "\<And>k r. PStr k \<in> set visited \<Longrightarrow> map_of T k = Some r \<Longrightarrow> upstream T h r" "PStr h \<in> set visited"
    using assms unfolding trace_inv_def list.set Un_empty_right by blast+
  show "set out \<subseteq> {r. upstream T h r}" using i(1,3) by blast
  have "r \<in> set out" if "upstream T h r" for r
    using that
  proof (induction rule: upstream.induct)
    case (start r)
    then show ?case unfolding i(1) using i(4) by blast
  next
    case (parent q k r)
    then have "PStr k \<in> set visited" using i(2) by blast
    then show ?case unfolding i(1) using parent by blast
  qed
  then show "{r. upstream T h r} \<subseteq> set out" by blast
qed

lemma load_line_keyed:
  assumes "load_line H line T = Inr T'" and "keyed T"
  shows "keyed T'"
proof -
  have "T' = T \<or> (\<exists>r. T' = dict_set (r_receipt_hash r) r T)"
    using assms(1) unfolding load_line_def by (auto split: sum.splits pyexc.splits)
  then show ?thesis using assms(2) by (auto simp: keyed_def split: if_splits)
qed

lemma load_all_keyed: "load_all H lines = Inr T \<Longrightarrow> keyed T"
  unfolding load_all_def by (erule rfold_invariant[where P = keyed]) (auto simp: keyed_def dest: load_line_keyed)

lemma trace_upstream:
  assumes "trace H h lines = Inr out" and "load_all H lines = Inr T"
  shows "set out = {r. upstream T h r}" "distinct (map r_receipt_hash out)"
proof -
  have "trace_loop T [PStr h] [] [] = Inr out" using assms by (auto simp: trace_def split: if_splits)
  then obtain visited where v: "trace_inv T h [] visited out"
    using trace_loop_inv[OF _ trace_inv_start load_all_keyed[OF assms(2)]] by blast
  show "set out = {r. upstream T h r}" by (rule trace_inv_end[OF v])
  show "distinct (map r_receipt_hash out)" using v by (simp add: trace_inv_def)
qed

lemma trace_loop_total:
  assumes "\<forall>v\<in>set queue. is_str v" and "\<forall>h r. map_of T h = Some r \<longrightarrow> (\<forall>v\<in>set (r_parents r). is_str v)"
  shows "\<exists>out. trace_loop T queue visited order = Inr out"
  using assms
proof (induction T queue visited order rule: trace_loop.induct)
  case (2 T v queue visited order)
  obtain k where k: "v = PStr k" using "2.prems"(1) by (auto simp: is_str_iff)
  show ?case
  proof (cases "map_of T k")
    case (Some r)
    then have "\<forall>v\<in>set (queue @ r_parents r). is_str v" using "2.prems" by auto
    then show ?thesis using 2 Some by (auto simp: k py_hashable_def)
  qed (use 2 in \<open>auto simp: k py_hashable_def\<close>)
qed simp

end
