(* ===== verification/ReceiptRound.thy ===== *)
theory ReceiptRound
  imports TaintLaws
begin

text \<open>
  What the signer writes, the parser reads: the canonical encoding is a normal form that the strict parser
  accepts, a signed receipt parses back to itself, and the line the logger appends passes every check of
  the verifier.
\<close>

section \<open>The canonical form is a fixed point\<close>

definition normal_form :: "pyval \<Rightarrow> pyval \<Rightarrow> bool" where
  "normal_form v w \<longleftrightarrow> reorder_keys_utf16 w = Inr w \<and> wf_val w \<and> (reject_floats v = Inr () \<longrightarrow> reject_floats w = Inr ())"

lemma reorder_normal: "reorder_keys_utf16 v = Inr w \<Longrightarrow> wf_val v \<Longrightarrow> normal_form v w"
proof (induction v arbitrary: w)
  case (PList xs)
  then obtain ys where y: "w = PList ys" "list_all2 (\<lambda>x y. reorder_keys_utf16 x = Inr y) xs ys"
    by (auto simp: rmap_eq_Inr_iff)
  have n: "\<exists>x\<in>set xs. normal_form x z" if "z \<in> set ys" for z
    using list_all2_members[OF y(2) that] PList.IH PList.prems(2) by auto
  have "rmap reorder_keys_utf16 ys = Inr (map id ys)" using n by (intro rmap_Inr_all) (auto simp: normal_form_def)
  then show ?case using n by (fastforce simp: normal_form_def y(1))
next
  case (PDict d)
  let ?s = "sort_key (utf16_be \<circ> fst) d"
  obtain ks d' where k: "rmap (\<lambda>kv. utf16_key (fst kv)) d = Inr ks" "w = PDict d'"
      "rmap (\<lambda>kv. rbind (reorder_keys_utf16 (snd kv)) (\<lambda>v. Inr (fst kv, v))) ?s = Inr d'"
    using PDict.prems(1) by auto
  note l = k(3)[unfolded rmap_pairs]
  have fs: "map fst d' = map fst ?s" using l by (induction rule: list_all2_induct) auto
  have n: "\<exists>kv\<in>set d. fst kv' = fst kv \<and> normal_form (snd kv) (snd kv')" if kv': "kv' \<in> set d'" for kv'
  proof -
    obtain kv where "kv \<in> set ?s" "fst kv' = fst kv" "reorder_keys_utf16 (snd kv) = Inr (snd kv')"
      using list_all2_members[OF l kv'] by blast
    moreover from this have "kv \<in> set d" "wf_val (snd kv)" using PDict.prems(2) by auto
    ultimately show ?thesis using PDict.IH[of kv "snd kv" "snd kv'"] snds.intros[of kv] by blast
  qed
  have "sorted (map (utf16_be \<circ> fst) d')" using fs sorted_sort_key[of "utf16_be \<circ> fst" d] by (metis map_map)
  then have s: "sort_key (utf16_be \<circ> fst) d' = d'" by (rule sort_key_id_if_sorted)
  have u: "\<exists>ks'. rmap (\<lambda>kv. utf16_key (fst kv)) d' = Inr ks'"
  proof -
    have "\<forall>kv'\<in>set d'. \<exists>x. utf16_key (fst kv') = Inr x" using n rmap_member[OF k(1)] by metis
    then have "rmap (\<lambda>kv. utf16_key (fst kv)) d' = Inr (map (\<lambda>kv. projr (utf16_key (fst kv))) d')"
      by (intro rmap_Inr_all) force
    then show ?thesis by blast
  qed
  have "rmap (\<lambda>kv. rbind (reorder_keys_utf16 (snd kv)) (\<lambda>v. Inr (fst kv, v))) d' = Inr (map id d')"
    using n by (intro rmap_Inr_all) (force simp: normal_form_def)
  then have "reorder_keys_utf16 (PDict d') = Inr (PDict d')" using u by (auto simp: s)
  moreover have "wf_val (PDict d')"
  proof -
    have "distinct (map fst d')" using fs PDict.prems(2) by (simp add: distinct_map_sort_key)
    then show ?thesis using n PDict.prems(2) by (fastforce simp: normal_form_def)
  qed
  moreover have "reject_floats (PDict d') = Inr ()" if "reject_floats (PDict d) = Inr ()"
    using n that by (fastforce simp: normal_form_def)
  ultimately show ?case by (simp add: normal_form_def k(2) del: reorder_keys_utf16.simps)
qed (auto simp: normal_form_def)

text \<open>Reading the canonical bytes of an object gives its normal form, which has the same bytes.\<close>

lemma length_dec_nat: "n < 10 ^ Suc k \<Longrightarrow> length (dec_nat n) \<le> Suc k"
proof (induction k arbitrary: n)
  case 0
  then show ?case by (simp add: dec_nat.simps)
next
  case (Suc k)
  have "n div 10 < 10 ^ Suc k" using Suc.prems by (simp add: less_mult_imp_div_less)
  then show ?case using Suc.IH[of "n div 10"] by (subst dec_nat.simps) simp
qed

lemma safe_int_short:
  assumes "MIN_SAFE_INT \<le> i" and "i \<le> MAX_SAFE_INT"
  shows "length (dec_nat (nat \<bar>i\<bar>)) \<le> 4300"
proof -
  have "nat \<bar>i\<bar> < 10 ^ Suc 16" using assms by (auto simp: MIN_SAFE_INT_def MAX_SAFE_INT_def)
  then have "length (dec_nat (nat \<bar>i\<bar>)) \<le> Suc 16" by (rule length_dec_nat)
  then show ?thesis by simp
qed

lemma short_ints_safe: "reject_floats v = Inr () \<Longrightarrow> short_ints v"
proof (induction v)
  case (PDict d)
  then show ?case by (auto simp: safe_int_short)
qed (auto simp: safe_int_short)

lemma wf_distinct_keys: "wf_val v \<Longrightarrow> distinct_keys v"
proof (induction v)
  case (PDict d)
  then show ?case by auto
qed auto

lemma canonical_json_object:
  assumes "canonical_json E (PDict d) = Inr b" and "wf_val (PDict d)"
  obtains e where "reorder_keys_utf16 (PDict d) = Inr (PDict e)" "json_loads_bytes fp hook b = Inr (PDict e)"
    "canonical_json E (PDict e) = Inr b" "wf_bytes b" "wf_val (PDict e)"
proof -
  obtain w where w: "reject_floats (PDict d) = Inr ()" "reorder_keys_utf16 (PDict d) = Inr w"
      "utf8_encode_strict (json_text (float_repr E) w) = Inr b"
    using assms(1) by (auto simp: canonical_json_eq simp del: reject_floats.simps reorder_keys_utf16.simps)
  obtain e where e: "w = PDict e" using reorder_shape(2)[OF w(2)] by blast
  have n: "reorder_keys_utf16 w = Inr w" "wf_val w" "reject_floats w = Inr ()"
    using reorder_normal[OF w(2) assms(2)] w(1) unfolding normal_form_def by blast+
  have f: "float_free w" "scalar_val w" "readable w"
    using reject_floats_float_free[OF n(3)] reject_floats_scalar[OF n(3,2)] short_ints_safe[OF n(3)] wf_distinct_keys[OF n(2)]
    by (simp_all add: readable_def)
  have s: "scalar_str (json_text (float_repr E) w)" by (rule scalar_json_text[OF f(1,2)])
  have b: "b = utf8_encode (json_text (float_repr E) w)" using w(3) by (simp add: utf8_encode_strict_scalar[OF s])
  show thesis
  proof (rule that[of e])
    show "reorder_keys_utf16 (PDict d) = Inr (PDict e)" using w(2) e by simp
    show "json_loads_bytes fp hook b = Inr (PDict e)" using json_loads_object f(3) s b unfolding e by blast
    show "canonical_json E (PDict e) = Inr b" using n(1,3) w(3) unfolding e canonical_json_eq by blast
    show "wf_bytes b" unfolding b by (rule wf_bytes_utf8_encode[OF s])
    show "wf_val (PDict e)" using n(2) e by simp
  qed
qed

section \<open>Splitting a compact JWS\<close>

lemma split_on_plain: "c \<notin> set a \<Longrightarrow> split_on c a = [a]"
  by (induction a) auto

lemma split_on_append: "c \<notin> set a \<Longrightarrow> split_on c (a @ c # s) = a # split_on c s"
  by (induction a) auto

lemma b64_chars:
  assumes "wf_bytes bs"
  shows "46 \<notin> set (b64 bs)" "list_all (\<lambda>c. c < 128) (b64 bs)"
proof -
  show "list_all (\<lambda>c. c < 128) (b64 bs)"
    using b64_core_chars[OF assms] by (auto simp: b64_eq_core[OF assms] list_all_iff)
  show "46 \<notin> set (b64 bs)"
    using b64_core_val[OF assms, of 46] by (auto simp: b64_eq_core[OF assms] b64_val_def)
qed

lemma lit_dot [simp]: "lit ''.'' = [46]"
  by (simp add: lit_def)

section \<open>Receipts the signer can print\<close>

definition text_field :: "pyval \<Rightarrow> bool" where
  "text_field v \<longleftrightarrow> is_str v \<and> scalar_str (str_of v)"

definition plain_receipt :: "ustr \<Rightarrow> ProvenanceReceipt \<Rightarrow> bool" where
  "plain_receipt kid r \<longleftrightarrow> text_field (r_agent_id r) \<and> r_agent_key_id r = PStr kid \<and> scalar_str kid \<and>
     (\<forall>f. text_field (field_value r f)) \<and> (\<forall>v\<in>set (r_parents r) \<union> set (r_taint r). text_field v) \<and>
     (r_tenant r = PNone \<or> text_field (r_tenant r)) \<and>
     (\<exists>i. r_issued_at r = PInt i \<and> MIN_SAFE_INT \<le> i \<and> i \<le> MAX_SAFE_INT) \<and> r_x_bilateral r = PNone"

text \<open>The values a signed dictionary holds at the top: printed and read back as they are.\<close>

definition flat_value :: "pyval \<Rightarrow> bool" where
  "flat_value v \<longleftrightarrow> wf_val v \<and> reject_floats v = Inr () \<and> reorder_keys_utf16 v = Inr v"

lemma flat_text: "text_field v \<Longrightarrow> flat_value v"
  by (auto simp: text_field_def is_str_iff flat_value_def scalar_str_def wf_str_def list_all_iff)

lemma flat_texts: "\<forall>v\<in>set xs. text_field v \<Longrightarrow> flat_value (PList xs)"
proof -
  assume a: "\<forall>v\<in>set xs. text_field v"
  then have "rmap reorder_keys_utf16 xs = Inr (map id xs)" by (intro rmap_Inr_all) (use flat_text in \<open>force simp: flat_value_def\<close>)
  then show ?thesis using a flat_text by (auto simp: flat_value_def)
qed

lemma text_lit [simp]: "text_field (PStr (lit s))"
proof -
  have "of_char ch < (256::nat)" for ch by (metis of_char_mod_256 mod_less_divisor zero_less_numeral)
  then have "\<not> (0xD800::nat) \<le> of_char ch" for ch using less_trans[of "of_char ch" 256 "0xD800::nat"] by (simp add: not_le)
  then show ?thesis by (auto simp: text_field_def scalar_str_iff is_surrogate_def) (auto simp: lit_def)
qed

definition flat_dict :: "pydict \<Rightarrow> bool" where
  "flat_dict d \<longleftrightarrow> distinct (map fst d) \<and> (\<forall>kv\<in>set d. scalar_str (fst kv) \<and> flat_value (snd kv))"

lemma flat_dict_canonical:
  assumes "flat_dict d"
  obtains b e where "canonical_json E (PDict d) = Inr b" "\<And>fp hook. json_loads_bytes fp hook b = Inr (PDict e)"
    "canonical_json E (PDict e) = Inr b" "wf_bytes b" "map_of e = map_of d"
proof -
  have w: "wf_val (PDict d)" and f: "reject_floats (PDict d) = Inr ()"
    using assms by (auto simp: flat_dict_def flat_value_def scalar_str_def wf_str_def list_all_iff)
  obtain b where b: "canonical_json E (PDict d) = Inr b" using canonical_json_total[OF w f] by blast
  have "\<exists>e. reorder_keys_utf16 (PDict d) = Inr (PDict e) \<and> (\<forall>fp hook. json_loads_bytes fp hook b = Inr (PDict e)) \<and>
      canonical_json E (PDict e) = Inr b \<and> wf_bytes b"
  proof -
    obtain e where e: "reorder_keys_utf16 (PDict d) = Inr (PDict e)" "canonical_json E (PDict e) = Inr b" "wf_bytes b"
      by (rule canonical_json_object[OF b w])
    have "json_loads_bytes fp hook b = Inr (PDict e)" for fp hook
      by (rule canonical_json_object[OF b w, of fp hook]) (use e(1) in auto)
    then show ?thesis using e by blast
  qed
  then obtain e where e: "reorder_keys_utf16 (PDict d) = Inr (PDict e)" "\<And>fp hook. json_loads_bytes fp hook b = Inr (PDict e)"
      "canonical_json E (PDict e) = Inr b" "wf_bytes b" by blast
  have "map_of e = map_of d"
  proof (rule reorder_dict[OF e(1)])
    show "distinct (map fst d)" "\<forall>kv\<in>set d. wf_str (fst kv)" using w by auto
    fix d' assume d': "PDict e = PDict d'" "fst ` set d' = fst ` set d"
      and m: "\<And>k v. map_of d k = Some v \<Longrightarrow> \<exists>v'. reorder_keys_utf16 v = Inr v' \<and> map_of d' k = Some v'"
    show "map_of e = map_of d"
    proof
      fix k show "map_of e k = map_of d k"
      proof (cases "map_of d k")
        case None
        then have "k \<notin> fst ` set d'" using d'(2) by (simp add: map_of_eq_None_iff)
        then have "map_of d' k = None" by (simp add: map_of_eq_None_iff)
        then show ?thesis using None d'(1) by simp
      next
        case (Some v)
        then have "flat_value v" using assms by (auto simp: flat_dict_def dest: map_of_SomeD)
        then show ?thesis using m[OF Some] Some d'(1) by (auto simp: flat_value_def)
      qed
    qed
  qed
  then show thesis using that b e by blast
qed

lemma receipt_of_payload_cong: "map_of e = map_of d \<Longrightarrow> receipt_of_payload e = receipt_of_payload d"
  by (simp add: receipt_of_payload_def require_key_def dict_get_def)

lemma field_name_inj [simp]: "field_name f = field_name g \<longleftrightarrow> f = g"
  by (cases f; cases g) simp_all

lemma map_of_fields:
  "map_of (map (\<lambda>f. (field_name f, g f)) xs) (field_name f) = (if f \<in> set xs then Some (g f) else None)"
  by (induction xs) auto

lemma map_of_not_fields:
  "\<forall>f. k \<noteq> field_name f \<Longrightarrow> map_of (map (\<lambda>f. (field_name f, g f)) xs) k = None"
  by (induction xs) auto

section \<open>The signed payload\<close>

lemma sequence_sorted: "sequence_errors xs = Inr [] \<Longrightarrow> utf16_sorted xs = Inr xs"
  by (auto simp: sequence_errors_def split: if_splits)

lemma structure_sorted:
  assumes "structural_errors r = Inr []"
  shows "utf16_sorted (r_parents r) = Inr (r_parents r)" "utf16_sorted (r_taint r) = Inr (r_taint r)"
  using assms by (auto simp: structural_errors_def intro: sequence_sorted)

definition payload_dict :: "ProvenanceReceipt \<Rightarrow> pydict" where
  "payload_dict r =
     [(lit ''iss'', PStr (lit ''raucle-detect/provenance'')), (lit ''typ'', PStr EXPECTED_TYP),
      (lit ''iat'', r_issued_at r), (lit ''agent_id'', r_agent_id r), (lit ''agent_key_id'', r_agent_key_id r),
      (lit ''operation'', PStr (op_value (r_operation r))), (lit ''parents'', PList (r_parents r)), (lit ''taint'', PList (r_taint r))]
     @ map (\<lambda>f. (field_name f, field_value r f)) (filter (\<lambda>f. truthy (field_value r f)) optional_fields)
     @ (if r_tenant r = PNone then [] else [(lit ''tenant'', r_tenant r)])"

lemma payload_sorted:
  "structural_errors r = Inr [] \<Longrightarrow> plain_receipt kid r \<Longrightarrow> payload r = Inr (payload_dict r)"
  by (simp add: payload_def structure_sorted payload_dict_def plain_receipt_def)

lemma flat_append:
  "flat_dict (d @ e) \<longleftrightarrow> flat_dict d \<and> flat_dict e \<and> fst ` set d \<inter> fst ` set e = {}"
  by (auto simp: flat_dict_def)

lemma field_name_other [simp]:
  "field_name f \<noteq> lit ''iss''" "field_name f \<noteq> lit ''typ''" "field_name f \<noteq> lit ''iat''" "field_name f \<noteq> lit ''agent_id''"
  "field_name f \<noteq> lit ''agent_key_id''" "field_name f \<noteq> lit ''operation''" "field_name f \<noteq> lit ''parents''"
  "field_name f \<noteq> lit ''taint''" "field_name f \<noteq> lit ''tenant''" "field_name f \<noteq> lit ''x_bilateral''"
  by (cases f; simp)+

lemmas field_name_other' [simp] = field_name_other[symmetric]

lemma op_value_lit: "\<exists>s. op_value p = lit s"
  by (cases p) auto

lemma scalar_lit [simp]: "scalar_str (lit s)"
  using text_lit[of s] by (simp add: text_field_def)

lemma flat_fields:
  assumes "\<forall>f. text_field (field_value r f)"
  shows "flat_dict (map (\<lambda>f. (field_name f, field_value r f)) (filter P optional_fields))"
proof -
  have "distinct (filter P optional_fields)" by (simp add: optional_fields_def)
  moreover have "scalar_str (field_name f)" for f by (cases f) simp_all
  ultimately show ?thesis using assms flat_text by (auto simp: flat_dict_def distinct_map inj_on_def)
qed

lemma payload_flat:
  assumes "plain_receipt kid r"
  shows "flat_dict (payload_dict r)"
proof -
  let ?fs = "map (\<lambda>f. (field_name f, field_value r f)) (filter (\<lambda>f. truthy (field_value r f)) optional_fields)"
  obtain s where s: "op_value (r_operation r) = lit s" using op_value_lit by blast
  have "flat_value (r_issued_at r)" using assms by (auto simp: plain_receipt_def flat_value_def)
  moreover have "flat_value (PList (r_parents r))" "flat_value (PList (r_taint r))"
    using assms by (auto simp: plain_receipt_def intro: flat_texts)
  moreover have "flat_value (r_agent_id r)" "flat_value (r_agent_key_id r)" "r_tenant r \<noteq> PNone \<Longrightarrow> flat_value (r_tenant r)"
    using assms by (auto simp: plain_receipt_def text_field_def intro!: flat_text)
  moreover have "flat_dict ?fs" using assms by (intro flat_fields) (simp add: plain_receipt_def)
  moreover have "flat_value (PStr (lit x))" for x by (rule flat_text) simp
  moreover have "fst ` set ?fs \<subseteq> range field_name" by auto
  ultimately show ?thesis
    unfolding payload_dict_def flat_append by (auto simp: flat_dict_def s)
qed

text \<open>What the parser reads from the payload is the receipt.\<close>

lemma payload_lookup:
  "map_of (payload_dict r) (lit ''agent_id'') = Some (r_agent_id r)"
  "map_of (payload_dict r) (lit ''agent_key_id'') = Some (r_agent_key_id r)"
  "map_of (payload_dict r) (lit ''operation'') = Some (PStr (op_value (r_operation r)))"
  "map_of (payload_dict r) (lit ''parents'') = Some (PList (r_parents r))"
  "map_of (payload_dict r) (lit ''taint'') = Some (PList (r_taint r))"
  "map_of (payload_dict r) (lit ''iat'') = Some (r_issued_at r)"
  "map_of (payload_dict r) (lit ''typ'') = Some (PStr EXPECTED_TYP)"
  "map_of (payload_dict r) (lit ''iss'') = Some (PStr (lit ''raucle-detect/provenance''))"
  "map_of (payload_dict r) (lit ''tenant'') = (if r_tenant r = PNone then None else Some (r_tenant r))"
  "map_of (payload_dict r) (lit ''x_bilateral'') = None"
  by (simp_all add: payload_dict_def map_of_not_fields map_add_def)

lemma payload_field:
  "map_of (payload_dict r) (field_name f) = (if truthy (field_value r f) then Some (field_value r f) else None)"
proof -
  have "f \<in> set optional_fields" by (cases f) (simp_all add: optional_fields_def)
  then show ?thesis by (simp add: payload_dict_def map_of_fields map_add_def split: option.splits)
qed

lemma op_of_value: "op_of (PStr (op_value p)) = Inr p"
  by (cases p) (simp_all add: op_of_def operations_def)

lemma payload_receipt:
  assumes "plain_receipt kid r"
  shows "receipt_of_payload (payload_dict r) = Inr (r\<lparr>r_jws := [], r_receipt_hash := []\<rparr>)"
proof -
  have f: "dict_get (payload_dict r) (field_name f) (PStr []) = field_value r f" for f
  proof -
    have "text_field (field_value r f)" using assms by (simp add: plain_receipt_def)
    then show ?thesis by (auto simp: dict_get_def payload_field text_field_def is_str_iff)
  qed
  show ?thesis
    using f[of F_input_hash] f[of F_output_hash] f[of F_model] f[of F_tool] f[of F_corpus] f[of F_ruleset_hash] f[of F_guardrail_verdict] assms
    by (cases r) (simp add: receipt_of_payload_def require_key_def payload_lookup dict_get_def py_iter_def op_of_value plain_receipt_def)
qed

section \<open>The header\<close>

definition signed_header :: "ustr \<Rightarrow> HybridSigner option \<Rightarrow> pydict" where
  "signed_header kid hybrid = (case hybrid of
       None \<Rightarrow> v1_header kid
     | Some S \<Rightarrow> [(lit ''alg'', PStr (lit ''EdDSA'')), (lit ''typ'', PStr EXPECTED_TYP), (lit ''kid'', PStr kid),
          (lit ''crit'', PList [PStr RAUCLE_V1, PStr PQ1_PROFILE]), (RAUCLE_V1, PStr (lit ''provenance'')),
          (PQ1_PROFILE, PStr PQ1_ALG), (lit ''pqk'', PStr (hy_pq_key_id S))])"

lemma header_eq:
  "(case hybrid of None \<Rightarrow> Inr (v1_header kid) | Some S \<Rightarrow> pq1_header (v1_header kid) (hy_pq_key_id S)) = Inr (signed_header kid hybrid)"
  by (simp add: signed_header_def pq1_header_def v1_header_def dict_get_def py_iter_def py_mem_def Let_def split: option.splits)

text \<open>The signer: its key identifier is text, its signatures are bytes, the ML-DSA key identifier has 16 characters.\<close>

definition good_signer :: "AgentIdentity \<Rightarrow> HybridSigner option \<Rightarrow> bool" where
  "good_signer A hybrid \<longleftrightarrow> scalar_str (ai_key_id A) \<and> (\<forall>m. wf_bytes (ai_sign A m)) \<and>
     (\<forall>S. hybrid = Some S \<longrightarrow> scalar_str (hy_pq_key_id S) \<and> length (hy_pq_key_id S) = 16 \<and>
        (\<forall>m. wf_bytes (hy_ed_sign S m) \<and> wf_bytes (hy_pq_sign S m)))"

lemma header_flat:
  assumes "good_signer A hybrid"
  shows "flat_dict (signed_header (ai_key_id A) hybrid)"
proof -
  have l: "flat_value (PStr (lit x))" for x by (rule flat_text) simp
  have k: "flat_value (PStr (ai_key_id A))" using assms by (intro flat_text) (simp add: text_field_def good_signer_def)
  have q: "flat_value (PStr (hy_pq_key_id S))" if "hybrid = Some S" for S
    using assms that by (intro flat_text) (simp add: text_field_def good_signer_def)
  have c: "flat_value (PList [PStr RAUCLE_V1])" "flat_value (PList [PStr RAUCLE_V1, PStr PQ1_PROFILE])"
    by (rule flat_texts, simp)+
  show ?thesis using l k q c by (auto simp: signed_header_def v1_header_def flat_dict_def split: option.splits)
qed

lemma header_accepted:
  assumes "good_signer A hybrid" and "b64d h64 = Inr hb" and "json_loads_bytes (float_parse H) True hb = Inr (PDict e)"
    and "map_of e = map_of (signed_header (ai_key_id A) hybrid)"
  shows "enforce_header H h64 (PStr (ai_key_id A)) = Inr ()"
proof -
  have ks: "set (keys e) = set (keys (signed_header (ai_key_id A) hybrid))"
    using assms(4) by (metis dom_map_of_conv_image_fst set_keys)
  show ?thesis
  proof (cases hybrid)
    case None
    then show ?thesis
      using ks by (auto simp: enforce_header_def enforce_crit_def assms(2-4) declares_pq1_def dict_get_def has_key_def
        signed_header_def v1_header_def py_mem_def py_iter_def list_all_iff Let_def)
  next
    case (Some S)
    then have "length (hy_pq_key_id S) = 16" using assms(1) by (simp add: good_signer_def)
    then show ?thesis
      using ks Some by (auto simp: enforce_header_def enforce_crit_def assms(2-4) declares_pq1_def dict_get_def has_key_def
        signed_header_def py_mem_def py_iter_def list_all_iff Let_def)
  qed
qed

section \<open>Signing and parsing\<close>

definition signature_segments :: "AgentIdentity \<Rightarrow> HybridSigner option \<Rightarrow> bytes \<Rightarrow> bytes list" where
  "signature_segments A hybrid m = (case hybrid of
       None \<Rightarrow> [ai_sign A m]
     | Some S \<Rightarrow> [hy_ed_sign S m, hy_pq_sign S m])"

definition compact :: "ustr list \<Rightarrow> ustr" where
  "compact segs = join_with 46 segs"

lemma compact_simps [simp]: "compact [a] = a" "compact (a # b # xs) = a @ 46 # compact (b # xs)"
  by (simp_all add: compact_def)

lemma split_compact: "segs \<noteq> [] \<Longrightarrow> \<forall>a\<in>set segs. 46 \<notin> set a \<Longrightarrow> split_on 46 (compact segs) = segs"
proof (induction segs)
  case (Cons a segs)
  then show ?case by (cases segs) (simp_all add: split_on_plain split_on_append)
qed simp

lemma compact_ascii: "\<forall>a\<in>set segs. list_all (\<lambda>c. c < 128) a \<Longrightarrow> list_all (\<lambda>c. c < 128) (compact segs)"
proof (induction segs)
  case (Cons a segs)
  then show ?case by (cases segs) simp_all
qed (simp add: compact_def)

text \<open>What signing a printable receipt gives.\<close>

lemma sign_receiptE:
  assumes "plain_receipt (ai_key_id A) r" and "structural_errors r = Inr []" and "good_signer A hybrid"
  obtains hb eh pb ep m segs jws where
    "m = b64 hb @ 46 # b64 pb" "segs = signature_segments A hybrid m" "jws = compact (b64 hb # b64 pb # map b64 segs)"
    "sign_receipt H A hybrid r = Inr (r\<lparr>r_jws := jws, r_receipt_hash := SHA256_PREFIX @ sha256_hex (h_env H) jws\<rparr>)"
    "split_on 46 jws = b64 hb # b64 pb # map b64 segs" "list_all (\<lambda>c. c < 128) jws" "list_all (\<lambda>c. c < 128) m"
    "b64d (b64 hb) = Inr hb" "\<And>hook. json_loads_bytes (float_parse H) hook hb = Inr (PDict eh)" "canonical_json (h_env H) (PDict eh) = Inr hb"
    "map_of eh = map_of (signed_header (ai_key_id A) hybrid)"
    "b64d (b64 pb) = Inr pb" "\<And>hook. json_loads_bytes (float_parse H) hook pb = Inr (PDict ep)" "canonical_json (h_env H) (PDict ep) = Inr pb"
    "map_of ep = map_of (payload_dict r)" "\<forall>s\<in>set segs. wf_bytes s" "wf_bytes pb"
proof -
  obtain hb eh where h: "canonical_json (h_env H) (PDict (signed_header (ai_key_id A) hybrid)) = Inr hb"
      "\<And>fp hook. json_loads_bytes fp hook hb = Inr (PDict eh)"
      "canonical_json (h_env H) (PDict eh) = Inr hb" "wf_bytes hb" "map_of eh = map_of (signed_header (ai_key_id A) hybrid)"
    by (rule flat_dict_canonical[OF header_flat[OF assms(3)], where E = "h_env H"]) (rule that, assumption+)
  obtain pb ep where p: "canonical_json (h_env H) (PDict (payload_dict r)) = Inr pb"
      "\<And>fp hook. json_loads_bytes fp hook pb = Inr (PDict ep)"
      "canonical_json (h_env H) (PDict ep) = Inr pb" "wf_bytes pb" "map_of ep = map_of (payload_dict r)"
    by (rule flat_dict_canonical[OF payload_flat[OF assms(1)], where E = "h_env H"]) (rule that, assumption+)
  define m where "m = b64 hb @ 46 # b64 pb"
  define segs where "segs = signature_segments A hybrid m"
  define jws where "jws = compact (b64 hb # b64 pb # map b64 segs)"
  have w: "\<forall>s\<in>set segs. wf_bytes s" using assms(3) by (auto simp: segs_def signature_segments_def good_signer_def split: option.splits)
  have split: "split_on 46 jws = b64 hb # b64 pb # map b64 segs"
    unfolding jws_def using b64_chars(1) h(4) p(4) w by (intro split_compact) auto
  have asc: "list_all (\<lambda>c. c < 128) jws" "list_all (\<lambda>c. c < 128) m"
    using b64_chars(2) h(4) p(4) w by (auto simp: jws_def m_def simp del: compact_simps intro!: compact_ascii)
  have "sign_receipt H A hybrid r = Inr (r\<lparr>r_jws := jws, r_receipt_hash := SHA256_PREFIX @ sha256_hex (h_env H) jws\<rparr>)"
    using asc(1) unfolding sign_receipt_def header_eq rbind_simps h(1) payload_sorted[OF assms(2,1)] p(1) Let_def
    by (simp add: jws_def m_def segs_def signature_segments_def receipt_hash_of_def ascii_encode_def sign_both_def
      split: option.splits)
  then show thesis
    using that[of m hb pb segs jws eh ep] m_def segs_def jws_def split asc b64_roundtrip[OF h(4)] b64_roundtrip[OF p(4)] h p w by blast
qed

text \<open>The receipt is short enough to be parsed.\<close>

definition fits :: "ProvenanceReceipt \<Rightarrow> bool" where
  "fits r \<longleftrightarrow> length (r_jws r) \<le> MAX_JWS_BYTES \<and>
     (\<forall>pb. b64d (split_on 46 (r_jws r) ! 1) = Inr pb \<longrightarrow> length pb \<le> MAX_PAYLOAD_BYTES)"

lemma structural_errors_cong: "structural_errors (r\<lparr>r_jws := j, r_receipt_hash := h\<rparr>) = structural_errors r"
proof -
  have "field_value (r\<lparr>r_jws := j, r_receipt_hash := h\<rparr>) f = field_value r f" for f by (cases f) simp_all
  then show ?thesis by (simp add: structural_errors_def)
qed

lemma signed_receipt_parses:
  assumes "plain_receipt (ai_key_id A) r" and "structural_errors r = Inr []" and "good_signer A hybrid"
    and "sign_receipt H A hybrid r = Inr r'" and "fits r'"
  shows "from_jws H True vs (r_jws r') = Inr r'"
proof -
  obtain hb eh pb ep m segs jws where j: "segs = signature_segments A hybrid m"
    "sign_receipt H A hybrid r = Inr (r\<lparr>r_jws := jws, r_receipt_hash := SHA256_PREFIX @ sha256_hex (h_env H) jws\<rparr>)"
    and s: "split_on 46 jws = b64 hb # b64 pb # map b64 segs" "list_all (\<lambda>c. c < 128) jws"
    and h: "b64d (b64 hb) = Inr hb" "\<And>hook. json_loads_bytes (float_parse H) hook hb = Inr (PDict eh)" "canonical_json (h_env H) (PDict eh) = Inr hb"
      "map_of eh = map_of (signed_header (ai_key_id A) hybrid)"
    and p: "b64d (b64 pb) = Inr pb" "\<And>hook. json_loads_bytes (float_parse H) hook pb = Inr (PDict ep)" "canonical_json (h_env H) (PDict ep) = Inr pb"
      "map_of ep = map_of (payload_dict r)"
    by (rule sign_receiptE[OF assms(1-3), where H = H]) (rule that, assumption+)
  have r': "r' = r\<lparr>r_jws := jws, r_receipt_hash := SHA256_PREFIX @ sha256_hex (h_env H) jws\<rparr>" using assms(4) j(2) by simp
  have kid: "r_agent_key_id r = PStr (ai_key_id A)" using assms(1) by (simp add: plain_receipt_def)
  have n: "length segs = 1 \<or> length segs = 2" by (simp add: j(1) signature_segments_def split: option.splits)
  have strict: "enforce_strict_payload H (b64 hb) ep pb = Inr ()"
    using header_accepted[OF assms(3) h(1,2,4)]
    by (simp add: enforce_strict_payload_def dict_get_def h(1-3) p(3,4) payload_lookup kid)
  have rp: "receipt_of_payload ep = Inr (r\<lparr>r_jws := [], r_receipt_hash := []\<rparr>)"
    using receipt_of_payload_cong[OF p(4)] payload_receipt[OF assms(1)] by simp
  have hash: "receipt_hash_of H jws = Inr (SHA256_PREFIX @ sha256_hex (h_env H) jws)"
    using s(2) by (simp add: receipt_hash_of_def ascii_encode_def)
  have f: "length jws \<le> MAX_JWS_BYTES" "length pb \<le> MAX_PAYLOAD_BYTES"
    using assms(5) by (simp_all add: fits_def r' s(1) p(1))
  show ?thesis
    using n by (auto simp: from_jws_def r' s(1) p(1,2) f strict rp hash Let_def validate_receipt_strict_def
      structural_errors_cong assms(2))
qed

section \<open>The line\<close>

lemma read_json_str: "json_str s = 34 # concat (map escape_char s) @ [34]"
  by (simp add: json_str_def)

lemma lit_punct [simp]: "lit ''{'' = [123]" "lit '': '' = [58, 32]" "lit '', '' = [44, 32]" "lit ''}'' = [125]"
  by (simp_all add: lit_def)

lemma lit_ne_quote [simp]: "json_space 32" "\<not> json_space 34" "\<not> json_space 58" "\<not> json_space 44" "\<not> json_space 125" "\<not> json_space 123"
  by (simp_all add: json_space_def)

lemma skip_space [simp]: "skip_ws (32 # s) = skip_ws s"
  by (simp add: skip_ws_def)

lemma envelope_line_parses:
  "json_loads fp hook (envelope_line r) = Inr (envelope r)"
proof -
  have "3 \<le> length (envelope_line r)" by (simp add: envelope_line_def read_json_str)
  then obtain n where "length (envelope_line r) = 3 + n" using le_Suc_ex by blast
  then have n: "Suc (length (envelope_line r)) = Suc (Suc (Suc (Suc n)))" by simp
  have rd: "read_value fp hook (Suc (Suc (Suc (Suc n)))) (envelope_line r) = Inr (envelope r, [])"
    by (simp add: envelope_line_def read_json_str read_string_escapes make_object_def reject_duplicate_keys_def
      has_key_def envelope_def)
  have "skip_ws (envelope_line r) = envelope_line r" by (simp add: envelope_line_def)
  then show ?thesis unfolding json_loads_def n using rd by simp
qed

section \<open>The verifier accepts the line\<close>

text \<open>The verifier holds the keys the signer signs under, and the signatures are correct.\<close>

definition knows_signer :: "host \<Rightarrow> ProvenanceVerifier \<Rightarrow> AgentIdentity \<Rightarrow> HybridSigner option \<Rightarrow> bool" where
  "knows_signer H V A hybrid \<longleftrightarrow> (\<exists>key. map_of (pv_keys V) (ai_key_id A) = Some key \<and> (case hybrid of
       None \<Rightarrow> \<not> pv_require_pq V \<and> (\<forall>m. ed_verify (h_env H) key (ai_sign A m) m)
     | Some S \<Rightarrow> (\<exists>pq. map_of (pv_pq_keys V) (hy_pq_key_id S) = Some (Some pq) \<and>
         (\<forall>m. ed_verify (h_env H) key (hy_ed_sign S m) m \<and> pq_verify (h_env H) pq (hy_pq_sign S m) m \<and>
              length (hy_ed_sign S m) = 64 \<and> length (hy_pq_sign S m) = 3309))))"

lemma signed_receipt_verifies:
  assumes "plain_receipt (ai_key_id A) r" and "structural_errors r = Inr []" and "good_signer A hybrid"
    and "sign_receipt H A hybrid r = Inr r'" and "knows_signer H V A hybrid"
  shows "verify_receipt_signature H V r' = Inr True" "pv_require_pq V \<longrightarrow> length (filter (\<lambda>c. c = 46) (r_jws r')) = 3"
proof -
  obtain hb eh pb ep m segs jws where m: "m = b64 hb @ 46 # b64 pb" and j: "segs = signature_segments A hybrid m"
    "sign_receipt H A hybrid r = Inr (r\<lparr>r_jws := jws, r_receipt_hash := SHA256_PREFIX @ sha256_hex (h_env H) jws\<rparr>)"
    and s: "split_on 46 jws = b64 hb # b64 pb # map b64 segs" "list_all (\<lambda>c. c < 128) m" "\<forall>s\<in>set segs. wf_bytes s"
    and h: "b64d (b64 hb) = Inr hb" "\<And>hook. json_loads_bytes (float_parse H) hook hb = Inr (PDict eh)"
      "map_of eh = map_of (signed_header (ai_key_id A) hybrid)"
    by (rule sign_receiptE[OF assms(1-3), where H = H]) (rule that, assumption+)
  have r': "r_jws r' = jws" "r_agent_key_id r' = PStr (ai_key_id A)" using assms(1,4) j(2) by (auto simp: plain_receipt_def)
  obtain key where k: "map_of (pv_keys V) (ai_key_id A) = Some key" using assms(5) by (auto simp: knows_signer_def)
  have lk: "lookup_raw (pv_keys V) (PStr (ai_key_id A)) = Inr (Some key)" by (simp add: lookup_raw_def py_hashable_def k)
  have hd: "jose_header H (b64 hb) = Inr eh" by (simp add: jose_header_def h)
  have e: "ascii_encode m = Inr m" using s(2) by (simp add: ascii_encode_def)
  have count: "Suc (length (filter (\<lambda>c. c = 46) jws)) = Suc (Suc (length segs))" using length_split_on[of 46 jws] s(1) by simp
  show "verify_receipt_signature H V r' = Inr True"
  proof (cases hybrid)
    case None
    have g: "segs = [ai_sign A m]" "ed_verify (h_env H) key (ai_sign A m) m" "b64d (b64 (ai_sign A m)) = Inr (ai_sign A m)"
      using assms(5) k s(3) by (auto simp: None j(1) signature_segments_def knows_signer_def intro!: b64_roundtrip)
    have "\<not> declares_pq1 eh" by (simp add: declares_pq1_def dict_get_def h(3) None signed_header_def v1_header_def)
    then show ?thesis
      using g e by (simp add: verify_receipt_signature_def r' lk s(1) verify_signature_v1_def hd signing_input_def m Let_def)
  next
    case (Some S)
    obtain pq where q: "map_of (pv_pq_keys V) (hy_pq_key_id S) = Some (Some pq)" "ed_verify (h_env H) key (hy_ed_sign S m) m"
        "pq_verify (h_env H) pq (hy_pq_sign S m) m" "length (hy_ed_sign S m) = 64" "length (hy_pq_sign S m) = 3309"
      using assms(5) k by (auto simp: knows_signer_def Some)
    have g: "segs = [hy_ed_sign S m, hy_pq_sign S m]" by (simp add: j(1) signature_segments_def Some)
    have b: "b64d (b64 (hy_ed_sign S m)) = Inr (hy_ed_sign S m)" "b64d (b64 (hy_pq_sign S m)) = Inr (hy_pq_sign S m)"
      "46 \<notin> set (b64 (hy_ed_sign S m))" "46 \<notin> set (b64 (hy_pq_sign S m))"
      using s(3) b64_chars(1) b64_roundtrip by (auto simp: g)
    have d: "declares_pq1 eh" by (simp add: declares_pq1_def dict_get_def h(3) Some signed_header_def)
    have pk: "lookup_raw (pv_pq_keys V) (get_or_none eh ''pqk'') = Inr (Some (Some pq))"
      by (simp add: dict_get_def h(3) Some signed_header_def lookup_raw_def py_hashable_def q(1))
    have "parse_hybrid_signature (b64 (hy_ed_sign S m) @ 46 # b64 (hy_pq_sign S m)) = Some (hy_ed_sign S m, hy_pq_sign S m)"
      by (simp add: parse_hybrid_signature_def split_on_append split_on_plain b q)
    then show ?thesis
      using e d pk q(2,3)
      by (simp add: verify_receipt_signature_def r' lk s(1) g verify_signature_hybrid_def hd signing_input_def m Let_def verify_hybrid_def)
  qed
  show "pv_require_pq V \<longrightarrow> length (filter (\<lambda>c. c = 46) (r_jws r')) = 3"
    using assms(5) count by (auto simp: r' j(1) signature_segments_def knows_signer_def split: option.splits)
qed

lemma conformance_passes:
  assumes "pv_caps V \<noteq> [] \<longrightarrow> conformant H V r"
  shows "verify_capability_conformance H V r R = Inr R"
proof (cases "pv_caps V = []")
  case False
  then obtain kid stmt where c: "r_agent_key_id r = PStr kid" "map_of (pv_caps V) kid = Some stmt"
      "verify_statement H V stmt kid" "r_agent_id r = PStr (st_agent_id stmt)"
      "\<forall>e. st_expires_at stmt = Some e \<longrightarrow> truthy (r_issued_at r) \<longrightarrow> py_le (PInt e) (r_issued_at r) = Inr False"
      "truthy (r_model r) \<longrightarrow> permits_model stmt (r_model r)" "truthy (r_tool r) \<longrightarrow> permits_tool stmt (r_tool r)"
    using assms unfolding conformant_def by blast
  have "lookup_raw (pv_caps V) (r_agent_key_id r) = Inr (Some stmt)" by (simp add: lookup_raw_def py_hashable_def c(1,2))
  moreover have "(case st_expires_at stmt of None \<Rightarrow> Inr False
      | Some e \<Rightarrow> if truthy (r_issued_at r) then py_le (PInt e) (r_issued_at r) else Inr False) = Inr False"
    using c(5) by (cases "st_expires_at stmt") auto
  ultimately show ?thesis using False c(3,4,6,7) by (auto simp: verify_capability_conformance_def c(1) Let_def)
qed (simp add: verify_capability_conformance_def)

text \<open>A receipt without extensions leaves the state of the walk alone.\<close>

lemma field_name_extension:
  "lit ''x_gate'' \<noteq> field_name f" "lit ''x_lease'' \<noteq> field_name f" "lit ''x_revocation'' \<noteq> field_name f"
  "lit ''x_finding'' \<noteq> field_name f" "lit ''x_timestamp'' \<noteq> field_name f"
  by (cases f; simp)+

lemma payload_no_extension:
  "map_of (payload_dict r) (lit ''x_gate'') = None" "map_of (payload_dict r) (lit ''x_lease'') = None"
  "map_of (payload_dict r) (lit ''x_revocation'') = None" "map_of (payload_dict r) (lit ''x_finding'') = None"
  "map_of (payload_dict r) (lit ''x_timestamp'') = None" "map_of (payload_dict r) (lit ''x_bilateral'') = None"
  by (simp_all add: payload_dict_def map_of_not_fields map_add_def field_name_extension)

lemma no_extensions:
  assumes "map_of d (lit ''jws'') = Some (PStr jws)" and "split_on 46 jws = h # p # segs" and "segs \<noteq> []"
    and "b64d p = Inr pb" and "json_loads_bytes (float_parse H) False pb = Inr (PDict ep)" and "map_of ep = map_of (payload_dict q)"
  shows "verify_receipt_extensions H V (PDict d) r S = Inr S"
proof -
  have dots: "length (filter (\<lambda>c. c = 46) jws) \<ge> 2"
    using length_split_on[of 46 jws] assms(2,3) by (cases segs) simp_all
  note x = payload_no_extension[of q]
  have dec: "decode_gate_payload H (PDict d) = Inr (PDict ep, PDict [])"
    using dots by (simp add: decode_gate_payload_def dict_get_def assms x value_or_type_def)
  show ?thesis
    by (simp add: verify_receipt_extensions_def dec verify_delegated_authority_digest_def get_attr_def dict_get_def assms(6) x
      verify_lease_extension_def payload_get_def verify_cascade_revocation_def py_hashable_def py_mem_def Let_def
      verify_task_intent_def verify_harness_finding_def verify_time_anchor_def verify_bilateral_def)
qed

lemma line_accepted:
  assumes "plain_receipt (ai_key_id A) r" and "structural_errors r = Inr []" and "good_signer A hybrid"
    and "sign_receipt H A hybrid r = Inr r'" and "fits r'" and "knows_signer H V A hybrid" and "pv_caps V \<noteq> [] \<longrightarrow> conformant H V r'"
  shows "prov_verify_line H V (envelope_line r') S =
    Inr (count_receipt r' (S\<lparr>ws_lines := dict_set (r_receipt_hash r') (envelope_line r') (ws_lines S)\<rparr>))"
proof -
  obtain hb pb ep segs jws where j:
    "sign_receipt H A hybrid r = Inr (r\<lparr>r_jws := jws, r_receipt_hash := SHA256_PREFIX @ sha256_hex (h_env H) jws\<rparr>)"
    and s: "split_on 46 jws = b64 hb # b64 pb # map b64 segs"
    and p: "b64d (b64 pb) = Inr pb" "\<And>hook. json_loads_bytes (float_parse H) hook pb = Inr (PDict ep)" "map_of ep = map_of (payload_dict r)"
    and g: "segs \<noteq> []"
  proof (rule sign_receiptE[OF assms(1-3), where H = H])
    fix hb eh pb ep m segs jws
    assume "segs = signature_segments A hybrid m"
    then have "segs \<noteq> []" by (simp add: signature_segments_def split: option.splits)
    assume "sign_receipt H A hybrid r = Inr (r\<lparr>r_jws := jws, r_receipt_hash := SHA256_PREFIX @ sha256_hex (h_env H) jws\<rparr>)"
      "split_on 46 jws = b64 hb # b64 pb # map b64 segs" "b64d (b64 pb) = Inr pb"
      "\<And>hook. json_loads_bytes (float_parse H) hook pb = Inr (PDict ep)" "map_of ep = map_of (payload_dict r)"
    then show thesis using that \<open>segs \<noteq> []\<close> by blast
  qed
  have jws: "r_jws r' = jws" using assms(4) j by auto
  note v = signed_receipt_verifies[OF assms(1-4,6)]
  note q = signed_receipt_parses[OF assms(1-5), of False]
  have st: "structural_errors r' = Inr []" using assms(2,4) j structural_errors_cong by auto
  have line: "parse_chain_line H (envelope_line r') R = Inr (Some (envelope r'), R)" for R
    by (simp add: parse_chain_line_def envelope_line_parses envelope_def py_iter_def py_hashable_def unknown_envelope_fields_def
      ENVELOPE_FIELDS_def)
  have rec: "validate_chain_record H V (envelope r') R = Inr (Some r', R)" for R
    using v(2) by (auto simp: validate_chain_record_def envelope_def require_key_def dict_get_def q v(1) st Let_def)
  have ext: "verify_receipt_extensions H V (envelope r') r' S' = Inr S'" for S'
    unfolding envelope_def by (rule no_extensions[OF _ s _ p(1) p(2) p(3)]) (simp_all add: jws g)
  have same: "S\<lparr>ws_report := ws_report S, ws_lines := l\<rparr> = S\<lparr>ws_lines := l\<rparr>" for l by (cases S) simp
  show ?thesis by (simp add: prov_verify_line_def line rec conformance_passes[OF assms(7)] ext same)
qed

section \<open>The signer sorts the parents and the tags\<close>

definition sorted_form :: "ProvenanceReceipt \<Rightarrow> ProvenanceReceipt \<Rightarrow> bool" where
  "sorted_form r rs \<longleftrightarrow> (\<exists>ps ts. utf16_sorted (r_parents r) = Inr ps \<and> utf16_sorted (r_taint r) = Inr ts \<and>
     rs = r\<lparr>r_parents := ps, r_taint := ts\<rparr>)"

lemma field_value_sorted: "field_value (r\<lparr>r_parents := ps, r_taint := ts\<rparr>) f = field_value r f"
  by (cases f) simp_all

lemma payload_sorted_form: "sorted_form r rs \<Longrightarrow> payload rs = payload r"
  by (auto simp: sorted_form_def payload_def field_value_sorted utf16_sorted_def dest: py_sorted_idem)

lemma sign_sorted_form:
  assumes "sorted_form r rs" and "sign_receipt H A hybrid rs = Inr rs'"
  shows "sign_receipt H A hybrid r = Inr (r\<lparr>r_jws := r_jws rs', r_receipt_hash := r_receipt_hash rs'\<rparr>)"
  using assms(2) unfolding sign_receipt_def payload_sorted_form[OF assms(1)] by (auto simp: Let_def)

end
