(* ===== verification/LoggerLaws.thy ===== *)
theory LoggerLaws
  imports ReceiptRound
begin

text \<open>
  The logger and the verifier together: a file written by any sequence of the logger's operations, on known
  parents and with the statements the verifier trusts, is a file the verifier calls valid.
\<close>

section \<open>Sets and orders of strings\<close>

lemma py_set_texts:
  assumes "\<forall>v\<in>set seen \<union> set xs. is_str v" and "distinct seen"
  shows "\<exists>ys. py_set seen xs = Inr ys \<and> set ys = set seen \<union> set xs \<and> distinct ys"
  using assms
proof (induction xs arbitrary: seen)
  case (Cons x xs)
  then obtain s where s: "x = PStr s" by (auto simp: is_str_iff)
  have "list_ex (py_eq x) seen \<longleftrightarrow> x \<in> set seen" by (auto simp: s list_ex_iff)
  then show ?case
    using Cons.IH[of seen] Cons.IH[of "seen @ [x]"] Cons.prems by (auto simp: s py_hashable_def)
qed simp

lemma py_insort_texts: "is_str x \<Longrightarrow> \<forall>v\<in>set ys. is_str v \<Longrightarrow> \<exists>zs. py_insort x ys = Inr zs"
proof (induction ys)
  case (Cons y ys)
  then obtain s t where "x = PStr s" "y = PStr t" by (auto simp: is_str_iff)
  then show ?case using Cons by (cases "t < s") auto
qed simp

lemma py_sort_texts: "\<forall>v\<in>set xs. is_str v \<Longrightarrow> \<exists>ys. py_sort xs = Inr ys"
proof (induction xs)
  case (Cons x xs)
  then obtain ys where y: "py_sort xs = Inr ys" by auto
  have "\<forall>v\<in>set ys. is_str v" using py_sort_set[OF y] Cons.prems by simp
  then show ?case using py_insort_texts[of x ys] Cons.prems y by auto
qed simp

lemma utf16_sorted_texts:
  assumes "\<forall>v\<in>set xs. text_field v"
  shows "\<exists>ys. utf16_sorted xs = Inr ys \<and> mset ys = mset xs \<and> utf16_sorted ys = Inr ys"
proof -
  let ?key = "\<lambda>v. case v of PStr s \<Rightarrow> utf16_key s | _ \<Rightarrow> Inl (TypeError ''utf16_key'')"
  have "\<forall>v\<in>set xs. ?key v = Inr (utf16_be (str_of v))" using assms by (auto simp: text_field_def is_str_iff)
  then have "rmap ?key xs = Inr (map (\<lambda>v. utf16_be (str_of v)) xs)" by (intro rmap_Inr_all) blast
  then obtain ys where y: "py_sorted ?key xs = Inr ys" by (simp add: py_sorted_def)
  then show ?thesis using py_sorted_mset[OF y] py_sorted_idem[OF y] by (simp add: utf16_sorted_def)
qed

lemma sequence_ok:
  assumes "utf16_sorted ys = Inr ys" and "distinct ys" and "\<forall>v\<in>set ys. text_field v"
  shows "sequence_errors ys = Inr []"
proof -
  obtain us where u: "py_set [] ys = Inr us" "set us = set ys" "distinct us"
    using py_set_texts[of "[]" ys] assms(3) by (auto simp: text_field_def)
  then have "length us = length ys" using assms(2) by (metis distinct_card)
  then show ?thesis using assms(1) u(1) by (simp add: sequence_errors_def)
qed

section \<open>The second pass on a good table\<close>

definition taint_tags :: "ProvenanceReceipt \<Rightarrow> ustr set" where
  "taint_tags r = {t. PStr t \<in> set (r_taint r)}"

definition inherited_tags :: "receipt_table \<Rightarrow> ProvenanceReceipt \<Rightarrow> ustr set" where
  "inherited_tags T r = {t. inherits T r (PStr t)}"

text \<open>The taint rule of one receipt, as the logger establishes it.\<close>

definition taint_rule :: "ProvenanceVerifier \<Rightarrow> receipt_table \<Rightarrow> ProvenanceReceipt \<Rightarrow> bool" where
  "taint_rule V T r \<longleftrightarrow> r_parents r = [] \<or>
     (if r_operation r = SANITISATION
      then (\<exists>c. r_corpus r = PStr c \<and> taint_tags r = inherited_tags T r - set (removed_tags c) \<and>
        (pv_caps V \<noteq> [] \<longrightarrow> (\<exists>kid stmt. r_agent_key_id r = PStr kid \<and> map_of (pv_caps V) kid = Some stmt \<and>
           (\<forall>t\<in>set (removed_tags c). permits_sanitising stmt t))))
      else inherited_tags T r \<subseteq> taint_tags r)"

definition good_entry :: "ProvenanceVerifier \<Rightarrow> receipt_table \<Rightarrow> ProvenanceReceipt \<Rightarrow> bool" where
  "good_entry V T r \<longleftrightarrow> (\<forall>p\<in>set (r_parents r). \<exists>h. p = PStr h \<and> has_key T h) \<and> (\<forall>v\<in>set (r_taint r). is_str v) \<and> taint_rule V T r"

definition good_table :: "ProvenanceVerifier \<Rightarrow> receipt_table \<Rightarrow> bool" where
  "good_table V T \<longleftrightarrow> (\<forall>(h, r)\<in>set T. good_entry V T r)"

lemma inherited_exact:
  assumes "\<forall>p\<in>set ps. \<exists>h q. p = PStr h \<and> map_of T h = Some q \<and> (\<forall>v\<in>set (r_taint q). is_str v)"
    and "\<forall>v\<in>set seen. is_str v" and "distinct seen"
  shows "\<exists>ys. rfold (add_parent_taint T) ps seen = Inr ys \<and> distinct ys \<and> (\<forall>v\<in>set ys. is_str v) \<and>
    set ys = set seen \<union> {v. \<exists>h q. PStr h \<in> set ps \<and> map_of T h = Some q \<and> v \<in> set (r_taint q)}"
  using assms
proof (induction ps arbitrary: seen)
  case (Cons p ps)
  obtain h q where h: "p = PStr h" "map_of T h = Some q" "\<forall>v\<in>set (r_taint q). is_str v" using Cons.prems(1) by auto
  obtain s where s: "py_set seen (r_taint q) = Inr s" "set s = set seen \<union> set (r_taint q)" "distinct s"
    using py_set_texts[of seen "r_taint q"] Cons.prems(2,3) h(3) by auto
  have a: "add_parent_taint T p seen = Inr s" by (simp add: add_parent_taint_def lookup_raw_def py_hashable_def h(1,2) s(1))
  have st: "\<forall>v\<in>set s. is_str v" using s(2) h(3) Cons.prems(2) by auto
  obtain ys where y: "rfold (add_parent_taint T) ps s = Inr ys" "distinct ys" "\<forall>v\<in>set ys. is_str v"
      "set ys = set s \<union> {v. \<exists>h q. PStr h \<in> set ps \<and> map_of T h = Some q \<and> v \<in> set (r_taint q)}"
    using Cons.IH[OF _ st s(3)] Cons.prems(1) by auto
  have "set ys = set seen \<union> {v. \<exists>h q. PStr h \<in> set (p # ps) \<and> map_of T h = Some q \<and> v \<in> set (r_taint q)}"
    using y(4) s(2) h(1,2) by auto
  then show ?case using y a by auto
qed simp

lemma difference_empty: "\<forall>v\<in>set xs. is_str v \<Longrightarrow> difference xs ys = [] \<longleftrightarrow> set xs \<subseteq> set ys"
  by (auto simp: difference_def filter_empty_conv is_str_iff) (metis is_str_iff py_mem_str subsetD)+

lemma check_taint_passes:
  assumes "good_entry V T r" and "\<forall>(h, q)\<in>set T. \<forall>v\<in>set (r_taint q). is_str v"
  shows "check_taint V T r R = Inr R"
proof (cases "r_parents r = []")
  case False
  have ps: "\<forall>p\<in>set (r_parents r). \<exists>h q. p = PStr h \<and> map_of T h = Some q \<and> (\<forall>v\<in>set (r_taint q). is_str v)"
    using assms by (fastforce simp: good_entry_def has_key_def dest: map_of_SomeD)
  obtain inh where i: "rfold (add_parent_taint T) (r_parents r) [] = Inr inh" "\<forall>v\<in>set inh. is_str v"
      "set inh = {v. \<exists>h q. PStr h \<in> set (r_parents r) \<and> map_of T h = Some q \<and> v \<in> set (r_taint q)}"
    using inherited_exact[OF ps, of "[]"] by auto
  obtain my where m: "py_set [] (r_taint r) = Inr my" "set my = set (r_taint r)"
    using py_set_texts[of "[]" "r_taint r"] assms(1) by (auto simp: good_entry_def)
  have tags: "inherited_tags T r = {t. PStr t \<in> set inh}" "taint_tags r = {t. PStr t \<in> set my}"
    by (auto simp: inherited_tags_def inherits_def i(3) taint_tags_def m(2))
  have mystr: "\<forall>v\<in>set my. is_str v" using assms(1) m(2) by (simp add: good_entry_def)
  have rule: "taint_rule V T r" using assms(1) by (simp add: good_entry_def)
  show ?thesis
  proof (cases "r_operation r = SANITISATION")
    case True
    obtain c where c: "r_corpus r = PStr c" "taint_tags r = inherited_tags T r - set (removed_tags c)"
        "pv_caps V \<noteq> [] \<longrightarrow> (\<exists>kid stmt. r_agent_key_id r = PStr kid \<and> map_of (pv_caps V) kid = Some stmt \<and>
           (\<forall>t\<in>set (removed_tags c). permits_sanitising stmt t))"
      using rule True False by (auto simp: taint_rule_def)
    let ?exp = "difference inh (map PStr (removed_tags c))"
    have e: "PStr t \<in> set ?exp \<longleftrightarrow> t \<in> inherited_tags T r - set (removed_tags c)" for t
      by (auto simp: difference_def tags(1))
    have es: "\<forall>v\<in>set ?exp. is_str v" using i(2) by (auto simp: difference_def)
    have "v \<in> set my \<longleftrightarrow> v \<in> set ?exp" for v
    proof (cases v)
      case (PStr t)
      then show ?thesis using e[of t] c(2) tags(2) by auto
    qed (use mystr es in force)+
    then have same: "difference my ?exp = []" "difference ?exp my = []" using difference_empty mystr es by blast+
    have auth: "(if pv_caps V = [] then Inr R
            else rbind (lookup_raw (pv_caps V) (r_agent_key_id r)) (\<lambda>stmt.
              let unauthorised = filter (\<lambda>tag. case stmt of None \<Rightarrow> True | Some s \<Rightarrow> \<not> permits_sanitising s tag) (removed_tags c) in
              Inr (if unauthorised = [] then R
                   else (complain ''unauthorised taint laundering'' R)\<lparr>pr_unauthorised := pr_unauthorised R + 1\<rparr>))) = Inr R"
      using c(3) by (auto simp: lookup_raw_def py_hashable_def filter_empty_conv)
    show ?thesis
      unfolding check_taint_def check_sanitisation_taint_def using False True
      by (simp add: i(1) m(1) c(1) auth same)
  next
    case nonsan: False
    have "set inh \<subseteq> set my"
    proof
      fix v assume v: "v \<in> set inh"
      then obtain t where t: "v = PStr t" using i(2) by (auto simp: is_str_iff)
      then show "v \<in> set my" using v rule False nonsan tags by (auto simp: taint_rule_def)
    qed
    then have "difference inh my = []" using difference_empty[OF i(2)] by blast
    then show ?thesis using False nonsan by (simp add: check_taint_def i(1) m(1) check_monotonic_taint_def)
  qed
qed (simp add: check_taint_def)

lemma rfold_same: "(\<And>x. x \<in> set xs \<Longrightarrow> f x s = Inr s) \<Longrightarrow> rfold f xs s = Inr s"
  by (induction xs) auto

lemma good_table_passes:
  assumes "good_table V T"
  shows "verify_dag_and_taint V T R = Inr R"
proof -
  have st: "\<forall>(h, q)\<in>set T. \<forall>v\<in>set (r_taint q). is_str v" using assms by (auto simp: good_table_def good_entry_def)
  have "rfold (check_parent_link T) (r_parents r) R = Inr R" if "good_entry V T r" for r
    using that by (intro rfold_same) (auto simp: good_entry_def check_parent_link_def in_dict_def py_hashable_def)
  then show ?thesis
    unfolding verify_dag_and_taint_def using assms check_taint_passes[OF _ st]
    by (intro rfold_same) (auto simp: good_table_def)
qed

section \<open>One receipt more\<close>

lemma inherits_fresh:
  assumes "\<forall>p\<in>set (r_parents q). \<exists>k. p = PStr k \<and> has_key T k" and "\<not> has_key T h"
  shows "inherits (dict_set h r T) q v \<longleftrightarrow> inherits T q v"
  using assms unfolding inherits_def by (force simp: has_key_def)

lemma good_entry_fresh:
  assumes "good_entry V T q" and "\<not> has_key T h"
  shows "good_entry V (dict_set h r T) q"
proof -
  have p: "\<forall>p\<in>set (r_parents q). \<exists>k. p = PStr k \<and> has_key T k" using assms(1) by (simp add: good_entry_def)
  have "inherited_tags (dict_set h r T) q = inherited_tags T q"
    unfolding inherited_tags_def inherits_fresh[OF p assms(2)] ..
  moreover have "has_key T k \<Longrightarrow> has_key (dict_set h r T) k" for k by (simp add: has_key_def)
  ultimately show ?thesis using assms(1) unfolding good_entry_def taint_rule_def by metis
qed

lemma good_table_fresh:
  assumes "good_table V T" and "good_entry V T r" and "\<not> has_key T h"
  shows "good_table V (dict_set h r T)"
proof -
  have "h \<notin> fst ` set T" using assms(3) by (simp add: has_key_iff)
  then have "dict_set h r T = T @ [(h, r)]" by (rule dict_set_new)
  then show ?thesis
    using assms good_entry_fresh[of V T _ h r] unfolding good_table_def by auto
qed

text \<open>The receipt meets the structural rules once its sequences are sorted.\<close>

definition ready :: "AgentIdentity \<Rightarrow> ProvenanceReceipt \<Rightarrow> bool" where
  "ready A r \<longleftrightarrow> plain_receipt (ai_key_id A) r \<and> distinct (r_parents r) \<and> distinct (r_taint r) \<and>
     (r_parents r = [] \<longrightarrow> r_operation r \<in> set ROOTABLE_OPS) \<and> (r_operation r = MERGE \<longrightarrow> 2 \<le> length (r_parents r)) \<and>
     (\<forall>f\<in>set (REQUIRED_FIELDS_BY_OP (r_operation r)). truthy (field_value r f))"

lemma ready_sorted:
  assumes "ready A r"
  obtains rs where "sorted_form r rs" "plain_receipt (ai_key_id A) rs" "structural_errors rs = Inr []"
    "set (r_parents rs) = set (r_parents r)" "set (r_taint rs) = set (r_taint r)" "r_parents rs = [] \<longleftrightarrow> r_parents r = []"
proof -
  have t: "\<forall>v\<in>set (r_parents r). text_field v" "\<forall>v\<in>set (r_taint r). text_field v"
    using assms by (auto simp: ready_def plain_receipt_def)
  obtain ps where p: "utf16_sorted (r_parents r) = Inr ps" "mset ps = mset (r_parents r)" "utf16_sorted ps = Inr ps"
    using utf16_sorted_texts[OF t(1)] by blast
  obtain ts where s: "utf16_sorted (r_taint r) = Inr ts" "mset ts = mset (r_taint r)" "utf16_sorted ts = Inr ts"
    using utf16_sorted_texts[OF t(2)] by blast
  have sets: "set ps = set (r_parents r)" "set ts = set (r_taint r)" using p(2) s(2) by (metis set_mset_mset)+
  have d: "distinct ps" "distinct ts" using p(2) s(2) assms by (metis ready_def mset_eq_imp_distinct_iff)+
  have len: "length ps = length (r_parents r)" using p(2) by (metis size_mset)
  have ne: "ps = [] \<longleftrightarrow> r_parents r = []" using len by (metis length_0_conv)
  let ?rs = "r\<lparr>r_parents := ps, r_taint := ts\<rparr>"
  have "sequence_errors ps = Inr []" "sequence_errors ts = Inr []" using sequence_ok p(3) s(3) d sets t by auto
  moreover have "filter (\<lambda>f. \<not> truthy (field_value ?rs f)) (REQUIRED_FIELDS_BY_OP (r_operation r)) = []"
    using assms by (auto simp: ready_def filter_empty_conv field_value_sorted)
  ultimately have st: "structural_errors ?rs = Inr []"
    using assms len by (auto simp: structural_errors_def ready_def)
  have "plain_receipt (ai_key_id A) ?rs" using assms sets by (auto simp: ready_def plain_receipt_def field_value_sorted)
  moreover have "sorted_form r ?rs" unfolding sorted_form_def using p(1) s(1) by blast
  ultimately show thesis using that[of ?rs] st sets ne by auto
qed

definition log_state :: "ProvenanceVerifier \<Rightarrow> ProvenanceLogger \<Rightarrow> walk_state \<Rightarrow> bool" where
  "log_state V L S \<longleftrightarrow> pr_valid (ws_report S) \<and> good_table V (ws_receipts S) \<and>
     (\<forall>h. map_option set (map_of (lg_taint L) h) = map_option (\<lambda>r. set (r_taint r)) (map_of (ws_receipts S) h)) \<and>
     (\<forall>h. has_key (ws_receipts S) h \<longrightarrow> scalar_str h) \<and>
     (\<forall>h r. map_of (ws_receipts S) h = Some r \<longrightarrow> (\<forall>v\<in>set (r_taint r). text_field v))"

lemma known_keys: "log_state V L S \<Longrightarrow> has_key (lg_taint L) h \<longleftrightarrow> has_key (ws_receipts S) h"
  unfolding log_state_def has_key_def by (metis map_option_is_None)

lemma length_b64_core: "length bs \<le> length (b64_core bs)"
  by (induction bs rule: b64_core.induct) auto

lemma length_json_str: "length s \<le> length (json_str s)"
proof -
  have "length s \<le> length (concat (map escape_char s))"
  proof (induction s)
    case (Cons c s)
    then show ?case using escape_char_head[of c] by auto
  qed simp
  then show ?thesis by (simp add: read_json_str)
qed

text \<open>A line of at most 32 KiB holds a receipt the parser takes.\<close>

lemma short_line_fits:
  assumes "plain_receipt (ai_key_id A) r" and "structural_errors r = Inr []" and "good_signer A hybrid"
    and "sign_receipt H A hybrid r = Inr r'" and "length (envelope_line r') \<le> MAX_PAYLOAD_BYTES"
  shows "fits r'"
proof (rule sign_receiptE[OF assms(1-3), where H = H])
  fix hb eh pb ep m segs jws
  assume j: "sign_receipt H A hybrid r = Inr (r\<lparr>r_jws := jws, r_receipt_hash := SHA256_PREFIX @ sha256_hex (h_env H) jws\<rparr>)"
    "split_on 46 jws = b64 hb # b64 pb # map b64 segs" "jws = compact (b64 hb # b64 pb # map b64 segs)"
    "b64d (b64 pb) = Inr pb" "segs = signature_segments A hybrid m" "wf_bytes pb"
  have r': "r_jws r' = jws" using assms(4) j(1) by auto
  have "length (json_str jws) \<le> length (envelope_line r')" by (simp add: envelope_line_def r')
  then have lj: "length jws \<le> MAX_PAYLOAD_BYTES" using length_json_str[of jws] assms(5) by linarith
  have "length pb \<le> length (b64 pb)" using length_b64_core[of pb] b64_eq_core[OF j(6)] by simp
  also have "\<dots> \<le> length jws" unfolding j(3) by (cases segs) simp_all
  finally have "length pb \<le> MAX_PAYLOAD_BYTES" using lj by simp
  then show "fits r'" using lj by (simp add: fits_def r' j(2,4) MAX_JWS_BYTES_def MAX_PAYLOAD_BYTES_def)
qed

lemma good_entry_cong:
  assumes "good_entry V T r" and "set (r_parents q) = set (r_parents r)" and "set (r_taint q) = set (r_taint r)"
    and "r_parents q = [] \<longleftrightarrow> r_parents r = []" and "r_operation q = r_operation r" and "r_corpus q = r_corpus r"
    and "r_agent_key_id q = r_agent_key_id r"
  shows "good_entry V T q"
proof -
  have t: "inherited_tags T q = inherited_tags T r" "taint_tags q = taint_tags r"
    using assms(2,3) by (auto simp: inherited_tags_def inherits_def taint_tags_def)
  show ?thesis using assms(1) unfolding good_entry_def taint_rule_def assms(2-7) t .
qed

lemma conformant_cong:
  "conformant H V q \<longleftrightarrow> conformant H V r"
  if "r_agent_key_id q = r_agent_key_id r" "r_agent_id q = r_agent_id r" "r_issued_at q = r_issued_at r"
    "r_model q = r_model r" "r_tool q = r_tool r"
  unfolding conformant_def that ..

lemma hex_scalar: "wf_bytes bs \<Longrightarrow> scalar_str (hex_of bs)"
  by (induction bs) (auto simp: hex_of_def hex_digit_def scalar_str_def is_surrogate_def)

lemma hash_scalar: "digest32 E \<Longrightarrow> scalar_str (SHA256_PREFIX @ sha256_hex E b)"
  using hex_scalar[of "sha256 E b"] scalar_lit[of "''sha256:''"]
  by (simp add: digest32_def sha256_hex_def scalar_str_def)

text \<open>The logger's last step keeps the verifier content.\<close>

lemma emit_accepted:
  assumes "log_state V L S" and "ready (lg_agent L) r" and "good_signer (lg_agent L) (lg_hybrid L)"
    and "knows_signer H V (lg_agent L) (lg_hybrid L)" and "pv_caps V \<noteq> [] \<longrightarrow> conformant H V r"
    and "good_entry V (ws_receipts S) r" and "digest32 (h_env H)"
    and "emit_receipt H r L lines = Inr (h, L', lines')" and "\<not> has_key (lg_taint L) h" and "length (last lines') \<le> MAX_PAYLOAD_BYTES"
  shows "\<exists>line S'. lines' = lines @ [line] \<and> prov_verify_line H V line S = Inr S' \<and> log_state V L' S' \<and>
    pr_receipt_count (ws_report S') = Suc (pr_receipt_count (ws_report S)) \<and>
    lg_agent L' = lg_agent L \<and> lg_hybrid L' = lg_hybrid L \<and> lg_tenant L' = lg_tenant L"
proof -
  obtain rs where rs: "sorted_form r rs" "plain_receipt (ai_key_id (lg_agent L)) rs" "structural_errors rs = Inr []"
      "set (r_parents rs) = set (r_parents r)" "set (r_taint rs) = set (r_taint r)" "r_parents rs = [] \<longleftrightarrow> r_parents r = []"
    by (rule ready_sorted[OF assms(2)])
  have f: "r_operation rs = r_operation r" "r_corpus rs = r_corpus r" "r_agent_key_id rs = r_agent_key_id r"
    "r_agent_id rs = r_agent_id r" "r_issued_at rs = r_issued_at r" "r_model rs = r_model r" "r_tool rs = r_tool r"
    using rs(1) by (auto simp: sorted_form_def)
  obtain jws where s: "sign_receipt H (lg_agent L) (lg_hybrid L) rs = Inr (rs\<lparr>r_jws := jws, r_receipt_hash := SHA256_PREFIX @ sha256_hex (h_env H) jws\<rparr>)"
    by (rule sign_receiptE[OF rs(2,3) assms(3), where H = H]) (rule that, assumption+)
  define r' where "r' = rs\<lparr>r_jws := jws, r_receipt_hash := SHA256_PREFIX @ sha256_hex (h_env H) jws\<rparr>"
  note sr = sign_sorted_form[OF rs(1) s[folded r'_def]]
  obtain ts where ts: "py_set [] (r_taint r) = Inr ts"
      and e: "h = r_receipt_hash r'" "L' = L\<lparr>lg_taint := dict_set (r_receipt_hash r') ts (lg_taint L)\<rparr>" "lines' = lines @ [envelope_line r']"
    using assms(8) by (auto simp: emit_receipt_def sr envelope_line_def)
  have tx: "\<forall>v\<in>set (r_taint r). text_field v" using assms(2) by (auto simp: ready_def plain_receipt_def)
  have sts: "set ts = set (r_taint r')"
    using py_set_texts[of "[]" "r_taint r"] ts tx rs(5) by (auto simp: r'_def text_field_def)
  have "fits r'" using short_line_fits[OF rs(2,3) assms(3) s[folded r'_def]] assms(10) e(3) by simp
  moreover have c: "pv_caps V \<noteq> [] \<longrightarrow> conformant H V r'"
    using assms(5) conformant_cong[of r' r] f by (simp add: r'_def)
  ultimately have line: "prov_verify_line H V (envelope_line r') S =
      Inr (count_receipt r' (S\<lparr>ws_lines := dict_set (r_receipt_hash r') (envelope_line r') (ws_lines S)\<rparr>))" (is "_ = Inr ?S'")
    using line_accepted[OF rs(2,3) assms(3) s[folded r'_def] _ assms(4)] by blast
  have fresh: "\<not> has_key (ws_receipts S) (r_receipt_hash r')" using known_keys[OF assms(1)] assms(9) e(1) by simp
  have entry: "good_entry V (ws_receipts S) r'"
    by (rule good_entry_cong[OF assms(6)]) (use rs f in \<open>simp_all add: r'_def\<close>)
  have tab: "ws_receipts ?S' = dict_set (r_receipt_hash r') r' (ws_receipts S)" by (simp add: count_receipt_def)
  have "log_state V L' ?S'"
    unfolding log_state_def
  proof (intro conjI allI impI)
    show "pr_valid (ws_report ?S')" using assms(1) by (simp add: count_receipt_def log_state_def)
    show "good_table V (ws_receipts ?S')" unfolding tab by (rule good_table_fresh[OF _ entry fresh]) (use assms(1) in \<open>simp add: log_state_def\<close>)
    show "map_option set (map_of (lg_taint L') k) = map_option (\<lambda>r. set (r_taint r)) (map_of (ws_receipts ?S') k)" for k
      using assms(1) sts by (simp add: tab e(2) log_state_def)
    show "scalar_str k" if "has_key (ws_receipts ?S') k" for k
    proof (cases "k = r_receipt_hash r'")
      case True
      then show ?thesis using hash_scalar[OF assms(7)] by (simp add: r'_def)
    next
      case False
      then show ?thesis using that assms(1) by (simp add: tab has_key_def log_state_def)
    qed
    show "\<forall>v\<in>set (r_taint q). text_field v" if "map_of (ws_receipts ?S') k = Some q" for k q
    proof -
      have "q = r' \<or> map_of (ws_receipts S) k = Some q" using that unfolding tab by (auto split: if_splits)
      moreover have "r_taint r' = r_taint rs" by (simp add: r'_def)
      ultimately show ?thesis using assms(1) tx rs(5) unfolding log_state_def by auto
    qed
  qed
  moreover have "pr_receipt_count (ws_report ?S') = Suc (pr_receipt_count (ws_report S))" by (simp add: count_receipt_def)
  ultimately show ?thesis using line e by auto
qed

section \<open>The operations\<close>

datatype log_call =
    User_Input int ustr "ustr list"
  | Model_Call int "ustr list" ustr ustr ustr "ustr list"
  | Tool_Call int "ustr list" ustr pyval pyval "ustr list"
  | Retrieval_Of int "ustr list" ustr ustr pyval bool
  | Guardrail_Scan int "ustr list" ustr ustr ustr ustr
  | Agent_Handoff int "ustr list" ustr pyval
  | Sanitise int "ustr list" "ustr list" ustr ustr ustr
  | Merge_Of int "ustr list" pyval "ustr list"

primrec run_call :: "host \<Rightarrow> log_call \<Rightarrow> logger_op" where
  "run_call H (User_Input now text taint) = record_user_input H now text taint"
| "run_call H (Model_Call now parents model inp outp extra) = record_model_call H now parents model inp outp extra"
| "run_call H (Tool_Call now parents tl_name args outp extra) = record_tool_call H now parents tl_name args outp extra"
| "run_call H (Retrieval_Of now parents corpus query chunks trusted) = record_retrieval H now parents corpus query chunks trusted"
| "run_call H (Guardrail_Scan now parents scanned verdict ruleset target) = record_guardrail_scan H now parents scanned verdict ruleset target"
| "run_call H (Agent_Handoff now parents target handoff) = record_agent_handoff H now parents target handoff"
| "run_call H (Sanitise now parents removed sanitiser inp outp) = record_sanitisation H now parents removed sanitiser inp outp"
| "run_call H (Merge_Of now parents outp extra) = record_merge H now parents outp extra"

definition name_ok :: "ustr \<Rightarrow> bool" where
  "name_ok s \<longleftrightarrow> s \<noteq> [] \<and> scalar_str s"

text \<open>What every operation needs: a time in the safe range before the statement expires, known parents without repetition.\<close>

definition step_ok :: "ProvenanceLogger \<Rightarrow> int \<Rightarrow> ustr list \<Rightarrow> bool" where
  "step_ok L now parents \<longleftrightarrow> MIN_SAFE_INT \<le> now \<and> now \<le> MAX_SAFE_INT \<and>
     (\<forall>e. st_expires_at (ai_statement (lg_agent L)) = Some e \<longrightarrow> now < e) \<and>
     distinct parents \<and> (\<forall>p\<in>set parents. has_key (lg_taint L) p)"

primrec call_ok :: "ProvenanceVerifier \<Rightarrow> ProvenanceLogger \<Rightarrow> log_call \<Rightarrow> bool" where
  "call_ok V L (User_Input now text taint) \<longleftrightarrow> step_ok L now [] \<and> (\<forall>t\<in>set taint. scalar_str t)"
| "call_ok V L (Model_Call now parents model inp outp extra) \<longleftrightarrow>
     step_ok L now parents \<and> parents \<noteq> [] \<and> name_ok model \<and> (\<forall>t\<in>set extra. scalar_str t)"
| "call_ok V L (Tool_Call now parents tl_name args outp extra) \<longleftrightarrow>
     step_ok L now parents \<and> parents \<noteq> [] \<and> name_ok tl_name \<and> (\<forall>t\<in>set extra. scalar_str t)"
| "call_ok V L (Retrieval_Of now parents corpus query chunks trusted) \<longleftrightarrow>
     step_ok L now parents \<and> parents \<noteq> [] \<and> name_ok corpus"
| "call_ok V L (Guardrail_Scan now parents scanned verdict ruleset target) \<longleftrightarrow>
     step_ok L now parents \<and> name_ok verdict \<and> name_ok ruleset \<and> scalar_str target"
| "call_ok V L (Agent_Handoff now parents target handoff) \<longleftrightarrow> step_ok L now parents \<and> parents \<noteq> []"
| "call_ok V L (Sanitise now parents removed sanitiser inp outp) \<longleftrightarrow>
     step_ok L now parents \<and> parents \<noteq> [] \<and> name_ok sanitiser \<and> (\<forall>t\<in>set removed. name_ok t \<and> 44 \<notin> set t) \<and>
     (pv_caps V \<noteq> [] \<longrightarrow> permits_tool (ai_statement (lg_agent L)) (PStr sanitiser) \<and>
        (\<forall>t\<in>set removed. permits_sanitising (ai_statement (lg_agent L)) t))"
| "call_ok V L (Merge_Of now parents outp extra) \<longleftrightarrow> step_ok L now parents \<and> (\<forall>t\<in>set extra. scalar_str t)"

text \<open>The verifier knows the agent: its keys and, when it checks statements, its statement.\<close>

definition agent_ok :: "host \<Rightarrow> ProvenanceVerifier \<Rightarrow> ProvenanceLogger \<Rightarrow> bool" where
  "agent_ok H V L \<longleftrightarrow> digest32 (h_env H) \<and> good_signer (lg_agent L) (lg_hybrid L) \<and> knows_signer H V (lg_agent L) (lg_hybrid L) \<and>
     scalar_str (ai_agent_id (lg_agent L)) \<and> (lg_tenant L = PNone \<or> text_field (lg_tenant L)) \<and>
     (pv_caps V \<noteq> [] \<longrightarrow> map_of (pv_caps V) (ai_key_id (lg_agent L)) = Some (ai_statement (lg_agent L)) \<and>
        verify_statement H V (ai_statement (lg_agent L)) (ai_key_id (lg_agent L)) \<and>
        st_agent_id (ai_statement (lg_agent L)) = ai_agent_id (lg_agent L))"

text \<open>A receipt whose common fields are the logger's.\<close>

definition stamped :: "ProvenanceLogger \<Rightarrow> int \<Rightarrow> ustr list \<Rightarrow> ProvenanceReceipt \<Rightarrow> bool" where
  "stamped L now parents r \<longleftrightarrow> r_agent_id r = PStr (ai_agent_id (lg_agent L)) \<and> r_agent_key_id r = PStr (ai_key_id (lg_agent L)) \<and>
     r_parents r = map PStr parents \<and> r_tenant r = lg_tenant L \<and> r_issued_at r = PInt now \<and> r_x_bilateral r = PNone"

lemma prepared:
  assumes "log_state V L S" and "agent_ok H V L" and "step_ok L now parents" and "stamped L now parents r"
    and "distinct (r_taint r)" and "\<forall>v\<in>set (r_taint r). text_field v" and "\<forall>f. text_field (field_value r f)"
    and "parents = [] \<longrightarrow> r_operation r \<in> set ROOTABLE_OPS" and "r_operation r = MERGE \<longrightarrow> 2 \<le> length parents"
    and "\<forall>f\<in>set (REQUIRED_FIELDS_BY_OP (r_operation r)). truthy (field_value r f)"
    and "taint_rule V (ws_receipts S) r"
    and "truthy (r_model r) \<longrightarrow> permits_model (ai_statement (lg_agent L)) (r_model r)"
    and "pv_caps V \<noteq> [] \<longrightarrow> truthy (r_tool r) \<longrightarrow> permits_tool (ai_statement (lg_agent L)) (r_tool r)"
  shows "ready (lg_agent L) r" "pv_caps V \<noteq> [] \<longrightarrow> conformant H V r" "good_entry V (ws_receipts S) r"
proof -
  have known: "has_key (ws_receipts S) p" if "p \<in> set parents" for p
    using assms(3) that known_keys[OF assms(1)] by (simp add: step_ok_def)
  then have sc: "scalar_str p" if "p \<in> set parents" for p using assms(1) that by (simp add: log_state_def)
  have "plain_receipt (ai_key_id (lg_agent L)) r"
    using assms(2-4,6,7) sc by (auto simp: plain_receipt_def stamped_def agent_ok_def good_signer_def step_ok_def text_field_def)
  then show "ready (lg_agent L) r"
    using assms(3-5,8-10) by (auto simp: ready_def stamped_def step_ok_def distinct_map inj_on_def)
  show "pv_caps V \<noteq> [] \<longrightarrow> conformant H V r"
  proof
    assume c: "pv_caps V \<noteq> []"
    have "py_le (PInt e) (PInt now) = Inr False" if "st_expires_at (ai_statement (lg_agent L)) = Some e" for e
      using assms(3) that by (auto simp: step_ok_def)
    then show "conformant H V r"
      unfolding conformant_def using c assms(2,4,12,13) by (auto simp: stamped_def agent_ok_def)
  qed
  show "good_entry V (ws_receipts S) r"
    using known assms(4,6,11) by (auto simp: good_entry_def stamped_def text_field_def)
qed

lemma built:
  assumes "build_receipt L now oper parents taint = Inr r" and "distinct taint"
  shows "stamped L now parents r" "r_operation r = oper" "distinct (r_taint r)" "set (r_taint r) = set taint"
    "r_input_hash r = PStr []" "r_output_hash r = PStr []" "r_model r = PStr []" "r_tool r = PStr []" "r_corpus r = PStr []"
    "r_ruleset_hash r = PStr []" "r_guardrail_verdict r = PStr []"
proof -
  obtain ts where t: "py_sort taint = Inr ts" using assms(1) by (auto simp: build_receipt_def)
  have d: "distinct ts" using py_sort_mset[OF t] assms(2) mset_eq_imp_distinct_iff by blast
  have s: "set ts = set taint" by (rule py_sort_set[OF t])
  have r: "\<lparr>r_agent_id = PStr (ai_agent_id (lg_agent L)), r_agent_key_id = PStr (ai_key_id (lg_agent L)), r_operation = oper,
      r_parents = map PStr parents, r_input_hash = PStr [], r_output_hash = PStr [], r_model = PStr [], r_tool = PStr [],
      r_corpus = PStr [], r_ruleset_hash = PStr [], r_guardrail_verdict = PStr [], r_taint = ts,
      r_tenant = lg_tenant L, r_issued_at = PInt now, r_x_bilateral = PNone, r_jws = [], r_receipt_hash = []\<rparr> = r"
    using assms(1) by (simp add: build_receipt_def t)
  show "stamped L now parents r" "r_operation r = oper" "distinct (r_taint r)" "set (r_taint r) = set taint"
    "r_input_hash r = PStr []" "r_output_hash r = PStr []" "r_model r = PStr []" "r_tool r = PStr []" "r_corpus r = PStr []"
    "r_ruleset_hash r = PStr []" "r_guardrail_verdict r = PStr []"
    unfolding r[symmetric] stamped_def by (simp_all add: d s)
qed

text \<open>The taint the logger computes is that of the parents in the verifier's table.\<close>

lemma inherited_taint:
  assumes "log_state V L S" and "step_ok L now parents" and "\<forall>t\<in>set extra. scalar_str t"
    and "inherit_taint L parents extra = Inr ts"
  shows "distinct ts" "\<forall>v\<in>set ts. text_field v"
    "set ts = PStr ` set extra \<union> {v. \<exists>h q. h \<in> set parents \<and> map_of (ws_receipts S) h = Some q \<and> v \<in> set (r_taint q)}"
proof -
  let ?inh = "concat (map (\<lambda>p. dict_get (lg_taint L) p []) parents)"
  have look: "set (dict_get (lg_taint L) p []) = {v. \<exists>q. map_of (ws_receipts S) p = Some q \<and> v \<in> set (r_taint q)}"
    if "p \<in> set parents" for p
  proof -
    have "has_key (lg_taint L) p" using assms(2) that by (simp add: step_ok_def)
    then obtain ts where t: "map_of (lg_taint L) p = Some ts" by (auto simp: has_key_def)
    have "map_option set (map_of (lg_taint L) p) = map_option (\<lambda>r. set (r_taint r)) (map_of (ws_receipts S) p)"
      using assms(1) unfolding log_state_def by blast
    then show ?thesis using t by (cases "map_of (ws_receipts S) p") (auto simp: dict_get_def)
  qed
  have inh: "set ?inh = {v. \<exists>h q. h \<in> set parents \<and> map_of (ws_receipts S) h = Some q \<and> v \<in> set (r_taint q)}"
    using look by auto
  have tx: "\<forall>v\<in>set (map PStr extra @ ?inh). text_field v"
    using assms(1,3) unfolding set_append inh log_state_def by (auto simp: text_field_def)
  obtain ys where y: "py_set [] (map PStr extra @ ?inh) = Inr ys" "set ys = set (map PStr extra @ ?inh)" "distinct ys"
    using py_set_texts[of "[]" "map PStr extra @ ?inh"] tx by (auto simp: text_field_def)
  have "ts = ys" using assms(4) y(1) by (simp add: inherit_taint_def)
  then show "distinct ts" "\<forall>v\<in>set ts. text_field v"
    "set ts = PStr ` set extra \<union> {v. \<exists>h q. h \<in> set parents \<and> map_of (ws_receipts S) h = Some q \<and> v \<in> set (r_taint q)}"
    using y tx inh by auto
qed

lemma all_field_values:
  "(\<forall>f. P (field_value r f)) \<longleftrightarrow> P (r_input_hash r) \<and> P (r_output_hash r) \<and> P (r_model r) \<and> P (r_tool r) \<and> P (r_corpus r) \<and>
     P (r_ruleset_hash r) \<and> P (r_guardrail_verdict r)"
  (is "?L \<longleftrightarrow> ?R")
proof
  assume l: ?L
  show ?R
    using l[rule_format, of F_input_hash] l[rule_format, of F_output_hash] l[rule_format, of F_model] l[rule_format, of F_tool]
      l[rule_format, of F_corpus] l[rule_format, of F_ruleset_hash] l[rule_format, of F_guardrail_verdict] by simp
next
  assume r: ?R
  show ?L
  proof
    fix f show "P (field_value r f)" using r by (cases f) simp_all
  qed
qed

lemma text_PStr [simp]: "text_field (PStr s) \<longleftrightarrow> scalar_str s"
  by (simp add: text_field_def)

lemma scalar_Nil [simp]: "scalar_str []"
  by (simp add: scalar_str_def)

lemma scalar_append [simp]: "scalar_str (s @ t) \<longleftrightarrow> scalar_str s \<and> scalar_str t"
  by (simp add: scalar_str_def)

lemma hash_values:
  assumes "digest32 (h_env H)"
  shows "hash_text H s = Inr h \<Longrightarrow> scalar_str h \<and> h \<noteq> []" "hash_obj H v = Inr h \<Longrightarrow> scalar_str h \<and> h \<noteq> []"
  using hash_scalar[OF assms] by (auto simp: hash_text_def hash_obj_def)

text \<open>The operations that add to the taint of their parents.\<close>

lemma spreading_rule:
  assumes "stamped L now parents r" and "r_operation r \<noteq> SANITISATION"
    and "{v. \<exists>h q. h \<in> set parents \<and> map_of T h = Some q \<and> v \<in> set (r_taint q)} \<subseteq> set (r_taint r)"
  shows "taint_rule V T r"
  using assms by (auto simp: taint_rule_def inherited_tags_def inherits_def taint_tags_def stamped_def)

definition emits :: "host \<Rightarrow> ProvenanceVerifier \<Rightarrow> ProvenanceLogger \<Rightarrow> walk_state \<Rightarrow> ustr list \<Rightarrow> (ustr \<times> ProvenanceLogger \<times> ustr list) \<Rightarrow> bool" where
  "emits H V L S lines res \<longleftrightarrow> (\<exists>r. emit_receipt H r L lines = Inr res \<and> ready (lg_agent L) r \<and>
     (pv_caps V \<noteq> [] \<longrightarrow> conformant H V r) \<and> good_entry V (ws_receipts S) r)"

lemma emitsI:
  assumes "emit_receipt H r L lines = Inr res" and "log_state V L S" and "agent_ok H V L" and "step_ok L now parents"
    and "stamped L now parents r" and "distinct (r_taint r)" and "\<forall>v\<in>set (r_taint r). text_field v" and "\<forall>f. text_field (field_value r f)"
    and "parents = [] \<longrightarrow> r_operation r \<in> set ROOTABLE_OPS" and "r_operation r = MERGE \<longrightarrow> 2 \<le> length parents"
    and "\<forall>f\<in>set (REQUIRED_FIELDS_BY_OP (r_operation r)). truthy (field_value r f)"
    and "taint_rule V (ws_receipts S) r"
    and "truthy (r_model r) \<longrightarrow> permits_model (ai_statement (lg_agent L)) (r_model r)"
    and "pv_caps V \<noteq> [] \<longrightarrow> truthy (r_tool r) \<longrightarrow> permits_tool (ai_statement (lg_agent L)) (r_tool r)"
  shows "emits H V L S lines res"
  unfolding emits_def using prepared[OF assms(2-14)] assms(1) by blast

lemma user_input_emits:
  assumes "log_state V L S" "agent_ok H V L" "call_ok V L (User_Input now text taint)"
    and "run_call H (User_Input now text taint) L lines = Inr res"
  shows "emits H V L S lines res"
proof -
  obtain h ts r where r: "hash_text H text = Inr h" "py_set [] (map PStr (if taint = [] then [lit ''external_user''] else taint)) = Inr ts"
      "build_receipt L now USER_INPUT [] ts = Inr r" "emit_receipt H (r\<lparr>r_input_hash := PStr h\<rparr>) L lines = Inr res"
    using assms(4) by (auto simp: record_user_input_def)
  have t: "distinct ts" "\<forall>v\<in>set ts. text_field v"
    using py_set_texts[of "[]" "map PStr (if taint = [] then [lit ''external_user''] else taint)"] r(2) assms(3) by auto
  note b = built[OF r(3) t(1)]
  have h: "scalar_str h" "h \<noteq> []" using hash_values(1)[OF _ r(1)] assms(2) by (auto simp: agent_ok_def)
  show ?thesis
    by (rule emitsI[OF r(4) assms(1,2), of now "[]"])
      (use assms(3) b t h in \<open>auto simp: all_field_values stamped_def ROOTABLE_OPS_def taint_rule_def\<close>)
qed

lemma spread_emits:
  assumes "log_state V L S" and "agent_ok H V L" and "step_ok L now parents" and "\<forall>t\<in>set extra. scalar_str t"
    and "inherit_taint L parents extra = Inr ts" and "build_receipt L now oper parents ts = Inr r0"
    and "emit_receipt H r L lines = Inr res"
    and "stamped L now parents r" and "r_operation r = oper" and "oper \<noteq> SANITISATION" and "r_taint r = r_taint r0"
    and "\<forall>f. text_field (field_value r f)"
    and "parents = [] \<longrightarrow> oper \<in> set ROOTABLE_OPS" and "oper = MERGE \<longrightarrow> 2 \<le> length parents"
    and "\<forall>f\<in>set (REQUIRED_FIELDS_BY_OP oper). truthy (field_value r f)"
    and "truthy (r_model r) \<longrightarrow> permits_model (ai_statement (lg_agent L)) (r_model r)"
    and "truthy (r_tool r) \<longrightarrow> permits_tool (ai_statement (lg_agent L)) (r_tool r)"
  shows "emits H V L S lines res"
proof -
  note t = inherited_taint[OF assms(1,3-5)]
  note b = built[OF assms(6) t(1)]
  have "taint_rule V (ws_receipts S) r"
    by (rule spreading_rule[OF assms(8)]) (use assms(9-11) b(4) t(3) in auto)
  then show ?thesis
    using emitsI[OF assms(7,1,2,3,8)] b(3,4) t(2) assms(9,11-17) by simp
qed

lemma model_call_emits:
  assumes "log_state V L S" "agent_ok H V L" "call_ok V L (Model_Call now parents model inp outp extra)"
    and "run_call H (Model_Call now parents model inp outp extra) L lines = Inr res"
  shows "emits H V L S lines res"
proof -
  obtain hi ho ts r where r: "check_model_permission L model = Inr ()" "hash_text H inp = Inr hi" "hash_text H outp = Inr ho"
      "inherit_taint L parents extra = Inr ts" "build_receipt L now MODEL_CALL parents ts = Inr r"
      "emit_receipt H (r\<lparr>r_model := PStr model, r_input_hash := PStr hi, r_output_hash := PStr ho\<rparr>) L lines = Inr res"
    using assms(4) by (auto simp: record_model_call_def)
  have h: "scalar_str hi" "hi \<noteq> []" "scalar_str ho" "ho \<noteq> []"
    using hash_values(1)[OF _ r(2)] hash_values(1)[OF _ r(3)] assms(2) by (auto simp: agent_ok_def)
  have ok: "step_ok L now parents" "\<forall>t\<in>set extra. scalar_str t" using assms(3) by (simp_all add: name_ok_def)
  note b = built[OF r(5) inherited_taint(1)[OF assms(1) ok r(4)]]
  show ?thesis
    by (rule spread_emits[OF assms(1,2) ok r(4,5,6)])
      (use assms(3) r(1) b h in \<open>auto simp: all_field_values stamped_def name_ok_def check_model_permission_def\<close>)
qed

lemma tool_call_emits:
  assumes "log_state V L S" "agent_ok H V L" "call_ok V L (Tool_Call now parents tl_name args outp extra)"
    and "run_call H (Tool_Call now parents tl_name args outp extra) L lines = Inr res"
  shows "emits H V L S lines res"
proof -
  obtain hi ho ts r where r: "check_tool_permission L tl_name = Inr ()" "hash_obj H args = Inr hi" "hash_obj H outp = Inr ho"
      "inherit_taint L parents extra = Inr ts" "build_receipt L now TOOL_CALL parents ts = Inr r"
      "emit_receipt H (r\<lparr>r_tool := PStr tl_name, r_input_hash := PStr hi, r_output_hash := PStr ho\<rparr>) L lines = Inr res"
    using assms(4) by (auto simp: record_tool_call_def)
  have h: "scalar_str hi" "hi \<noteq> []" "scalar_str ho" "ho \<noteq> []"
    using hash_values(2)[OF _ r(2)] hash_values(2)[OF _ r(3)] assms(2) by (auto simp: agent_ok_def)
  have ok: "step_ok L now parents" "\<forall>t\<in>set extra. scalar_str t" using assms(3) by (simp_all add: name_ok_def)
  note b = built[OF r(5) inherited_taint(1)[OF assms(1) ok r(4)]]
  show ?thesis
    by (rule spread_emits[OF assms(1,2) ok r(4,5,6)])
      (use assms(3) r(1) b h in \<open>auto simp: all_field_values stamped_def name_ok_def check_tool_permission_def\<close>)
qed

lemma retrieval_emits:
  assumes "log_state V L S" "agent_ok H V L" "call_ok V L (Retrieval_Of now parents corpus query chunks trusted)"
    and "run_call H (Retrieval_Of now parents corpus query chunks trusted) L lines = Inr res"
  shows "emits H V L S lines res"
proof -
  obtain hi ho ts r where r: "hash_text H query = Inr hi" "hash_obj H chunks = Inr ho"
      "inherit_taint L parents (if trusted then [] else [lit ''rag:'' @ corpus]) = Inr ts" "build_receipt L now RETRIEVAL parents ts = Inr r"
      "emit_receipt H (r\<lparr>r_corpus := PStr corpus, r_input_hash := PStr hi, r_output_hash := PStr ho\<rparr>) L lines = Inr res"
    using assms(4) by (auto simp: record_retrieval_def)
  have h: "scalar_str hi" "hi \<noteq> []" "scalar_str ho" "ho \<noteq> []"
    using hash_values(1)[OF _ r(1)] hash_values(2)[OF _ r(2)] assms(2) by (auto simp: agent_ok_def)
  have ok: "step_ok L now parents" "\<forall>t\<in>set (if trusted then [] else [lit ''rag:'' @ corpus]). scalar_str t" using assms(3) by (simp_all add: name_ok_def)
  note b = built[OF r(4) inherited_taint(1)[OF assms(1) ok r(3)]]
  show ?thesis
    by (rule spread_emits[OF assms(1,2) ok r(3,4,5)])
      (use assms(3) b h in \<open>auto simp: all_field_values stamped_def name_ok_def\<close>)
qed

lemma guardrail_scan_emits:
  assumes "log_state V L S" "agent_ok H V L" "call_ok V L (Guardrail_Scan now parents scanned verdict ruleset target)"
    and "run_call H (Guardrail_Scan now parents scanned verdict ruleset target) L lines = Inr res"
  shows "emits H V L S lines res"
proof -
  obtain hi ts r where r: "hash_text H scanned = Inr hi"
      "inherit_taint L parents [lit ''guardrail-scan:'' @ target] = Inr ts" "build_receipt L now GUARDRAIL_SCAN parents ts = Inr r"
      "emit_receipt H (r\<lparr>r_input_hash := PStr hi, r_ruleset_hash := PStr ruleset, r_guardrail_verdict := PStr verdict\<rparr>) L lines = Inr res"
    using assms(4) by (auto simp: record_guardrail_scan_def)
  have h: "scalar_str hi" "hi \<noteq> []"
    using hash_values(1)[OF _ r(1)] assms(2) by (auto simp: agent_ok_def)
  have ok: "step_ok L now parents" "\<forall>t\<in>set [lit ''guardrail-scan:'' @ target]. scalar_str t" using assms(3) by (simp_all add: name_ok_def)
  note b = built[OF r(3) inherited_taint(1)[OF assms(1) ok r(2)]]
  show ?thesis
    by (rule spread_emits[OF assms(1,2) ok r(2,3,4)])
      (use assms(3) b h in \<open>auto simp: all_field_values stamped_def name_ok_def ROOTABLE_OPS_def\<close>)
qed

lemma agent_handoff_emits:
  assumes "log_state V L S" "agent_ok H V L" "call_ok V L (Agent_Handoff now parents target handoff)"
    and "run_call H (Agent_Handoff now parents target handoff) L lines = Inr res"
  shows "emits H V L S lines res"
proof -
  obtain hi ho ts r where r: "hash_obj H (PDict [(lit ''target'', PStr target)]) = Inr hi" "hash_obj H handoff = Inr ho"
      "inherit_taint L parents [] = Inr ts" "build_receipt L now AGENT_HANDOFF parents ts = Inr r"
      "emit_receipt H (r\<lparr>r_input_hash := PStr hi, r_output_hash := PStr ho\<rparr>) L lines = Inr res"
    using assms(4) by (auto simp: record_agent_handoff_def)
  have h: "scalar_str hi" "hi \<noteq> []" "scalar_str ho" "ho \<noteq> []"
    using hash_values(2)[OF _ r(1)] hash_values(2)[OF _ r(2)] assms(2) by (auto simp: agent_ok_def)
  have ok: "step_ok L now parents" "\<forall>t\<in>set ([] :: ustr list). scalar_str t" using assms(3) by (simp_all add: name_ok_def)
  note b = built[OF r(4) inherited_taint(1)[OF assms(1) ok r(3)]]
  show ?thesis
    by (rule spread_emits[OF assms(1,2) ok r(3,4,5)])
      (use assms(3) b h in \<open>auto simp: all_field_values stamped_def\<close>)
qed

lemma merge_emits:
  assumes "log_state V L S" "agent_ok H V L" "call_ok V L (Merge_Of now parents outp extra)"
    and "run_call H (Merge_Of now parents outp extra) L lines = Inr res"
  shows "emits H V L S lines res"
proof -
  obtain ho ts r where r: "2 \<le> length parents" "hash_obj H outp = Inr ho"
      "inherit_taint L parents extra = Inr ts" "build_receipt L now MERGE parents ts = Inr r"
      "emit_receipt H (r\<lparr>r_output_hash := PStr ho\<rparr>) L lines = Inr res"
    using assms(4) by (auto simp: record_merge_def)
  have h: "scalar_str ho" "ho \<noteq> []"
    using hash_values(2)[OF _ r(2)] assms(2) by (auto simp: agent_ok_def)
  have ok: "step_ok L now parents" "\<forall>t\<in>set extra. scalar_str t" using assms(3) by (simp_all add: name_ok_def)
  note b = built[OF r(4) inherited_taint(1)[OF assms(1) ok r(3)]]
  show ?thesis
    by (rule spread_emits[OF assms(1,2) ok r(3,4,5)])
      (use assms(3) r(1) b h in \<open>auto simp: all_field_values stamped_def\<close>)
qed

lemma split_join: "ss \<noteq> [] \<Longrightarrow> \<forall>w\<in>set ss. c \<notin> set w \<Longrightarrow> split_on c (join_with c ss) = ss"
proof (induction ss)
  case (Cons w ss)
  then show ?case by (cases ss) (simp_all add: split_on_plain split_on_append)
qed simp

lemma removed_tags_join:
  assumes "\<forall>t\<in>set ss. name_ok t \<and> 44 \<notin> set t"
  shows "set (removed_tags (REMOVED_PREFIX @ join_with 44 ss)) = set ss"
proof -
  have p: "startswith (REMOVED_PREFIX @ u) REMOVED_PREFIX" for u by (simp add: startswith_def)
  show ?thesis
  proof (cases ss)
    case Nil
    then show ?thesis by (simp add: removed_tags_def p)
  next
    case (Cons t ts)
    then have "split_on 44 (join_with 44 ss) = ss" using assms by (intro split_join) auto
    then show ?thesis using assms by (auto simp: removed_tags_def p name_ok_def)
  qed
qed

lemma scalar_join: "\<forall>w\<in>set ss. scalar_str w \<Longrightarrow> scalar_str (join_with 44 ss)"
proof (induction ss)
  case (Cons w ss)
  then show ?case by (cases ss) (simp_all add: scalar_str_def is_surrogate_def)
qed simp

lemma sanitise_emits:
  assumes "log_state V L S" "agent_ok H V L" "call_ok V L (Sanitise now parents removed sanitiser inp outp)"
    and "run_call H (Sanitise now parents removed sanitiser inp outp) L lines = Inr res"
  shows "emits H V L S lines res"
proof -
  obtain inherited hi ho r rs where r: "inherit_taint L parents [] = Inr inherited" "hash_text H inp = Inr hi" "hash_text H outp = Inr ho"
      "build_receipt L now SANITISATION parents (filter (\<lambda>t. \<not> py_mem t (map PStr removed)) inherited) = Inr r"
      "py_sorted utf16_key (remdups removed) = Inr rs"
      "emit_receipt H (r\<lparr>r_tool := PStr sanitiser, r_input_hash := PStr hi, r_output_hash := PStr ho,
        r_corpus := PStr (REMOVED_PREFIX @ join_with 44 rs)\<rparr>) L lines = Inr res" (is "emit_receipt H ?r L lines = _")
    using assms(4) by (auto simp: record_sanitisation_def)
  have ok: "step_ok L now parents" "\<forall>t\<in>set ([] :: ustr list). scalar_str t" using assms(3) by simp_all
  note t = inherited_taint[OF assms(1) ok r(1)]
  have "distinct (filter (\<lambda>t. \<not> py_mem t (map PStr removed)) inherited)" using t(1) by simp
  note b = built[OF r(4) this]
  have h: "scalar_str hi" "hi \<noteq> []" "scalar_str ho" "ho \<noteq> []"
    using hash_values(1)[OF _ r(2)] hash_values(1)[OF _ r(3)] assms(2) by (auto simp: agent_ok_def)
  have rs: "set rs = set removed" using py_sorted_set[OF r(5)] by simp
  have rt: "set (removed_tags (REMOVED_PREFIX @ join_with 44 rs)) = set removed"
    using removed_tags_join[of rs] assms(3) by (simp add: rs)
  have sj: "scalar_str (join_with 44 rs)" using assms(3) by (intro scalar_join) (auto simp: rs name_ok_def)
  have inh: "inherited_tags (ws_receipts S) ?r = {x. PStr x \<in> set inherited}"
    using b(1) t(3) by (auto simp: inherited_tags_def inherits_def stamped_def)
  have "taint_tags ?r = inherited_tags (ws_receipts S) ?r - set removed"
    using b(4) by (auto simp: taint_tags_def inh)
  then have rule: "taint_rule V (ws_receipts S) ?r"
    using assms(2,3) b(1,2) by (auto simp: taint_rule_def rt stamped_def agent_ok_def)
  have tx: "\<forall>v\<in>set (r_taint ?r). text_field v" using b(4) t(2) by auto
  show ?thesis
    by (rule emitsI[OF r(6) assms(1,2) ok(1) _ _ tx _ _ _ _ rule])
      (use assms(3) b h sj in \<open>auto simp: all_field_values stamped_def name_ok_def\<close>)
qed

lemma call_emits:
  assumes "log_state V L S" "agent_ok H V L" "call_ok V L c" "run_call H c L lines = Inr res"
  shows "emits H V L S lines res"
proof (cases c)
  case (User_Input now inp taint)
  then show ?thesis using user_input_emits assms by blast
next
  case (Model_Call now parents model inp outp extra)
  then show ?thesis using model_call_emits assms by blast
next
  case (Tool_Call now parents tl_name args outp extra)
  then show ?thesis using tool_call_emits assms by blast
next
  case (Retrieval_Of now parents corpus query chunks trusted)
  then show ?thesis using retrieval_emits assms by blast
next
  case (Guardrail_Scan now parents scanned verdict ruleset target)
  then show ?thesis using guardrail_scan_emits assms by blast
next
  case (Agent_Handoff now parents target handoff)
  then show ?thesis using agent_handoff_emits assms by blast
next
  case (Sanitise now parents removed sanitiser inp outp)
  then show ?thesis using sanitise_emits assms by blast
next
  case (Merge_Of now parents outp extra)
  then show ?thesis using merge_emits assms by blast
qed

section \<open>A run of the logger\<close>

text \<open>
  The lines written so far and the logger after them.  Each call has known parents and printable texts, gives a
  receipt that is not already in the file, and a line of at most 32 KiB.
\<close>

inductive log_run :: "host \<Rightarrow> ProvenanceVerifier \<Rightarrow> ProvenanceLogger \<Rightarrow> ProvenanceLogger \<Rightarrow> ustr list \<Rightarrow> bool" for H V L0 where
  fresh: "log_run H V L0 L0 []"
| call: "log_run H V L0 L lines \<Longrightarrow> call_ok V L c \<Longrightarrow> run_call H c L lines = Inr (h, L', lines') \<Longrightarrow>
     \<not> has_key (lg_taint L) h \<Longrightarrow> length (last lines') \<le> MAX_PAYLOAD_BYTES \<Longrightarrow> log_run H V L0 L' lines'"

lemma log_run_state:
  assumes "log_run H V L0 L lines" and "agent_ok H V L0" and "lg_taint L0 = []"
  shows "\<exists>S. rfold (prov_verify_line H V) lines walk0 = Inr S \<and> log_state V L S \<and>
    pr_receipt_count (ws_report S) = length lines \<and>
    lg_agent L = lg_agent L0 \<and> lg_hybrid L = lg_hybrid L0 \<and> lg_tenant L = lg_tenant L0"
  using assms(1)
proof (induction rule: log_run.induct)
  case fresh
  show ?case by (simp add: log_state_def walk0_def prov_report0_def good_table_def has_key_def assms(3))
next
  case (call L lines c h L' lines')
  then obtain S where s: "rfold (prov_verify_line H V) lines walk0 = Inr S" "log_state V L S"
      "pr_receipt_count (ws_report S) = length lines"
      "lg_agent L = lg_agent L0" "lg_hybrid L = lg_hybrid L0" "lg_tenant L = lg_tenant L0" by blast
  have a: "agent_ok H V L" using assms(2) s(4-6) by (simp add: agent_ok_def)
  obtain r where r: "emit_receipt H r L lines = Inr (h, L', lines')" "ready (lg_agent L) r"
      "pv_caps V \<noteq> [] \<longrightarrow> conformant H V r" "good_entry V (ws_receipts S) r"
    using call_emits[OF s(2) a call.hyps(2,3)] unfolding emits_def by blast
  obtain line S' where l: "lines' = lines @ [line]" "prov_verify_line H V line S = Inr S'" "log_state V L' S'"
      "pr_receipt_count (ws_report S') = Suc (pr_receipt_count (ws_report S))"
      "lg_agent L' = lg_agent L" "lg_hybrid L' = lg_hybrid L" "lg_tenant L' = lg_tenant L"
    using emit_accepted[OF s(2) r(2) _ _ r(3,4) _ r(1) call.hyps(4,5)] a unfolding agent_ok_def by blast
  show ?case using s l by (intro exI[of _ S']) (simp add: rfold_append)
qed

lemma log_run_verifies:
  assumes "log_run H V L0 L lines" and "agent_ok H V L0" and "lg_taint L0 = []"
  shows "\<exists>R. prov_verify_chain H V lines = Inr R \<and> pr_valid R \<and> pr_receipt_count R = length lines"
proof -
  obtain S where s: "rfold (prov_verify_line H V) lines walk0 = Inr S" "log_state V L S" "pr_receipt_count (ws_report S) = length lines"
    using log_run_state[OF assms] by blast
  then have "prov_verify_chain H V lines = Inr (ws_report S)"
    by (simp add: prov_verify_chain_def good_table_passes log_state_def)
  then show ?thesis using s by (simp add: log_state_def)
qed

end
