(* ===== verification/TraceLaws.thy ===== *)
theory TraceLaws
  imports TaintLaws
begin

text \<open>
  The walk to the roots on a file the verifier calls valid: the tolerant loader reads the same receipts, and the
  walk returns exactly the receipts a receipt descends from, each of them once.  Then what holds of the extension
  blocks of a receipt at its place in such a file.
\<close>

section \<open>The tolerant loader on a strict file\<close>

lemma object_hook_off: "make_object True kvs = Inr v \<Longrightarrow> make_object False kvs = Inr v"
proof -
  let ?step = "\<lambda>kv (seen :: pydict). if has_key seen (fst kv) then Inl (ValueError ''duplicate key'') else Inr (dict_set (fst kv) (snd kv) seen)"
  have "rfold ?step kvs d = Inr v \<Longrightarrow> foldl (\<lambda>d kv. dict_set (fst kv) (snd kv) d) d kvs = v" for d
    by (induction kvs arbitrary: d) (auto split: if_splits)
  then show "make_object True kvs = Inr v \<Longrightarrow> make_object False kvs = Inr v"
    by (simp add: make_object_def reject_duplicate_keys_def)
qed

lemma read_hook_off:
  "hook \<Longrightarrow> read_value fp hook n s = Inr x \<Longrightarrow> read_value fp False n s = Inr x"
  "hook \<Longrightarrow> read_elems fp hook n s = Inr y \<Longrightarrow> read_elems fp False n s = Inr y"
  "hook \<Longrightarrow> read_members fp hook n s = Inr z \<Longrightarrow> read_members fp False n s = Inr z"
proof (induction fp hook n s and fp hook n s and fp hook n s arbitrary: x and y and z rule: read_value_read_elems_read_members.induct)
  case (2 fp hook n s)
  then show ?case by (auto simp: Let_def split: if_splits dest: object_hook_off)
next
  case (4 fp hook n s)
  then show ?case by (fastforce simp: Let_def split: if_splits)
next
  case (6 fp hook n s)
  then show ?case by (fastforce simp: Let_def split: if_splits)
qed auto

lemma loads_hook_off: "json_loads fp True s = Inr v \<Longrightarrow> json_loads fp False s = Inr v"
  by (auto simp: json_loads_def simp del: read_value.simps split: if_splits dest: read_hook_off(1)[OF TrueI])

lemma loads_bytes_hook_off: "json_loads_bytes fp True s = Inr v \<Longrightarrow> json_loads_bytes fp False s = Inr v"
  by (auto simp: json_loads_bytes_def dest: loads_hook_off)

lemma from_jws_lenient: "from_jws H True False jws = Inr r \<Longrightarrow> from_jws H False vs jws = Inr r"
  by (erule from_jwsE) (auto simp: from_jws_def Let_def dest: loads_bytes_hook_off)

lemma load_carried: "carries H line r \<Longrightarrow> load_line H line T = Inr (dict_set (r_receipt_hash r) r T)"
  unfolding carries_def
  by (auto simp: load_line_def require_key_def from_jws_lenient dest!: loads_hook_off)


text \<open>The table the loader builds from lines that carry receipts.\<close>

lemma load_all_table:
  assumes "\<forall>line\<in>set lines. \<exists>r. carries H line r"
  obtains T where "load_all H lines = Inr T" "\<And>h q. map_of T h = Some q \<Longrightarrow> q \<in> file_receipts H lines \<and> r_receipt_hash q = h"
    "\<And>q. q \<in> file_receipts H lines \<Longrightarrow> has_key T (r_receipt_hash q)"
proof -
  have "\<exists>T. load_all H lines = Inr T \<and> (\<forall>h q. map_of T h = Some q \<longrightarrow> q \<in> file_receipts H lines \<and> r_receipt_hash q = h) \<and>
    (\<forall>q\<in>file_receipts H lines. has_key T (r_receipt_hash q))"
    using assms
  proof (induction lines rule: rev_induct)
    case Nil
    then show ?case by (simp add: load_all_def file_receipts_def)
  next
    case (snoc line lines)
    then obtain T r where t: "load_all H lines = Inr T" "\<forall>h q. map_of T h = Some q \<longrightarrow> q \<in> file_receipts H lines \<and> r_receipt_hash q = h"
        "\<forall>q\<in>file_receipts H lines. has_key T (r_receipt_hash q)" "carries H line r" by auto
    have f: "file_receipts H (lines @ [line]) = insert r (file_receipts H lines)"
    proof -
      have "carries H line q \<longleftrightarrow> q = r" for q using t(4) carries_unique by blast
      then show ?thesis by (auto simp: file_receipts_def)
    qed
    have "load_all H (lines @ [line]) = Inr (dict_set (r_receipt_hash r) r T)"
      using t(1) load_carried[OF t(4)] by (simp add: load_all_def rfold_append)
    then show ?case using t(2,3) unfolding f by (auto simp: has_key_def split: if_splits)
  qed
  then show thesis using that by blast
qed

lemma upstream_trans: "upstream T (r_receipt_hash q) a \<Longrightarrow> upstream T h q \<Longrightarrow> map_of T (r_receipt_hash q) = Some q \<Longrightarrow> upstream T h a"
  by (induction rule: upstream.induct) (auto intro: upstream.intros)

lemma upstream_descends:
  assumes "\<And>h q. map_of T h = Some q \<longleftrightarrow> q \<in> F \<and> r_receipt_hash q = h" and "r \<in> F"
  shows "upstream T (r_receipt_hash r) a \<longleftrightarrow> descends F a r"
proof
  show "upstream T (r_receipt_hash r) a \<Longrightarrow> descends F a r"
  proof (induction rule: upstream.induct)
    case (start q)
    then have "q = r" using assms(1)[of "r_receipt_hash r" r] assms(2) by simp
    then show ?case using assms(2) by (auto intro: descends.itself)
  next
    case (parent q k p)
    then have "parent_link F p q" using descends_mem[OF parent.IH] by (auto simp: parent_link_def assms(1))
    then have "descends F p q" by (auto intro: descends.intros simp: parent_link_def)
    then show ?case using parent.IH descends_trans by blast
  qed
  show "descends F a r \<Longrightarrow> upstream T (r_receipt_hash r) a"
  proof (induction rule: descends.induct)
    case itself
    then show ?case by (intro upstream.start) (simp add: assms(1))
  next
    case (child b c)
    then have "b \<in> F" "c \<in> F" "PStr (r_receipt_hash b) \<in> set (r_parents c)" by (simp_all add: parent_link_def)
    then have "map_of T (r_receipt_hash b) = Some b" "map_of T (r_receipt_hash c) = Some c" by (simp_all only: assms(1))
    then have "upstream T (r_receipt_hash c) b"
      using upstream.parent[OF upstream.start] \<open>PStr (r_receipt_hash b) \<in> set (r_parents c)\<close> by blast
    moreover have "map_of T (r_receipt_hash b) = Some b" using descends_mem[OF child.hyps(1)] assms(1) by blast
    ultimately show ?case using upstream_trans[OF child.IH] by blast
  qed
qed

lemma trace_exact:
  assumes "prov_verify_chain H V lines = Inr R" and "pr_valid R" and "distinct_hashes H lines" and "r \<in> file_receipts H lines"
  shows "\<exists>out. trace H (r_receipt_hash r) lines = Inr out \<and> set out = {a. descends (file_receipts H lines) a r} \<and>
    distinct (map r_receipt_hash out)"
proof -
  let ?F = "file_receipts H lines"
  obtain T where t: "load_all H lines = Inr T" "\<And>h q. map_of T h = Some q \<Longrightarrow> q \<in> ?F \<and> r_receipt_hash q = h"
      "\<And>q. q \<in> ?F \<Longrightarrow> has_key T (r_receipt_hash q)"
    by (rule load_all_table[of lines H]) (use receipts_ok[OF assms(1,2)] in blast, blast)
  have m: "map_of T h = Some q \<longleftrightarrow> q \<in> ?F \<and> r_receipt_hash q = h" for h q
  proof
    assume q: "q \<in> ?F \<and> r_receipt_hash q = h"
    then obtain q' where "map_of T h = Some q'" using t(3) by (auto simp: has_key_def)
    then show "map_of T h = Some q" using t(2) q same_hash_same_receipt[OF assms(3)] by metis
  qed (rule t(2))
  have "\<forall>v\<in>set (r_parents q). is_str v" if "q \<in> ?F" for q
    using parents_in_file[OF assms(1-3) that] by fastforce
  then obtain out where o: "trace_loop T [PStr (r_receipt_hash r)] [] [] = Inr out"
    using trace_loop_total[of "[PStr (r_receipt_hash r)]" T "[]" "[]"] m by auto
  have "trace H (r_receipt_hash r) lines = Inr out" using o t(1) t(3)[OF assms(4)] by (simp add: trace_def)
  then show ?thesis using trace_upstream[OF _ t(1)] upstream_descends[OF m assms(4)] by auto
qed

section \<open>The other extension blocks\<close>

lemma valid_extensions:
  assumes "prov_verify_chain H V (pre @ line # post) = Inr R" and "pr_valid R" and "carries H line r"
  shows "authority_bound H r \<and> intent_respected H r \<and> countersigned H V r \<and>
    (\<exists>T L. (\<forall>h q. map_of T h = Some q \<longrightarrow> q \<in> file_receipts H pre \<and> r_receipt_hash q = h) \<and>
       (\<forall>h l. map_of L h = Some l \<longrightarrow> l \<in> set (pre @ [line]) \<and> (\<exists>q. carries H l q \<and> r_receipt_hash q = h)) \<and>
       finding_faithful H T r \<and> anchored H T L r)"
proof (rule chain_at[OF assms(1,2)])
  fix S q assume s: "walked H V pre S" "carries H line q"
    and e: "ext_ok H V (S\<lparr>ws_lines := dict_set (r_receipt_hash q) line (ws_lines S)\<rparr>) q"
  have q: "q = r" by (rule carries_unique[OF s(2) assms(3)])
  let ?T = "ws_receipts S" and ?L = "dict_set (r_receipt_hash r) line (ws_lines S)"
  have x: "authority_bound H r" "intent_respected H r" "countersigned H V r" "finding_faithful H ?T r" "anchored H ?T ?L r"
    using e unfolding ext_ok_def q by simp_all
  have t: "\<forall>h q. map_of ?T h = Some q \<longrightarrow> q \<in> file_receipts H pre \<and> r_receipt_hash q = h"
    using s(1) unfolding walked_def by blast
  have old: "\<forall>h l. map_of (ws_lines S) h = Some l \<longrightarrow> l \<in> set pre \<and> (\<exists>q. carries H l q \<and> r_receipt_hash q = h)"
    using s(1) unfolding walked_def by blast
  have l: "l \<in> set (pre @ [line]) \<and> (\<exists>q. carries H l q \<and> r_receipt_hash q = h)" if "map_of ?L h = Some l" for h l
  proof (cases "h = r_receipt_hash r")
    case True
    then have "l = line" using that by simp
    then show ?thesis using True assms(3) by auto
  next
    case False
    then have "map_of (ws_lines S) h = Some l" using that by simp
    then show ?thesis using old by simp
  qed
  show ?thesis using x t l by blast
qed

end
