(* ===== verification/ReceiptExamples.thy ===== *)
theory ReceiptExamples
  imports LoggerLaws TraceLaws ChainExamples
begin

text \<open>
  A provenance file of three receipts, written by the logger and accepted by the verifier: a user's input, the
  model call on it, and a sanitisation that removes the user's taint.  The host instantiates the digest and the
  signature with the small total functions of the other examples; the bytes of each receipt are evaluated part by
  part in the kernel.
\<close>

section \<open>A host, an agent and its verifier\<close>

definition host1 :: host where
  "host1 = \<lparr>h_env = env1, float_parse = (\<lambda>_. NaN), obj_str = (\<lambda>_. []), str_int = (\<lambda>_. Inl (ValueError ''int'')),
     tsa_verify = (\<lambda>_ _ _. (False, [])), mldsa = False\<rparr>"

definition statement1 :: CapabilityStatement where
  "statement1 = \<lparr>st_agent_id = lit ''agent:a'', st_key_id = lit ''4203000000000000'', st_public_key_pem = lit ''pem'',
     st_allowed_models = [], st_allowed_tools = [], st_data_classifications = [], st_sanitisation_authority = [lit ''external_user''],
     st_issuer = lit ''acme'', st_issued_at = 90, st_expires_at = Some 500, st_signature = lit ''j+UAAAAAAAAAAAAAAAAAAAAAAAAAAAAAAAAAAAAAAAA=''\<rparr>"

definition agent1 :: AgentIdentity where
  "agent1 = \<lparr>ai_agent_id = lit ''agent:a'', ai_sign = sha256 env0, ai_statement = statement1\<rparr>"

definition prov_verifier1 :: ProvenanceVerifier where
  "prov_verifier1 = \<lparr>pv_keys = [(ai_key_id agent1, lit ''pem'')], pv_exec_keys = [], pv_caps = [(ai_key_id agent1, ai_statement agent1)],
     pv_pq_keys = [], pv_require_pq = False\<rparr>"

definition logger1 :: ProvenanceLogger where
  "logger1 = \<lparr>lg_agent = agent1, lg_tenant = PNone, lg_hybrid = None, lg_taint = []\<rparr>"

section \<open>Three receipts\<close>

definition header_text :: ustr where
  "header_text =
     lit ''{\"alg\":\"EdDSA\",\"crit\":[\"raucle/v1\"],\"kid\":\"4203000000000000\",\"raucle/v1\":\"provenance\",\"typ\":\"provena'' @
     lit ''nce-receipt/v1\"}''"

definition header64 :: ustr where
  "header64 =
     lit ''eyJhbGciOiJFZERTQSIsImNyaXQiOlsicmF1Y2xlL3YxIl0sImtpZCI6IjQyMDMwMDAwMDAwMDAwMDAiLCJyYXVjbGUvdjEiOiJw'' @
     lit ''cm92ZW5hbmNlIiwidHlwIjoicHJvdmVuYW5jZS1yZWNlaXB0L3YxIn0''"

definition receipt_id1 :: ustr where
  "receipt_id1 =
     lit ''sha256:6d3e000000000000000000000000000000000000000000000000000000000000''"

definition receipt_id2 :: ustr where
  "receipt_id2 =
     lit ''sha256:6024000000000000000000000000000000000000000000000000000000000000''"

definition receipt_id3 :: ustr where
  "receipt_id3 =
     lit ''sha256:5043000000000000000000000000000000000000000000000000000000000000''"

definition unsigned1 :: ProvenanceReceipt where
  "unsigned1 = \<lparr>r_agent_id = PStr (lit ''agent:a''), r_agent_key_id = PStr (lit ''4203000000000000''), r_operation = USER_INPUT,
     r_parents = [], r_input_hash = PStr (lit ''sha256:d102000000000000000000000000000000000000000000000000000000000000''),
     r_output_hash = PStr [], r_model = PStr [], r_tool = PStr [],
     r_corpus = PStr [], r_ruleset_hash = PStr [], r_guardrail_verdict = PStr [], r_taint = [PStr (lit ''external_user'')],
     r_tenant = PNone, r_issued_at = PInt 100, r_x_bilateral = PNone, r_jws = [], r_receipt_hash = []\<rparr>"

definition payload_text1 :: ustr where
  "payload_text1 =
     lit ''{\"agent_id\":\"agent:a\",\"agent_key_id\":\"4203000000000000\",\"iat\":100,\"input_hash\":\"sha256:d102000000000'' @
     lit ''000000000000000000000000000000000000000000000000000\",\"iss\":\"raucle-detect/provenance\",\"operation\":\"u'' @
     lit ''ser_input\",\"parents\":[],\"taint\":[\"external_user\"],\"typ\":\"provenance-receipt/v1\"}''"

definition payload64_1 :: ustr where
  "payload64_1 =
     lit ''eyJhZ2VudF9pZCI6ImFnZW50OmEiLCJhZ2VudF9rZXlfaWQiOiI0MjAzMDAwMDAwMDAwMDAwIiwiaWF0IjoxMDAsImlucHV0X2hh'' @
     lit ''c2giOiJzaGEyNTY6ZDEwMjAwMDAwMDAwMDAwMDAwMDAwMDAwMDAwMDAwMDAwMDAwMDAwMDAwMDAwMDAwMDAwMDAwMDAwMDAwMDAw'' @
     lit ''MCIsImlzcyI6InJhdWNsZS1kZXRlY3QvcHJvdmVuYW5jZSIsIm9wZXJhdGlvbiI6InVzZXJfaW5wdXQiLCJwYXJlbnRzIjpbXSwi'' @
     lit ''dGFpbnQiOlsiZXh0ZXJuYWxfdXNlciJdLCJ0eXAiOiJwcm92ZW5hbmNlLXJlY2VpcHQvdjEifQ''"

definition signature64_1 :: ustr where
  "signature64_1 =
     lit ''HhIAAAAAAAAAAAAAAAAAAAAAAAAAAAAAAAAAAAAAAAA''"

definition signed1 :: ProvenanceReceipt where
  "signed1 = unsigned1\<lparr>r_jws := header64 @ 46 # payload64_1 @ 46 # signature64_1, r_receipt_hash := receipt_id1\<rparr>"

definition unsigned2 :: ProvenanceReceipt where
  "unsigned2 = \<lparr>r_agent_id = PStr (lit ''agent:a''), r_agent_key_id = PStr (lit ''4203000000000000''), r_operation = MODEL_CALL,
     r_parents = [PStr receipt_id1], r_input_hash = PStr (lit ''sha256:d102000000000000000000000000000000000000000000000000000000000000''),
     r_output_hash = PStr (lit ''sha256:e802000000000000000000000000000000000000000000000000000000000000''), r_model = PStr (lit ''m''), r_tool = PStr [],
     r_corpus = PStr [], r_ruleset_hash = PStr [], r_guardrail_verdict = PStr [], r_taint = [PStr (lit ''external_user'')],
     r_tenant = PNone, r_issued_at = PInt 101, r_x_bilateral = PNone, r_jws = [], r_receipt_hash = []\<rparr>"

definition payload_text2 :: ustr where
  "payload_text2 =
     lit ''{\"agent_id\":\"agent:a\",\"agent_key_id\":\"4203000000000000\",\"iat\":101,\"input_hash\":\"sha256:d102000000000'' @
     lit ''000000000000000000000000000000000000000000000000000\",\"iss\":\"raucle-detect/provenance\",\"model\":\"m\",\"o'' @
     lit ''peration\":\"model_call\",\"output_hash\":\"sha256:e802000000000000000000000000000000000000000000000000000'' @
     lit ''000000000\",\"parents\":[\"sha256:6d3e000000000000000000000000000000000000000000000000000000000000\"],\"ta'' @
     lit ''int\":[\"external_user\"],\"typ\":\"provenance-receipt/v1\"}''"

definition payload64_2 :: ustr where
  "payload64_2 =
     lit ''eyJhZ2VudF9pZCI6ImFnZW50OmEiLCJhZ2VudF9rZXlfaWQiOiI0MjAzMDAwMDAwMDAwMDAwIiwiaWF0IjoxMDEsImlucHV0X2hh'' @
     lit ''c2giOiJzaGEyNTY6ZDEwMjAwMDAwMDAwMDAwMDAwMDAwMDAwMDAwMDAwMDAwMDAwMDAwMDAwMDAwMDAwMDAwMDAwMDAwMDAwMDAw'' @
     lit ''MCIsImlzcyI6InJhdWNsZS1kZXRlY3QvcHJvdmVuYW5jZSIsIm1vZGVsIjoibSIsIm9wZXJhdGlvbiI6Im1vZGVsX2NhbGwiLCJv'' @
     lit ''dXRwdXRfaGFzaCI6InNoYTI1NjplODAyMDAwMDAwMDAwMDAwMDAwMDAwMDAwMDAwMDAwMDAwMDAwMDAwMDAwMDAwMDAwMDAwMDAw'' @
     lit ''MDAwMDAwMDAwIiwicGFyZW50cyI6WyJzaGEyNTY6NmQzZTAwMDAwMDAwMDAwMDAwMDAwMDAwMDAwMDAwMDAwMDAwMDAwMDAwMDAw'' @
     lit ''MDAwMDAwMDAwMDAwMDAwMDAwMCJdLCJ0YWludCI6WyJleHRlcm5hbF91c2VyIl0sInR5cCI6InByb3ZlbmFuY2UtcmVjZWlwdC92'' @
     lit ''MSJ9''"

definition signature64_2 :: ustr where
  "signature64_2 =
     lit ''y_gAAAAAAAAAAAAAAAAAAAAAAAAAAAAAAAAAAAAAAAA''"

definition signed2 :: ProvenanceReceipt where
  "signed2 = unsigned2\<lparr>r_jws := header64 @ 46 # payload64_2 @ 46 # signature64_2, r_receipt_hash := receipt_id2\<rparr>"

definition unsigned3 :: ProvenanceReceipt where
  "unsigned3 = \<lparr>r_agent_id = PStr (lit ''agent:a''), r_agent_key_id = PStr (lit ''4203000000000000''), r_operation = SANITISATION,
     r_parents = [PStr receipt_id2], r_input_hash = PStr (lit ''sha256:e802000000000000000000000000000000000000000000000000000000000000''),
     r_output_hash = PStr (lit ''sha256:da02000000000000000000000000000000000000000000000000000000000000''), r_model = PStr [], r_tool = PStr (lit ''clean''),
     r_corpus = PStr (lit ''removed:external_user''), r_ruleset_hash = PStr [], r_guardrail_verdict = PStr [], r_taint = [],
     r_tenant = PNone, r_issued_at = PInt 102, r_x_bilateral = PNone, r_jws = [], r_receipt_hash = []\<rparr>"

definition payload_text3 :: ustr where
  "payload_text3 =
     lit ''{\"agent_id\":\"agent:a\",\"agent_key_id\":\"4203000000000000\",\"corpus\":\"removed:external_user\",\"iat\":102,\"'' @
     lit ''input_hash\":\"sha256:e802000000000000000000000000000000000000000000000000000000000000\",\"iss\":\"raucle-'' @
     lit ''detect/provenance\",\"operation\":\"sanitisation\",\"output_hash\":\"sha256:da020000000000000000000000000000'' @
     lit ''00000000000000000000000000000000\",\"parents\":[\"sha256:60240000000000000000000000000000000000000000000'' @
     lit ''00000000000000000\"],\"taint\":[],\"tool\":\"clean\",\"typ\":\"provenance-receipt/v1\"}''"

definition payload64_3 :: ustr where
  "payload64_3 =
     lit ''eyJhZ2VudF9pZCI6ImFnZW50OmEiLCJhZ2VudF9rZXlfaWQiOiI0MjAzMDAwMDAwMDAwMDAwIiwiY29ycHVzIjoicmVtb3ZlZDpl'' @
     lit ''eHRlcm5hbF91c2VyIiwiaWF0IjoxMDIsImlucHV0X2hhc2giOiJzaGEyNTY6ZTgwMjAwMDAwMDAwMDAwMDAwMDAwMDAwMDAwMDAw'' @
     lit ''MDAwMDAwMDAwMDAwMDAwMDAwMDAwMDAwMDAwMDAwMDAwMCIsImlzcyI6InJhdWNsZS1kZXRlY3QvcHJvdmVuYW5jZSIsIm9wZXJh'' @
     lit ''dGlvbiI6InNhbml0aXNhdGlvbiIsIm91dHB1dF9oYXNoIjoic2hhMjU2OmRhMDIwMDAwMDAwMDAwMDAwMDAwMDAwMDAwMDAwMDAw'' @
     lit ''MDAwMDAwMDAwMDAwMDAwMDAwMDAwMDAwMDAwMDAwMDAiLCJwYXJlbnRzIjpbInNoYTI1Njo2MDI0MDAwMDAwMDAwMDAwMDAwMDAw'' @
     lit ''MDAwMDAwMDAwMDAwMDAwMDAwMDAwMDAwMDAwMDAwMDAwMDAwMDAwMDAwIl0sInRhaW50IjpbXSwidG9vbCI6ImNsZWFuIiwidHlw'' @
     lit ''IjoicHJvdmVuYW5jZS1yZWNlaXB0L3YxIn0''"

definition signature64_3 :: ustr where
  "signature64_3 =
     lit ''uhcAAAAAAAAAAAAAAAAAAAAAAAAAAAAAAAAAAAAAAAA''"

definition signed3 :: ProvenanceReceipt where
  "signed3 = unsigned3\<lparr>r_jws := header64 @ 46 # payload64_3 @ 46 # signature64_3, r_receipt_hash := receipt_id3\<rparr>"

definition log1 :: "ustr list" where
  "log1 = [envelope_line signed1, envelope_line signed2, envelope_line signed3]"

section \<open>Signing, part by part\<close>

lemma sign_parts:
  assumes "canonical_json (h_env H) (PDict (v1_header (ai_key_id A))) = Inr hb"
    and "rbind (payload r) (\<lambda>pd. canonical_json (h_env H) (PDict pd)) = Inr pb" and "b64 hb = hs" and "b64 pb = ps"
    and "b64 (ai_sign A (hs @ 46 # ps)) = ss"
    and "list_all (\<lambda>c. c < 128) (hs @ 46 # ps @ 46 # ss)" and "SHA256_PREFIX @ sha256_hex (h_env H) (hs @ 46 # ps @ 46 # ss) = h"
  shows "sign_receipt H A None r = Inr (r\<lparr>r_jws := hs @ 46 # ps @ 46 # ss, r_receipt_hash := h\<rparr>)"
  using assms by (auto simp: sign_receipt_def receipt_hash_of_def ascii_encode_def Let_def)

lemma header_canon: "canonical_json (h_env host1) (PDict (v1_header (ai_key_id agent1))) = Inr header_text"
  by code_simp

lemma header_b: "b64 header_text = header64"
  by code_simp

lemma payload1: "rbind (payload unsigned1) (\<lambda>pd. canonical_json (h_env host1) (PDict pd)) = Inr payload_text1"
  by code_simp

lemma payload1_b: "b64 payload_text1 = payload64_1"
  by code_simp

lemma signature1: "b64 (ai_sign agent1 (header64 @ 46 # payload64_1)) = signature64_1"
  by code_simp

lemma ascii1: "list_all (\<lambda>c. c < 128) (header64 @ 46 # payload64_1 @ 46 # signature64_1)"
  by code_simp

lemma digest1: "SHA256_PREFIX @ sha256_hex (h_env host1) (header64 @ 46 # payload64_1 @ 46 # signature64_1) = receipt_id1"
  by code_simp

lemma sign1: "sign_receipt host1 agent1 None unsigned1 = Inr signed1"
  unfolding signed1_def by (rule sign_parts[OF header_canon payload1 header_b payload1_b signature1 ascii1 digest1])

lemma payload2: "rbind (payload unsigned2) (\<lambda>pd. canonical_json (h_env host1) (PDict pd)) = Inr payload_text2"
  by code_simp

lemma payload2_b: "b64 payload_text2 = payload64_2"
  by code_simp

lemma signature2: "b64 (ai_sign agent1 (header64 @ 46 # payload64_2)) = signature64_2"
  by code_simp

lemma ascii2: "list_all (\<lambda>c. c < 128) (header64 @ 46 # payload64_2 @ 46 # signature64_2)"
  by code_simp

lemma digest2: "SHA256_PREFIX @ sha256_hex (h_env host1) (header64 @ 46 # payload64_2 @ 46 # signature64_2) = receipt_id2"
  by code_simp

lemma sign2: "sign_receipt host1 agent1 None unsigned2 = Inr signed2"
  unfolding signed2_def by (rule sign_parts[OF header_canon payload2 header_b payload2_b signature2 ascii2 digest2])

lemma payload3: "rbind (payload unsigned3) (\<lambda>pd. canonical_json (h_env host1) (PDict pd)) = Inr payload_text3"
  by code_simp

lemma payload3_b: "b64 payload_text3 = payload64_3"
  by code_simp

lemma signature3: "b64 (ai_sign agent1 (header64 @ 46 # payload64_3)) = signature64_3"
  by code_simp

lemma ascii3: "list_all (\<lambda>c. c < 128) (header64 @ 46 # payload64_3 @ 46 # signature64_3)"
  by code_simp

lemma digest3: "SHA256_PREFIX @ sha256_hex (h_env host1) (header64 @ 46 # payload64_3 @ 46 # signature64_3) = receipt_id3"
  by code_simp

lemma sign3: "sign_receipt host1 agent1 None unsigned3 = Inr signed3"
  unfolding signed3_def by (rule sign_parts[OF header_canon payload3 header_b payload3_b signature3 ascii3 digest3])

lemma envelope_carries:
  assumes "from_jws H True False (r_jws r) = Inr r"
  shows "carries H (envelope_line r) r"
  using assms unfolding carries_def
  by (intro exI[of _ "[(lit ''receipt_hash'', PStr (r_receipt_hash r)), (lit ''jws'', PStr (r_jws r))]"])
    (simp add: envelope_line_parses envelope_def unknown_envelope_fields_def ENVELOPE_FIELDS_def)

section \<open>The run of the logger\<close>

lemma signed_fields [simp]:
  "r_receipt_hash signed1 = receipt_id1" "r_receipt_hash signed2 = receipt_id2" "r_receipt_hash signed3 = receipt_id3"
  "r_taint signed1 = [PStr (lit ''external_user'')]" "r_taint signed2 = [PStr (lit ''external_user'')]" "r_taint signed3 = []"
  "r_parents signed1 = []" "r_parents signed2 = [PStr receipt_id1]" "r_parents signed3 = [PStr receipt_id2]"
  by (simp_all add: signed1_def signed2_def signed3_def unsigned1_def unsigned2_def unsigned3_def)

definition logger2 :: ProvenanceLogger where
  "logger2 = logger1\<lparr>lg_taint := [(receipt_id1, [PStr (lit ''external_user'')])]\<rparr>"

definition logger3 :: ProvenanceLogger where
  "logger3 = logger1\<lparr>lg_taint := [(receipt_id1, [PStr (lit ''external_user'')]), (receipt_id2, [PStr (lit ''external_user'')])]\<rparr>"

definition logger4 :: ProvenanceLogger where
  "logger4 = logger1\<lparr>lg_taint := [(receipt_id1, [PStr (lit ''external_user'')]), (receipt_id2, [PStr (lit ''external_user'')]),
     (receipt_id3, [])]\<rparr>"

definition call1 :: log_call where
  "call1 = User_Input 100 (lit ''hi'') []"

definition call2 :: log_call where
  "call2 = Model_Call 101 [receipt_id1] (lit ''m'') (lit ''hi'') (lit ''yo'') []"

definition call3 :: log_call where
  "call3 = Sanitise 102 [receipt_id2] [lit ''external_user''] (lit ''clean'') (lit ''yo'') (lit ''ok'')"

lemma prepare1:
  "rbind (hash_text host1 (lit ''hi'')) (\<lambda>h. rbind (py_set [] [PStr (lit ''external_user'')]) (\<lambda>ts.
     rbind (build_receipt logger1 100 USER_INPUT [] ts) (\<lambda>r. Inr (r\<lparr>r_input_hash := PStr h\<rparr>)))) = Inr unsigned1"
  by code_simp

lemma emit_signed:
  assumes "sign_receipt H (lg_agent L) (lg_hybrid L) r = Inr r'" and "py_set [] (r_taint r') = Inr ts"
  shows "emit_receipt H r L lines = Inr (r_receipt_hash r', L\<lparr>lg_taint := dict_set (r_receipt_hash r') ts (lg_taint L)\<rparr>, lines @ [envelope_line r'])"
  using assms by (simp add: emit_receipt_def)

lemma logger_parts [simp]: "lg_agent logger1 = agent1" "lg_hybrid logger1 = None" "lg_taint logger1 = []"
  "lg_agent logger2 = agent1" "lg_hybrid logger2 = None" "lg_agent logger3 = agent1" "lg_hybrid logger3 = None"
  by (simp_all add: logger1_def logger2_def logger3_def)

lemma ids_differ: "receipt_id1 \<noteq> receipt_id2" "receipt_id1 \<noteq> receipt_id3" "receipt_id2 \<noteq> receipt_id3"
  by code_simp+

lemma call1_runs: "run_call host1 call1 logger1 [] = Inr (receipt_id1, logger2, [envelope_line signed1])"
proof -
  have e: "emit_receipt host1 unsigned1 logger1 [] = Inr (receipt_id1, logger2, [envelope_line signed1])"
    using emit_signed[of host1 logger1 unsigned1 signed1 _ "[]"] sign1 by (simp add: logger2_def py_hashable_def)
  show ?thesis using prepare1 e
    by (auto simp: call1_def record_user_input_def py_hashable_def)
qed

lemma prepare2: "(case call2 of Model_Call now parents model inp outp extra \<Rightarrow>
     rbind (check_model_permission logger2 model) (\<lambda>_. rbind (hash_text host1 inp) (\<lambda>hi. rbind (hash_text host1 outp) (\<lambda>ho.
     rbind (inherit_taint logger2 parents extra) (\<lambda>ts. rbind (build_receipt logger2 now MODEL_CALL parents ts) (\<lambda>r.
     Inr (r\<lparr>r_model := PStr model, r_input_hash := PStr hi, r_output_hash := PStr ho\<rparr>)))))) | _ \<Rightarrow> Inl (ValueError ''call'')) = Inr unsigned2"
  by code_simp

lemma call2_runs: "run_call host1 call2 logger2 lines = Inr (receipt_id2, logger3, lines @ [envelope_line signed2])"
proof -
  have e: "emit_receipt host1 unsigned2 logger2 lines = Inr (receipt_id2, logger3, lines @ [envelope_line signed2])"
    using emit_signed[of host1 logger2 unsigned2 signed2 _ lines] sign2 ids_differ
    by (simp add: logger2_def logger3_def py_hashable_def)
  show ?thesis using prepare2 e
    by (auto simp: call2_def record_model_call_def)
qed

lemma prepare3: "(case call3 of Sanitise now parents removed sanitiser inp outp \<Rightarrow>
     rbind (inherit_taint logger3 parents []) (\<lambda>inherited. rbind (hash_text host1 inp) (\<lambda>hi. rbind (hash_text host1 outp) (\<lambda>ho.
     rbind (build_receipt logger3 now SANITISATION parents (filter (\<lambda>t. \<not> py_mem t (map PStr removed)) inherited)) (\<lambda>r.
     rbind (py_sorted utf16_key (remdups removed)) (\<lambda>rs.
     Inr (r\<lparr>r_tool := PStr sanitiser, r_input_hash := PStr hi, r_output_hash := PStr ho,
        r_corpus := PStr (REMOVED_PREFIX @ join_with 44 rs)\<rparr>)))))) | _ \<Rightarrow> Inl (ValueError ''call'')) = Inr unsigned3"
  by code_simp

lemma call3_runs: "run_call host1 call3 logger3 lines = Inr (receipt_id3, logger4, lines @ [envelope_line signed3])"
proof -
  have e: "emit_receipt host1 unsigned3 logger3 lines = Inr (receipt_id3, logger4, lines @ [envelope_line signed3])"
    using emit_signed[of host1 logger3 unsigned3 signed3 _ lines] sign3 ids_differ
    by (simp add: logger3_def logger4_def py_hashable_def)
  show ?thesis using prepare3 e
    by (auto simp: call3_def record_sanitisation_def)
qed

lemma no_comma: "44 \<notin> set (lit ''external_user'')"
  by (simp add: lit_def)

lemma calls_ok: "call_ok prov_verifier1 logger1 call1" "call_ok prov_verifier1 logger2 call2" "call_ok prov_verifier1 logger3 call3"
  by (simp_all add: call1_def call2_def call3_def step_ok_def logger2_def logger3_def MIN_SAFE_INT_def MAX_SAFE_INT_def
    agent1_def statement1_def has_key_def name_ok_def prov_verifier1_def permits_tool_def permits_sanitising_def no_comma)

lemma statement1_ok: "verify_statement host1 prov_verifier1 (ai_statement agent1) (ai_key_id agent1)"
  by code_simp

lemma digest32_env: "digest32 (h_env host1)"
  by (auto simp: digest32_def host1_def env1_def env0_def wf_bytes_def list_all_iff)

lemma agent1_ok: "agent_ok host1 prov_verifier1 logger1"
proof -
  have "wf_bytes (sha256 env0 m)" for m using digest32_env by (auto simp: digest32_def host1_def env1_def)
  then show ?thesis
    using statement1_ok digest32_env
    by (auto simp: agent_ok_def good_signer_def knows_signer_def logger1_def agent1_def statement1_def prov_verifier1_def host1_def env1_def)
qed

lemma short_lines: "length (envelope_line signed1) \<le> MAX_PAYLOAD_BYTES"
  "length (envelope_line signed2) \<le> MAX_PAYLOAD_BYTES" "length (envelope_line signed3) \<le> MAX_PAYLOAD_BYTES"
  by code_simp+

lemma log1_run: "log_run host1 prov_verifier1 logger1 logger4 log1"
proof -
  have "log_run host1 prov_verifier1 logger1 logger2 [envelope_line signed1]"
    by (rule log_run.call[OF log_run.fresh calls_ok(1) call1_runs]) (simp_all add: has_key_def short_lines)
  then have "log_run host1 prov_verifier1 logger1 logger3 ([envelope_line signed1] @ [envelope_line signed2])"
    by (rule log_run.call[OF _ calls_ok(2) call2_runs]) (use ids_differ in \<open>simp_all add: has_key_def short_lines logger2_def\<close>)
  then have "log_run host1 prov_verifier1 logger1 logger4 (([envelope_line signed1] @ [envelope_line signed2]) @ [envelope_line signed3])"
    by (rule log_run.call[OF _ calls_ok(3) call3_runs]) (use ids_differ in \<open>simp_all add: has_key_def short_lines logger3_def\<close>)
  then show ?thesis by (simp add: log1_def)
qed


section \<open>What the file holds\<close>

lemma unsigned_plain: "\<forall>r\<in>{unsigned1, unsigned2, unsigned3}. plain_receipt (ai_key_id agent1) r"
  by (simp add: plain_receipt_def all_field_values unsigned1_def unsigned2_def unsigned3_def agent1_def statement1_def
    receipt_id1_def receipt_id2_def MIN_SAFE_INT_def MAX_SAFE_INT_def)

lemma unsigned_structure: "structural_errors unsigned1 = Inr []" "structural_errors unsigned2 = Inr []" "structural_errors unsigned3 = Inr []"
  by code_simp+

lemma signed_carried:
  "carries host1 (envelope_line signed1) signed1" "carries host1 (envelope_line signed2) signed2" "carries host1 (envelope_line signed3) signed3"
proof -
  have g: "good_signer agent1 None" using agent1_ok by (simp add: agent_ok_def)
  have c: "carries host1 (envelope_line r') r'" if "sign_receipt host1 agent1 None r = Inr r'" "r \<in> {unsigned1, unsigned2, unsigned3}"
      "length (envelope_line r') \<le> MAX_PAYLOAD_BYTES" for r r'
  proof -
    have p: "plain_receipt (ai_key_id agent1) r" "structural_errors r = Inr []" using that(2) unsigned_plain unsigned_structure by auto
    show ?thesis using signed_receipt_parses[OF p g that(1) short_line_fits[OF p g that(1,3)]] by (rule envelope_carries)
  qed
  show "carries host1 (envelope_line signed1) signed1" "carries host1 (envelope_line signed2) signed2" "carries host1 (envelope_line signed3) signed3"
    using c[OF sign1] c[OF sign2] c[OF sign3] short_lines by simp_all
qed

lemma log1_receipts: "file_receipts host1 log1 = {signed1, signed2, signed3}"
  using signed_carried carries_unique unfolding file_receipts_def log1_def by fastforce

lemma log1_valid: "\<exists>R. prov_verify_chain host1 prov_verifier1 log1 = Inr R \<and> pr_valid R"
  using log_run_verifies[OF log1_run agent1_ok] by auto

lemma log1_hashes: "distinct_hashes host1 log1"
proof -
  have "sha256_hex (h_env host1) (r_jws a) \<noteq> sha256_hex (h_env host1) (r_jws b)"
    if "receipt_hash_of host1 (r_jws a) = Inr (r_receipt_hash a)" "receipt_hash_of host1 (r_jws b) = Inr (r_receipt_hash b)"
      "r_receipt_hash a \<noteq> r_receipt_hash b" for a b
    using that by (auto simp: receipt_hash_of_def ascii_encode_def split: if_splits)
  moreover have "receipt_hash_of host1 (r_jws a) = Inr (r_receipt_hash a)" if "a \<in> {signed1, signed2, signed3}" for a
    using that signed_carried carries_hash by blast
  moreover have "r_receipt_hash a \<noteq> r_receipt_hash b" if "{a, b} \<subseteq> {signed1, signed2, signed3}" "a \<noteq> b" for a b
    using that ids_differ by auto
  ultimately have "sha256_hex (h_env host1) (r_jws a) \<noteq> sha256_hex (h_env host1) (r_jws b)"
    if "a \<in> {signed1, signed2, signed3}" "b \<in> {signed1, signed2, signed3}" "a \<noteq> b" for a b
    using that by blast
  then have "inj_on (sha256 (h_env host1)) (r_jws ` {signed1, signed2, signed3})"
    by (intro inj_onI) (metis (no_types, lifting) imageE sha256_hex_def)
  then show ?thesis unfolding distinct_hashes_def log1_receipts collision_free_def using digest32_env by blast
qed

lemma log1_descends: "descends (file_receipts host1 log1) signed1 signed3"
proof -
  have "parent_link (file_receipts host1 log1) signed1 signed2" "parent_link (file_receipts host1 log1) signed2 signed3"
    by (simp_all add: parent_link_def log1_receipts)
  moreover have "descends (file_receipts host1 log1) signed1 signed1" by (rule descends.itself) (simp add: log1_receipts)
  ultimately show ?thesis by (blast intro: descends.child)
qed

end
