(* ===== verification/SignatureLaws.thy ===== *)
theory SignatureLaws
  imports ReceiptRound
begin

text \<open>
  What the signatures of a valid file cover: the fields of every receipt are read from bytes that the key registered
  for its agent signed, and where the header declares the hybrid profile, or the verifier requires it, an ML-DSA key
  the verifier holds signed them too.
\<close>

text \<open>The message a compact receipt signs: its first two segments and the dot between them.\<close>

definition signed_message :: "ProvenanceReceipt \<Rightarrow> ustr" where
  "signed_message r = split_on 46 (r_jws r) ! 0 @ 46 # split_on 46 (r_jws r) ! 1"

definition classically_signed :: "host \<Rightarrow> ProvenanceVerifier \<Rightarrow> ProvenanceReceipt \<Rightarrow> bool" where
  "classically_signed H V r \<longleftrightarrow> (\<exists>kid key sig. r_agent_key_id r = PStr kid \<and> map_of (pv_keys V) kid = Some key \<and>
     ed_verify (h_env H) key sig (signed_message r))"

definition pq_signed :: "host \<Rightarrow> ProvenanceVerifier \<Rightarrow> ProvenanceReceipt \<Rightarrow> bool" where
  "pq_signed H V r \<longleftrightarrow> (\<exists>header pqk pq sig. jose_header H (split_on 46 (r_jws r) ! 0) = Inr header \<and> declares_pq1 header \<and>
     get_or_none header ''pqk'' = PStr pqk \<and> map_of (pv_pq_keys V) pqk = Some (Some pq) \<and> length sig = 3309 \<and>
     pq_verify (h_env H) pq sig (signed_message r))"

text \<open>The receipt's fields are the ones its signed payload segment decodes to.\<close>

definition reads_signed_bytes :: "host \<Rightarrow> ProvenanceReceipt \<Rightarrow> bool" where
  "reads_signed_bytes H r \<longleftrightarrow> (\<exists>pb pd r0. b64d (split_on 46 (r_jws r) ! 1) = Inr pb \<and>
     json_loads_bytes (float_parse H) True pb = Inr (PDict pd) \<and> receipt_of_payload pd = Inr r0 \<and>
     r = r0\<lparr>r_jws := r_jws r, r_receipt_hash := r_receipt_hash r\<rparr>)"

lemma hybrid_slot:
  "verify_hybrid H m slot key pq \<Longrightarrow> \<exists>es ps. length ps = 3309 \<and> ed_verify (h_env H) key es m \<and> pq_verify (h_env H) pq ps m"
  by (auto simp: verify_hybrid_def parse_hybrid_signature_def split: option.splits list.splits sum.splits if_splits)

lemma ascii_same [simp]: "ascii_encode s = Inr m \<longleftrightarrow> m = s \<and> list_all (\<lambda>c. c < 128) s"
  by (auto simp: ascii_encode_def)

lemma hybrid_signature:
  assumes "verify_signature_hybrid H V parts key = Inr True"
  obtains header pqk pq es ps where "jose_header H (parts ! 0) = Inr header" "declares_pq1 header"
    "get_or_none header ''pqk'' = PStr pqk" "map_of (pv_pq_keys V) pqk = Some (Some pq)" "length ps = 3309"
    "ed_verify (h_env H) key es (signing_input parts)" "pq_verify (h_env H) pq ps (signing_input parts)"
proof -
  obtain header where h: "jose_header H (parts ! 0) = Inr header" "declares_pq1 header"
    using assms by (auto simp: verify_signature_hybrid_def split: if_splits)
  obtain k where k: "lookup_raw (pv_pq_keys V) (get_or_none header ''pqk'') = Inr k"
    using assms by (auto simp: verify_signature_hybrid_def h)
  obtain pq where q: "k = Some (Some pq)" "verify_hybrid H (signing_input parts) (parts ! 2 @ lit ''.'' @ parts ! 3) key pq"
    using assms by (auto simp: verify_signature_hybrid_def h k split: option.splits if_splits)
  obtain pqk where p: "get_or_none header ''pqk'' = PStr pqk" "map_of (pv_pq_keys V) pqk = Some (Some pq)"
    using k by (auto simp: q(1) lookup_raw_def is_str_iff split: if_splits)
  show thesis using hybrid_slot[OF q(2)] that h p by blast
qed

lemma plain_signature:
  assumes "verify_signature_v1 H parts key = Inr True"
  obtains header sig where "jose_header H (parts ! 0) = Inr header" "\<not> declares_pq1 header" "b64d (parts ! 2) = Inr sig"
    "ed_verify (h_env H) key sig (signing_input parts)"
  using assms by (auto simp: verify_signature_v1_def split: if_splits)

lemma signature_covers:
  assumes "verify_receipt_signature H V r = Inr True"
  shows "classically_signed H V r"
    "length (split_on 46 (r_jws r)) = 4 \<or> (\<exists>header. jose_header H (split_on 46 (r_jws r) ! 0) = Inr header \<and> declares_pq1 header) \<Longrightarrow>
      pq_signed H V r"
proof -
  let ?parts = "split_on 46 (r_jws r)"
  obtain k where k: "lookup_raw (pv_keys V) (r_agent_key_id r) = Inr k"
    using assms by (auto simp: verify_receipt_signature_def)
  obtain key where k1: "k = Some key" using assms by (cases k) (auto simp: verify_receipt_signature_def k)
  obtain kid where k2: "r_agent_key_id r = PStr kid" "map_of (pv_keys V) kid = Some key"
    using k by (auto simp: k1 lookup_raw_def is_str_iff split: if_splits)
  have s: "length ?parts = 4 \<and> verify_signature_hybrid H V ?parts key = Inr True \<or>
      length ?parts = 3 \<and> verify_signature_v1 H ?parts key = Inr True"
    using assms by (auto simp: verify_receipt_signature_def k k1 Let_def split: sum.splits pyexc.splits if_splits)
  have m: "signing_input ?parts = signed_message r" by (simp add: signing_input_def signed_message_def)
  show "classically_signed H V r"
    using s k2 unfolding classically_signed_def m[symmetric] by (blast elim: hybrid_signature plain_signature)
  show "pq_signed H V r" if "length ?parts = 4 \<or> (\<exists>header. jose_header H (?parts ! 0) = Inr header \<and> declares_pq1 header)"
  proof -
    have "verify_signature_hybrid H V ?parts key = Inr True"
      using s that by (auto elim!: plain_signature)
    then show ?thesis unfolding pq_signed_def m[symmetric] by (blast elim: hybrid_signature)
  qed
qed

lemma carried_reads_signed:
  assumes "carries H line r"
  shows "reads_signed_bytes H r"
proof -
  have "from_jws H True False (r_jws r) = Inr r" using assms unfolding carries_def by blast
  then show ?thesis
  proof (rule from_jwsE)
    fix pb pd r0 h
    assume "b64d (split_on 46 (r_jws r) ! 1) = Inr pb" "json_loads_bytes (float_parse H) True pb = Inr (PDict pd)"
      "receipt_of_payload pd = Inr r0" "r = r0\<lparr>r_jws := r_jws r, r_receipt_hash := h\<rparr>"
    moreover from this(4) have "h = r_receipt_hash r" by (metis ProvenanceReceipt.select_convs(17) ProvenanceReceipt.update_convs(17) ProvenanceReceipt.surjective)
    ultimately show "reads_signed_bytes H r" unfolding reads_signed_bytes_def by blast
  qed
qed

lemma valid_file_signed:
  assumes "prov_verify_chain H V lines = Inr R" and "pr_valid R" and "line \<in> set lines"
  shows "\<exists>r. carries H line r \<and> reads_signed_bytes H r \<and> classically_signed H V r \<and>
    (pv_require_pq V \<or> (\<exists>header. jose_header H (split_on 46 (r_jws r) ! 0) = Inr header \<and> declares_pq1 header) \<longrightarrow> pq_signed H V r)"
proof -
  obtain r where r: "carries H line r" "receipt_ok H V r" using receipts_ok[OF assms(1,2)] assms(3) by blast
  have "pv_require_pq V \<Longrightarrow> length (split_on 46 (r_jws r)) = 4" using r(2) by (simp add: receipt_ok_def length_split_on)
  then show ?thesis
    using r carried_reads_signed[OF r(1)] signature_covers[of H V r] unfolding receipt_ok_def by blast
qed

end
