(* ===== verification/ExtensionExamples.thy ===== *)
theory ExtensionExamples
  imports ReceiptExamples SignatureLaws
begin

text \<open>
  A provenance file with extension blocks: a receipt that grants a lease and revokes a capability, and a later one
  that redeems the lease within its scope under another capability.
\<close>

section \<open>Two receipts with extension blocks\<close>

lemma canonical_reads:
  assumes "canonical_json (h_env host1) (PDict d) = Inr b" and "reorder_keys_utf16 (PDict d) = Inr (PDict d)" and "wf_val (PDict d)"
  shows "json_loads_bytes fp hook b = Inr (PDict d)" "wf_bytes b"
proof -
  obtain e where e: "reorder_keys_utf16 (PDict d) = Inr (PDict e)" "json_loads_bytes fp hook b = Inr (PDict e)" "wf_bytes b"
    by (rule canonical_json_object[OF assms(1,3), of fp hook]) (rule that, assumption+)
  then show "json_loads_bytes fp hook b = Inr (PDict d)" "wf_bytes b" using assms(2) by simp_all
qed

definition header_dict :: pydict where
  "header_dict =
    [(lit ''alg'', PStr (lit ''EdDSA'')),
     (lit ''crit'', PList [PStr (lit ''raucle/v1'')]),
     (lit ''kid'', PStr (lit ''4203000000000000'')),
     (lit ''raucle/v1'', PStr (lit ''provenance'')),
     (lit ''typ'', PStr (lit ''provenance-receipt/v1''))]"

definition granting_payload :: pydict where
  "granting_payload =
    [(lit ''agent_id'', PStr (lit ''agent:a'')),
     (lit ''agent_key_id'', PStr (lit ''4203000000000000'')),
     (lit ''iat'', PInt 100),
     (lit ''input_hash'', PStr (lit ''sha256:d102000000000000000000000000000000000000000000000000000000000000'')),
     (lit ''iss'', PStr (lit ''raucle-detect/provenance'')),
     (lit ''operation'', PStr (lit ''user_input'')),
     (lit ''parents'', PList []),
     (lit ''taint'', PList [PStr (lit ''external_user'')]),
     (lit ''typ'', PStr (lit ''provenance-receipt/v1'')),
     (lit ''x_lease'', PDict [(lit ''action'', PStr (lit ''granted'')), (lit ''granted_at'', PInt 100), (lit ''lease_id'', PStr (lit ''lease-1'')), (lit ''scopes'', PDict [(lit ''max_value'', PDict [(lit ''amount'', PInt 10)])]), (lit ''ttl_seconds'', PInt 60)]),
     (lit ''x_revocation'', PDict [(lit ''revoked_ids'', PList [PStr (lit ''cap-1'')])])]"

definition granting_text :: ustr where
  "granting_text =
     lit ''{\"agent_id\":\"agent:a\",\"agent_key_id\":\"4203000000000000\",\"iat\":100,\"input_hash\":\"sha256:d102000000000'' @
     lit ''000000000000000000000000000000000000000000000000000\",\"iss\":\"raucle-detect/provenance\",\"operation\":\"u'' @
     lit ''ser_input\",\"parents\":[],\"taint\":[\"external_user\"],\"typ\":\"provenance-receipt/v1\",\"x_lease\":{\"action\":'' @
     lit ''\"granted\",\"granted_at\":100,\"lease_id\":\"lease-1\",\"scopes\":{\"max_value\":{\"amount\":10}},\"ttl_seconds\":6'' @
     lit ''0},\"x_revocation\":{\"revoked_ids\":[\"cap-1\"]}}''"

definition granting64 :: ustr where
  "granting64 =
     lit ''eyJhZ2VudF9pZCI6ImFnZW50OmEiLCJhZ2VudF9rZXlfaWQiOiI0MjAzMDAwMDAwMDAwMDAwIiwiaWF0IjoxMDAsImlucHV0X2hh'' @
     lit ''c2giOiJzaGEyNTY6ZDEwMjAwMDAwMDAwMDAwMDAwMDAwMDAwMDAwMDAwMDAwMDAwMDAwMDAwMDAwMDAwMDAwMDAwMDAwMDAwMDAw'' @
     lit ''MCIsImlzcyI6InJhdWNsZS1kZXRlY3QvcHJvdmVuYW5jZSIsIm9wZXJhdGlvbiI6InVzZXJfaW5wdXQiLCJwYXJlbnRzIjpbXSwi'' @
     lit ''dGFpbnQiOlsiZXh0ZXJuYWxfdXNlciJdLCJ0eXAiOiJwcm92ZW5hbmNlLXJlY2VpcHQvdjEiLCJ4X2xlYXNlIjp7ImFjdGlvbiI6'' @
     lit ''ImdyYW50ZWQiLCJncmFudGVkX2F0IjoxMDAsImxlYXNlX2lkIjoibGVhc2UtMSIsInNjb3BlcyI6eyJtYXhfdmFsdWUiOnsiYW1v'' @
     lit ''dW50IjoxMH19LCJ0dGxfc2Vjb25kcyI6NjB9LCJ4X3Jldm9jYXRpb24iOnsicmV2b2tlZF9pZHMiOlsiY2FwLTEiXX19''"

definition granting_sig64 :: ustr where
  "granting_sig64 =
     lit ''VuwAAAAAAAAAAAAAAAAAAAAAAAAAAAAAAAAAAAAAAAA''"

definition granting_id :: ustr where
  "granting_id =
     lit ''sha256:ee18000000000000000000000000000000000000000000000000000000000000''"

definition granting_jws :: ustr where
  "granting_jws = header64 @ 46 # granting64 @ 46 # granting_sig64"

definition granting :: ProvenanceReceipt where
  "granting = \<lparr>r_agent_id = PStr (lit ''agent:a''), r_agent_key_id = PStr (lit ''4203000000000000''), r_operation = USER_INPUT,
     r_parents = [], r_input_hash = PStr (lit ''sha256:d102000000000000000000000000000000000000000000000000000000000000''),
     r_output_hash = PStr [], r_model = PStr [], r_tool = PStr [], r_corpus = PStr [], r_ruleset_hash = PStr [],
     r_guardrail_verdict = PStr [], r_taint = [PStr (lit ''external_user'')],
     r_tenant = PNone, r_issued_at = PInt 100, r_x_bilateral = PNone, r_jws = granting_jws, r_receipt_hash = granting_id\<rparr>"

definition redeeming_payload :: pydict where
  "redeeming_payload =
    [(lit ''agent_id'', PStr (lit ''agent:a'')),
     (lit ''agent_key_id'', PStr (lit ''4203000000000000'')),
     (lit ''iat'', PInt 130),
     (lit ''input_hash'', PStr (lit ''sha256:e802000000000000000000000000000000000000000000000000000000000000'')),
     (lit ''iss'', PStr (lit ''raucle-detect/provenance'')),
     (lit ''operation'', PStr (lit ''user_input'')),
     (lit ''parents'', PList []),
     (lit ''taint'', PList [PStr (lit ''external_user'')]),
     (lit ''typ'', PStr (lit ''provenance-receipt/v1'')),
     (lit ''x_gate'', PDict [(lit ''authorization'', PDict [(lit ''capability_id'', PStr (lit ''cap-2'')), (lit ''chain_digest'', PStr (lit ''b14a000000000000000000000000000000000000000000000000000000000000'')), (lit ''issuer'', PStr (lit ''acme'')), (lit ''key_id'', PStr (lit ''key0''))])]),
     (lit ''x_lease'', PDict [(lit ''action'', PStr (lit ''redeemed'')), (lit ''lease_id'', PStr (lit ''lease-1'')), (lit ''scopes'', PDict [(lit ''max_value'', PDict [(lit ''amount'', PInt 5)])])])]"

definition redeeming_text :: ustr where
  "redeeming_text =
     lit ''{\"agent_id\":\"agent:a\",\"agent_key_id\":\"4203000000000000\",\"iat\":130,\"input_hash\":\"sha256:e802000000000'' @
     lit ''000000000000000000000000000000000000000000000000000\",\"iss\":\"raucle-detect/provenance\",\"operation\":\"u'' @
     lit ''ser_input\",\"parents\":[],\"taint\":[\"external_user\"],\"typ\":\"provenance-receipt/v1\",\"x_gate\":{\"authoriza'' @
     lit ''tion\":{\"capability_id\":\"cap-2\",\"chain_digest\":\"b14a0000000000000000000000000000000000000000000000000'' @
     lit ''00000000000\",\"issuer\":\"acme\",\"key_id\":\"key0\"}},\"x_lease\":{\"action\":\"redeemed\",\"lease_id\":\"lease-1\",\"'' @
     lit ''scopes\":{\"max_value\":{\"amount\":5}}}}''"

definition redeeming64 :: ustr where
  "redeeming64 =
     lit ''eyJhZ2VudF9pZCI6ImFnZW50OmEiLCJhZ2VudF9rZXlfaWQiOiI0MjAzMDAwMDAwMDAwMDAwIiwiaWF0IjoxMzAsImlucHV0X2hh'' @
     lit ''c2giOiJzaGEyNTY6ZTgwMjAwMDAwMDAwMDAwMDAwMDAwMDAwMDAwMDAwMDAwMDAwMDAwMDAwMDAwMDAwMDAwMDAwMDAwMDAwMDAw'' @
     lit ''MCIsImlzcyI6InJhdWNsZS1kZXRlY3QvcHJvdmVuYW5jZSIsIm9wZXJhdGlvbiI6InVzZXJfaW5wdXQiLCJwYXJlbnRzIjpbXSwi'' @
     lit ''dGFpbnQiOlsiZXh0ZXJuYWxfdXNlciJdLCJ0eXAiOiJwcm92ZW5hbmNlLXJlY2VpcHQvdjEiLCJ4X2dhdGUiOnsiYXV0aG9yaXph'' @
     lit ''dGlvbiI6eyJjYXBhYmlsaXR5X2lkIjoiY2FwLTIiLCJjaGFpbl9kaWdlc3QiOiJiMTRhMDAwMDAwMDAwMDAwMDAwMDAwMDAwMDAw'' @
     lit ''MDAwMDAwMDAwMDAwMDAwMDAwMDAwMDAwMDAwMDAwMDAwMDAwIiwiaXNzdWVyIjoiYWNtZSIsImtleV9pZCI6ImtleTAifX0sInhf'' @
     lit ''bGVhc2UiOnsiYWN0aW9uIjoicmVkZWVtZWQiLCJsZWFzZV9pZCI6ImxlYXNlLTEiLCJzY29wZXMiOnsibWF4X3ZhbHVlIjp7ImFt'' @
     lit ''b3VudCI6NX19fX0''"

definition redeeming_sig64 :: ustr where
  "redeeming_sig64 =
     lit ''GWcAAAAAAAAAAAAAAAAAAAAAAAAAAAAAAAAAAAAAAAA''"

definition redeeming_id :: ustr where
  "redeeming_id =
     lit ''sha256:7093000000000000000000000000000000000000000000000000000000000000''"

definition redeeming_jws :: ustr where
  "redeeming_jws = header64 @ 46 # redeeming64 @ 46 # redeeming_sig64"

definition redeeming :: ProvenanceReceipt where
  "redeeming = \<lparr>r_agent_id = PStr (lit ''agent:a''), r_agent_key_id = PStr (lit ''4203000000000000''), r_operation = USER_INPUT,
     r_parents = [], r_input_hash = PStr (lit ''sha256:e802000000000000000000000000000000000000000000000000000000000000''),
     r_output_hash = PStr [], r_model = PStr [], r_tool = PStr [], r_corpus = PStr [], r_ruleset_hash = PStr [],
     r_guardrail_verdict = PStr [], r_taint = [PStr (lit ''external_user'')],
     r_tenant = PNone, r_issued_at = PInt 130, r_x_bilateral = PNone, r_jws = redeeming_jws, r_receipt_hash = redeeming_id\<rparr>"

section \<open>The parts of the two receipts\<close>

lemma header_reads: "json_loads_bytes fp hook header_text = Inr (PDict header_dict)"
  by (rule canonical_reads) code_simp+

lemma granting_text_canonical: "canonical_json (h_env host1) (PDict granting_payload) = Inr granting_text"
  by code_simp

lemma granting_sorted: "reorder_keys_utf16 (PDict granting_payload) = Inr (PDict granting_payload)"
  by code_simp

lemma granting_wf: "wf_val (PDict granting_payload)"
  by code_simp

lemma granting_b64: "b64 granting_text = granting64"
  by code_simp

lemma granting_sig: "b64 (ai_sign agent1 (header64 @ 46 # granting64)) = granting_sig64"
  by code_simp

lemma granting_ascii: "list_all (\<lambda>c. c < 128) granting_jws"
  by code_simp

lemma granting_digest: "SHA256_PREFIX @ sha256_hex (h_env host1) granting_jws = granting_id"
  by code_simp

lemma granting_fields: "rbind (receipt_of_payload granting_payload) (\<lambda>r. Inr (r\<lparr>r_jws := granting_jws, r_receipt_hash := granting_id\<rparr>)) = Inr granting"
  by code_simp

lemma redeeming_text_canonical: "canonical_json (h_env host1) (PDict redeeming_payload) = Inr redeeming_text"
  by code_simp

lemma redeeming_sorted: "reorder_keys_utf16 (PDict redeeming_payload) = Inr (PDict redeeming_payload)"
  by code_simp

lemma redeeming_wf: "wf_val (PDict redeeming_payload)"
  by code_simp

lemma redeeming_b64: "b64 redeeming_text = redeeming64"
  by code_simp

lemma redeeming_sig: "b64 (ai_sign agent1 (header64 @ 46 # redeeming64)) = redeeming_sig64"
  by code_simp

lemma redeeming_ascii: "list_all (\<lambda>c. c < 128) redeeming_jws"
  by code_simp

lemma redeeming_digest: "SHA256_PREFIX @ sha256_hex (h_env host1) redeeming_jws = redeeming_id"
  by code_simp

lemma redeeming_fields: "rbind (receipt_of_payload redeeming_payload) (\<lambda>r. Inr (r\<lparr>r_jws := redeeming_jws, r_receipt_hash := redeeming_id\<rparr>)) = Inr redeeming"
  by code_simp

section \<open>The receipts parse and verify\<close>

definition prov_verifier2 :: ProvenanceVerifier where
  "prov_verifier2 = prov_verifier1\<lparr>pv_caps := []\<rparr>"

lemma header_parts: "wf_bytes header_text" "b64d header64 = Inr header_text" "46 \<notin> set header64" "jose_header host1 header64 = Inr header_dict"
proof -
  have c: "canonical_json (h_env host1) (PDict header_dict) = Inr header_text" by code_simp
  have "reorder_keys_utf16 (PDict header_dict) = Inr (PDict header_dict)" "wf_val (PDict header_dict)" by code_simp+
  then show w: "wf_bytes header_text" using canonical_reads(2)[OF c] by blast
  show d: "b64d header64 = Inr header_text" using b64_roundtrip[OF w] by (simp add: header_b)
  show "46 \<notin> set header64" using b64_chars(1)[OF w] by (simp add: header_b)
  show "jose_header host1 header64 = Inr header_dict" by (simp add: jose_header_def d header_reads)
qed

lemma header_dict_accepted: "enforce_header host1 header64 (PStr (lit ''4203000000000000'')) = Inr ()"
  by (simp add: enforce_header_def header_parts header_reads header_dict_def enforce_crit_def declares_pq1_def dict_get_def
    py_iter_def py_mem_def Let_def has_key_def keys_def)

lemma header_plain: "\<not> declares_pq1 header_dict"
  by (simp add: header_dict_def declares_pq1_def dict_get_def)

lemma header_canonical: "canonical_json (h_env host1) (PDict header_dict) = Inr header_text"
  by code_simp

lemma extension_receipt:
  assumes "canonical_json (h_env host1) (PDict pd) = Inr pb" and "reorder_keys_utf16 (PDict pd) = Inr (PDict pd)" and "wf_val (PDict pd)"
    and "b64 pb = ps" and "b64 (ai_sign agent1 (header64 @ 46 # ps)) = ss"
    and "list_all (\<lambda>c. c < 128) (header64 @ 46 # ps @ 46 # ss)"
    and "SHA256_PREFIX @ sha256_hex (h_env host1) (header64 @ 46 # ps @ 46 # ss) = h"
    and "rbind (receipt_of_payload pd) (\<lambda>r. Inr (r\<lparr>r_jws := header64 @ 46 # ps @ 46 # ss, r_receipt_hash := h\<rparr>)) = Inr r"
    and "get_or_none pd ''agent_key_id'' = PStr (lit ''4203000000000000'')" "get_or_none pd ''typ'' = PStr EXPECTED_TYP"
      "get_or_none pd ''iss'' = PStr (lit ''raucle-detect/provenance'')"
    and "length (header64 @ 46 # ps @ 46 # ss) \<le> MAX_JWS_BYTES" and "length pb \<le> MAX_PAYLOAD_BYTES"
    and "r_agent_key_id r = PStr (lit ''4203000000000000'')"
  shows "from_jws host1 True False (r_jws r) = Inr r" "verify_receipt_signature host1 prov_verifier2 r = Inr True"
    "split_on 46 (r_jws r) ! 1 = ps" "b64d ps = Inr pb" "json_loads_bytes fp hook pb = Inr (PDict pd)"
    "length (filter (\<lambda>c. c = 46) (r_jws r)) = 2"
proof -
  let ?jws = "header64 @ 46 # ps @ 46 # ss"
  have w: "wf_bytes pb" using canonical_reads(2)[OF assms(1-3)] .
  have rd: "json_loads_bytes fp hook pb = Inr (PDict pd)" for fp hook using canonical_reads(1)[OF assms(1-3)] .
  then show "json_loads_bytes fp hook pb = Inr (PDict pd)" .
  have ws: "wf_bytes (ai_sign agent1 m)" for m using agent1_ok by (simp add: agent_ok_def good_signer_def)
  show d: "b64d ps = Inr pb" using b64_roundtrip[OF w] assms(4) by simp
  have n: "46 \<notin> set ps" "46 \<notin> set ss" using b64_chars(1)[OF w] b64_chars(1)[OF ws] assms(4,5) by auto
  have sp: "split_on 46 ?jws = [header64, ps, ss]" using header_parts(3) n by (simp add: split_on_append split_on_plain)
  obtain r0 where r0: "receipt_of_payload pd = Inr r0" "r = r0\<lparr>r_jws := ?jws, r_receipt_hash := h\<rparr>" using assms(8) by auto
  have j: "r_jws r = ?jws" using r0(2) by simp
  have hh: "receipt_hash_of host1 ?jws = Inr h" using assms(6,7) by (simp add: receipt_hash_of_def)
  have e: "enforce_strict_payload host1 header64 pd pb = Inr ()"
    using assms(1,9-11) by (simp add: enforce_strict_payload_def header_dict_accepted header_parts header_reads header_canonical)
  show "from_jws host1 True False (r_jws r) = Inr r"
    using assms(12,13) sp d rd e r0 hh unfolding j by (simp add: from_jws_def Let_def)
  show "split_on 46 (r_jws r) ! 1 = ps" "length (filter (\<lambda>c. c = 46) (r_jws r)) = 2"
    using sp length_split_on[of 46 ?jws] unfolding j by simp_all
  have m: "signing_input [header64, ps, ss] = header64 @ 46 # ps" by (simp add: signing_input_def)
  have "ascii_encode (header64 @ 46 # ps) = Inr (header64 @ 46 # ps)" "b64d ss = Inr (ai_sign agent1 (header64 @ 46 # ps))"
    using assms(6) b64_roundtrip[OF ws, of "header64 @ 46 # ps"] assms(5) by auto
  then have "verify_signature_v1 host1 [header64, ps, ss] (lit ''pem'') = Inr True"
    by (simp add: verify_signature_v1_def header_parts header_plain m) (simp add: agent1_def host1_def env1_def)
  moreover have "map_of (pv_keys prov_verifier2) (lit ''4203000000000000'') = Some (lit ''pem'')"
    by (simp add: prov_verifier2_def prov_verifier1_def agent1_def statement1_def)
  ultimately show "verify_receipt_signature host1 prov_verifier2 r = Inr True"
    by (simp add: verify_receipt_signature_def assms(14) j sp Let_def lookup_raw_def py_hashable_def)
qed

lemma granting_lengths: "length granting_jws \<le> MAX_JWS_BYTES" "length granting_text \<le> MAX_PAYLOAD_BYTES"
  by code_simp+

lemma redeeming_lengths: "length redeeming_jws \<le> MAX_JWS_BYTES" "length redeeming_text \<le> MAX_PAYLOAD_BYTES"
  by code_simp+

lemma granting_parts:
  "from_jws host1 True False granting_jws = Inr granting" "verify_receipt_signature host1 prov_verifier2 granting = Inr True"
  "split_on 46 granting_jws ! 1 = granting64" "b64d granting64 = Inr granting_text" "json_loads_bytes fp hook granting_text = Inr (PDict granting_payload)"
  "length (filter (\<lambda>c. c = 46) granting_jws) = 2"
proof -
  have j: "r_jws granting = granting_jws" by (simp add: granting_def)
  have k: "r_agent_key_id granting = PStr (lit ''4203000000000000'')" by (simp add: granting_def)
  have f: "get_or_none granting_payload ''agent_key_id'' = PStr (lit ''4203000000000000'')"
    "get_or_none granting_payload ''typ'' = PStr EXPECTED_TYP" "get_or_none granting_payload ''iss'' = PStr (lit ''raucle-detect/provenance'')"
    by (simp_all add: granting_payload_def dict_get_def)
  note x = extension_receipt[OF granting_text_canonical granting_sorted granting_wf granting_b64 granting_sig granting_ascii[unfolded granting_jws_def]
    granting_digest[unfolded granting_jws_def] granting_fields[unfolded granting_jws_def] f granting_lengths[unfolded granting_jws_def] k]
  show "from_jws host1 True False granting_jws = Inr granting" "verify_receipt_signature host1 prov_verifier2 granting = Inr True"
    "split_on 46 granting_jws ! 1 = granting64" "b64d granting64 = Inr granting_text" "json_loads_bytes fp hook granting_text = Inr (PDict granting_payload)"
    "length (filter (\<lambda>c. c = 46) granting_jws) = 2"
    using x unfolding j .
qed

lemma redeeming_parts:
  "from_jws host1 True False redeeming_jws = Inr redeeming" "verify_receipt_signature host1 prov_verifier2 redeeming = Inr True"
  "split_on 46 redeeming_jws ! 1 = redeeming64" "b64d redeeming64 = Inr redeeming_text" "json_loads_bytes fp hook redeeming_text = Inr (PDict redeeming_payload)"
  "length (filter (\<lambda>c. c = 46) redeeming_jws) = 2"
proof -
  have j: "r_jws redeeming = redeeming_jws" by (simp add: redeeming_def)
  have k: "r_agent_key_id redeeming = PStr (lit ''4203000000000000'')" by (simp add: redeeming_def)
  have f: "get_or_none redeeming_payload ''agent_key_id'' = PStr (lit ''4203000000000000'')"
    "get_or_none redeeming_payload ''typ'' = PStr EXPECTED_TYP" "get_or_none redeeming_payload ''iss'' = PStr (lit ''raucle-detect/provenance'')"
    by (simp_all add: redeeming_payload_def dict_get_def)
  note x = extension_receipt[OF redeeming_text_canonical redeeming_sorted redeeming_wf redeeming_b64 redeeming_sig redeeming_ascii[unfolded redeeming_jws_def]
    redeeming_digest[unfolded redeeming_jws_def] redeeming_fields[unfolded redeeming_jws_def] f redeeming_lengths[unfolded redeeming_jws_def] k]
  show "from_jws host1 True False redeeming_jws = Inr redeeming" "verify_receipt_signature host1 prov_verifier2 redeeming = Inr True"
    "split_on 46 redeeming_jws ! 1 = redeeming64" "b64d redeeming64 = Inr redeeming_text" "json_loads_bytes fp hook redeeming_text = Inr (PDict redeeming_payload)"
    "length (filter (\<lambda>c. c = 46) redeeming_jws) = 2"
    using x unfolding j .
qed

section \<open>The verifier on the file\<close>

lemma no_pq: "\<not> pv_require_pq prov_verifier2"
  by (simp add: prov_verifier2_def prov_verifier1_def)

lemma extension_line:
  assumes "from_jws host1 True False (r_jws r) = Inr r" and "verify_receipt_signature host1 prov_verifier2 r = Inr True"
    and "structural_errors r = Inr []" and "length (filter (\<lambda>c. c = 46) (r_jws r)) = 2"
    and "b64d (split_on 46 (r_jws r) ! 1) = Inr pb" and "json_loads_bytes (float_parse host1) False pb = Inr (PDict pd)"
  shows "prov_verify_line host1 prov_verifier2 (envelope_line r) S =
      rbind (verify_receipt_extensions host1 prov_verifier2 (envelope r) r (S\<lparr>ws_lines := dict_set (r_receipt_hash r) (envelope_line r) (ws_lines S)\<rparr>))
        (\<lambda>S. Inr (count_receipt r S))"
    "decode_gate_payload host1 (envelope r) = Inr (PDict pd, or_else (get_or_none pd ''x_gate'') (PDict []))"
proof -
  have line: "parse_chain_line host1 (envelope_line r) R = Inr (Some (envelope r), R)" for R
    by (simp add: parse_chain_line_def envelope_line_parses envelope_def py_iter_def py_hashable_def unknown_envelope_fields_def
      ENVELOPE_FIELDS_def)
  have rec: "validate_chain_record host1 prov_verifier2 (envelope r) R = Inr (Some r, R)" for R
    using assms(1-4) by (auto simp: validate_chain_record_def envelope_def require_key_def dict_get_def Let_def no_pq)
  have conf: "verify_capability_conformance host1 prov_verifier2 r R = Inr R" for R
    by (simp add: verify_capability_conformance_def prov_verifier2_def)
  have same: "S\<lparr>ws_report := ws_report S, ws_lines := l\<rparr> = S\<lparr>ws_lines := l\<rparr>" for l by (cases S) simp
  show "prov_verify_line host1 prov_verifier2 (envelope_line r) S =
      rbind (verify_receipt_extensions host1 prov_verifier2 (envelope r) r (S\<lparr>ws_lines := dict_set (r_receipt_hash r) (envelope_line r) (ws_lines S)\<rparr>))
        (\<lambda>S. Inr (count_receipt r S))"
    by (simp add: prov_verify_line_def line rec conf same)
  show "decode_gate_payload host1 (envelope r) = Inr (PDict pd, or_else (get_or_none pd ''x_gate'') (PDict []))"
    using assms(4-6) by (simp add: decode_gate_payload_def envelope_def dict_get_def value_or_type_def)
qed


lemma granting_structure: "structural_errors granting = Inr []" "structural_errors redeeming = Inr []"
  by code_simp+

definition leases1 :: lease_table where
  "leases1 = [(lit ''lease-1'', [(lit ''action'', PStr (lit ''granted'')), (lit ''granted_at'', PInt 100),
     (lit ''lease_id'', PStr (lit ''lease-1'')), (lit ''scopes'', PDict [(lit ''max_value'', PDict [(lit ''amount'', PInt 10)])]),
     (lit ''ttl_seconds'', PInt 60)])]"

lemma granting_extensions:
  "verify_delegated_authority_digest host1 (PDict []) R = Inr R"
  "verify_lease_extension host1 (PDict granting_payload) [] R = Inr (leases1, R)"
  "verify_cascade_revocation (PDict []) (PDict granting_payload) [] R = Inr ([PStr (lit ''cap-1'')], R)"
  "verify_task_intent host1 (PDict []) granting R = Inr R"
  "verify_harness_finding host1 (PDict granting_payload) T R = Inr R"
  "verify_time_anchor host1 (PDict granting_payload) T raw R = Inr R"
  "verify_bilateral host1 prov_verifier2 (PDict granting_payload) granting R = Inr R"
  by (simp_all add: verify_delegated_authority_digest_def get_attr_def dict_get_def verify_lease_extension_def payload_get_def
    granting_payload_def leases1_def py_str_def verify_cascade_revocation_def py_hashable_def py_mem_def Let_def or_else_def py_iter_def
    verify_task_intent_def verify_harness_finding_def verify_time_anchor_def verify_bilateral_def)

lemma granting_line:
  "prov_verify_line host1 prov_verifier2 (envelope_line granting) walk0 =
     Inr (count_receipt granting (walk0\<lparr>ws_lines := [(granting_id, envelope_line granting)], ws_revoked := [PStr (lit ''cap-1'')], ws_grants := leases1\<rparr>))"
proof -
  have j: "r_jws granting = granting_jws" "r_receipt_hash granting = granting_id" by (simp_all add: granting_def)
  have x: "or_else (get_or_none granting_payload ''x_gate'') (PDict []) = PDict []" by (simp add: granting_payload_def dict_get_def or_else_def)
  have w: "ws_grants walk0 = []" "ws_revoked walk0 = []" "ws_lines walk0 = []" by (simp_all add: walk0_def)
  note l = extension_line[of granting granting_text granting_payload, unfolded j granting_parts(3), OF granting_parts(1,2)
    granting_structure(1) granting_parts(6,4,5)]
  show ?thesis
    unfolding l(1) verify_receipt_extensions_def l(2) x by (simp add: w granting_extensions walk0_def)
qed

definition auth2 :: pydict where
  "auth2 = [(lit ''capability_id'', PStr (lit ''cap-2'')), (lit ''chain_digest'', PStr (lit ''b14a000000000000000000000000000000000000000000000000000000000000'')),
     (lit ''issuer'', PStr (lit ''acme'')), (lit ''key_id'', PStr (lit ''key0''))]"

lemma redeeming_gate: "get_or_none redeeming_payload ''x_gate'' = PDict [(lit ''authorization'', PDict auth2)]"
  by (simp add: redeeming_payload_def auth2_def dict_get_def)

lemma auth2_digest: "rbind (canonical_json (h_env host1) (PDict (block_material auth2))) (\<lambda>m. Inr (PStr (sha256_hex (h_env host1) m))) =
    Inr (get_or_none auth2 ''chain_digest'')"
  by code_simp

lemma scopes_narrow: "assert_narrowing [(lit ''max_value'', PDict [(lit ''amount'', PInt 10)])] [(lit ''max_value'', PDict [(lit ''amount'', PInt 5)])] = Inr ()"
  by code_simp

lemma redemption: "verify_lease_redemption host1 redeeming_payload [(lit ''action'', PStr (lit ''redeemed'')), (lit ''lease_id'', PStr (lit ''lease-1'')),
    (lit ''scopes'', PDict [(lit ''max_value'', PDict [(lit ''amount'', PInt 5)])])] (map_of leases1 (lit ''lease-1'')) R = Inr R"
  by (simp add: verify_lease_redemption_def leases1_def redeeming_payload_def dict_get_def py_int_def scopes_narrow or_else_def attr_dict_def
    complain_if_def Let_def)

lemma redeeming_extensions:
  "verify_delegated_authority_digest host1 (PDict [(lit ''authorization'', PDict auth2)]) R = Inr R"
  "verify_lease_extension host1 (PDict redeeming_payload) leases1 R = Inr (leases1, R)"
  "verify_cascade_revocation (PDict [(lit ''authorization'', PDict auth2)]) (PDict redeeming_payload) [PStr (lit ''cap-1'')] R = Inr ([PStr (lit ''cap-1'')], R)"
  "verify_task_intent host1 (PDict [(lit ''authorization'', PDict auth2)]) redeeming R = Inr R"
  "verify_harness_finding host1 (PDict redeeming_payload) T R = Inr R"
  "verify_time_anchor host1 (PDict redeeming_payload) T raw R = Inr R"
  "verify_bilateral host1 prov_verifier2 (PDict redeeming_payload) redeeming R = Inr R"
proof -
  obtain m where "canonical_json (h_env host1) (PDict (block_material auth2)) = Inr m" "PStr (sha256_hex (h_env host1) m) = get_or_none auth2 ''chain_digest''"
    using auth2_digest by auto
  then show "verify_delegated_authority_digest host1 (PDict [(lit ''authorization'', PDict auth2)]) R = Inr R"
    by (auto simp: verify_delegated_authority_digest_def get_attr_def dict_get_def attr_dict_def complain_if_def auth2_def)
  show "verify_lease_extension host1 (PDict redeeming_payload) leases1 R = Inr (leases1, R)"
    using redemption[of R] by (simp add: verify_lease_extension_def payload_get_def redeeming_payload_def dict_get_def py_str_def)
  show "verify_cascade_revocation (PDict [(lit ''authorization'', PDict auth2)]) (PDict redeeming_payload) [PStr (lit ''cap-1'')] R = Inr ([PStr (lit ''cap-1'')], R)"
    "verify_task_intent host1 (PDict [(lit ''authorization'', PDict auth2)]) redeeming R = Inr R"
    "verify_harness_finding host1 (PDict redeeming_payload) T R = Inr R"
    "verify_time_anchor host1 (PDict redeeming_payload) T raw R = Inr R"
    "verify_bilateral host1 prov_verifier2 (PDict redeeming_payload) redeeming R = Inr R"
    by (simp_all add: get_attr_def dict_get_def payload_get_def redeeming_payload_def auth2_def attr_dict_def or_else_def
      verify_cascade_revocation_def py_hashable_def py_mem_def Let_def
      verify_task_intent_def verify_harness_finding_def verify_time_anchor_def verify_bilateral_def)
qed

lemma rbind_end: "rbind m (rfold f []) = m"
  by (cases m) simp_all

definition extension_log :: "ustr list" where
  "extension_log = [envelope_line granting, envelope_line redeeming]"

lemma extension_log_valid: "\<exists>R. prov_verify_chain host1 prov_verifier2 extension_log = Inr R \<and> pr_valid R"
proof -
  have j: "r_jws redeeming = redeeming_jws" "r_receipt_hash redeeming = redeeming_id" "r_parents redeeming = []"
      "r_parents granting = []" "r_receipt_hash granting = granting_id" by (simp_all add: redeeming_def granting_def)
  have x: "or_else (PDict [(lit ''authorization'', PDict auth2)]) (PDict []) = PDict [(lit ''authorization'', PDict auth2)]" by (simp add: or_else_def)
  have w: "ws_report walk0 = prov_report0" "ws_receipts walk0 = []" "pr_valid prov_report0" by (simp_all add: walk0_def prov_report0_def)
  note l = extension_line[of redeeming redeeming_text redeeming_payload, unfolded j redeeming_parts(3), OF redeeming_parts(1,2)
    granting_structure(2) redeeming_parts(6,4,5)]
  have d: "verify_dag_and_taint V T R = Inr R" if "\<forall>(h, r)\<in>set T. r_parents r = []" for V T R
    unfolding verify_dag_and_taint_def using that by (intro rfold_same) (auto simp: check_taint_def)
  let ?S1 = "count_receipt granting (walk0\<lparr>ws_lines := [(granting_id, envelope_line granting)], ws_revoked := [PStr (lit ''cap-1'')], ws_grants := leases1\<rparr>)"
  have "\<exists>S. prov_verify_line host1 prov_verifier2 (envelope_line redeeming) ?S1 = Inr S \<and> pr_valid (ws_report S) \<and>
      (\<forall>(h, r)\<in>set (ws_receipts S). r_parents r = [])"
    unfolding l(1) verify_receipt_extensions_def l(2) redeeming_gate x by (simp add: count_receipt_def redeeming_extensions w j)
  then obtain S where s: "prov_verify_line host1 prov_verifier2 (envelope_line redeeming) ?S1 = Inr S" "pr_valid (ws_report S)"
      "\<forall>(h, r)\<in>set (ws_receipts S). r_parents r = []" by blast
  have "rfold (prov_verify_line host1 prov_verifier2) extension_log walk0 = Inr S"
    by (simp add: extension_log_def granting_line s(1))
  then have "prov_verify_chain host1 prov_verifier2 extension_log = Inr (ws_report S)"
    by (simp add: prov_verify_chain_def d[OF s(3)])
  then show ?thesis using s(2) by blast
qed

lemma extension_log_carries: "carries host1 (envelope_line granting) granting" "carries host1 (envelope_line redeeming) redeeming"
  using envelope_carries[of host1 granting] envelope_carries[of host1 redeeming] granting_parts(1) redeeming_parts(1)
  by (simp_all add: granting_def redeeming_def)


lemma extension_payloads: "payload_of host1 granting = granting_payload" "payload_of host1 redeeming = redeeming_payload"
proof -
  have j: "r_jws granting = granting_jws" "r_jws redeeming = redeeming_jws" by (simp_all add: granting_def redeeming_def)
  show "payload_of host1 granting = granting_payload" unfolding payload_of_def j granting_parts(3) by (simp add: granting_parts)
  show "payload_of host1 redeeming = redeeming_payload" unfolding payload_of_def j redeeming_parts(3) by (simp add: redeeming_parts)
qed

lemma granting_revokes: "revokes host1 granting (lit ''cap-1'')"
  by (simp add: revokes_def ext_def extension_payloads granting_payload_def dict_get_def)

lemma redeeming_redeems: "\<exists>lease. lease_of host1 redeeming ''redeemed'' = Some (lit ''lease-1'', lease)"
  by (simp add: lease_of_def ext_def extension_payloads redeeming_payload_def dict_get_def py_str_def)

lemma redeeming_cites: "PStr (lit ''cap-2'') \<in> set (cited_authority host1 redeeming)"
  by (simp add: cited_authority_def gate_block_def ext_def extension_payloads redeeming_gate) (simp add: auth2_def dict_get_def)

end
