(* ===== verification/Spec2Isabelle.thy ===== *)
theory Spec2Isabelle
  imports Delegation Examples ChainExamples ExtensionExamples
begin



section \<open>The gate\<close>

text \<open>
  C1. The gate allows a call exactly when the presented token is authentic, carries the identifier of its
  own signed bytes, is inside its time window and not revoked, is bound to the tool and to the caller,
  its constraints and its intent permit the arguments, the proof policy holds, and every link of its
  chain verifies; the decision then lists the identifiers of that chain.
\<close>

theorem gate_allows_iff:
  assumes "wf_token c"
  shows "check E G c t agent args acting ts = Some (Inr d) \<and> allowed d \<longleftrightarrow>
    (\<exists>ps. admitted E G c t agent args acting ts ps \<and>
       d = \<lparr>allowed = True, reason = ''ok'', gd_token_id = token_id c, gd_chain = map token_id ps,
            attributable = False\<rparr>)"
  by (rule check_allows_iff[OF assms])

theorem gate_allows_iff_witness:
  "\<exists>ps. admitted env0 gate0 child0 (lit ''pay'') (Some (lit ''agent:a.b'')) (pay 3) PNone 120 ps \<and>
     map token_id ps = [token_id parent0]"
  using gate_allows_iff[OF wf_child0, of env0 gate0 "lit ''pay''" "Some (lit ''agent:a.b'')" "pay 3" PNone 120 ok0]
    check_child0 by (auto simp: ok0_def)

text \<open>
  C2. Authority only shrinks along a delegation: when the gate allows a call, every ancestor the resolver
  names is authentic, unrevoked and listed in the decision, and would itself cover the call: same tool,
  inside its time window, the caller inside its agent scope, the arguments permitted by its constraints.
  The tokens of the store must have the shape of parsed JSON, and their \<open>starts_with\<close> prefixes must not be
  file URLs, for which extending the text does not narrow (\<open>file_prefix_extension_widens\<close>).
\<close>

theorem delegated_call_within_ancestors:
  assumes "check E G c t agent args acting ts = Some (Inr d)" "allowed d" "wf_token c"
    and "g_resolver G = Some R" "\<And>i q. R i = Some q \<Longrightarrow> wf_token q \<and> plain_prefixes (constraints q)"
    and "ancestor R c p"
  shows "authentic E G p \<and> token_id p \<notin> set (g_revoked G) \<and> token_id p \<in> set (gd_chain d) \<and>
    tool p = t \<and> not_before p \<le> ts \<and> ts < expires_at p \<and> permits E (constraints p) args \<and>
    (\<forall>a. agent = Some a \<longrightarrow> sub_agent a (agent_id p))"
  using allowed_within_ancestor[OF assms(1-4) _ assms(6)] assms(5) by blast

theorem delegated_call_within_ancestors_witness:
  "authentic env0 gate0 parent0 \<and> permits env0 (constraints parent0) (pay 3)"
proof -
  have "wf_token q \<and> plain_prefixes (constraints q)" if "resolver0 i = Some q" for i q
    using that wf_parent0 plain_parent0 by (auto simp: resolver0_def split: if_splits)
  then show ?thesis
    using delegated_call_within_ancestors[OF check_child0 _ wf_child0 _ _ ancestor_parent0]
    by (simp add: ok0_def gate0_def)
qed

text \<open>
  C3. Revocation reaches every descendant: once a token is revoked, no call made with it, or with any
  token below it in the chains the resolver names, is allowed.
\<close>

theorem revocation_reaches_descendants:
  assumes "check E (revoke G (token_id p)) c t agent args acting ts = Some (Inr d)" "wf_token c"
    and "p = c \<or> (\<exists>R. g_resolver G = Some R \<and> ancestor R c p)"
  shows "\<not> allowed d"
  using assms by (intro revoked_ancestor_denied[OF assms(1,2), of p]) auto

theorem revocation_reaches_descendants_witness: "\<not> allowed revoked0"
  by (rule revocation_reaches_descendants[OF check_revoked0 wf_child0])
    (use ancestor_parent0 in \<open>auto simp: gate0_def\<close>)

text \<open>
  C4. A denial is marked attributable only when the token's identity was established first: signature,
  post-quantum component, identifier, revocation and time window all passed, so the agent the denial
  is charged to is the one the issuer signed for.
\<close>

theorem attributable_denial_identified:
  assumes "check E G c t agent args acting ts = Some (Inr d)" "attributable d"
  shows "identified E G c ts \<and> \<not> allowed d"
  by (rule check_attributable[OF assms])

theorem attributable_denial_identified_witness: "identified env0 gate0 child0 120 \<and> \<not> allowed over0"
  using attributable_denial_identified[OF check_over0] by (simp add: over0_def)

text \<open>
  C5. With strict proof enforcement, a token that passes carries the hash of a trusted proof that is
  PROVEN, its grammar and policy hashes are the proof's, and the policy hash is the digest of the
  constraints the gate enforces.
\<close>

theorem strict_mode_binds_proof:
  assumes "check_proof_enforcement E G c = Inr None" "g_proof_mode G = Strict"
  shows "\<exists>h pr eh. policy_proof_hash c = PStr h \<and> map_of (g_trusted_proofs G) h = Some pr \<and> pr_status pr = PROVEN \<and>
    grammar_hash c = PStr (pr_grammar_hash pr) \<and> policy_hash c = PStr (pr_policy_hash pr) \<and>
    enforced_hash E c = Inr eh \<and> pr_policy_hash pr = eh"
  by (rule strict_proof_bound[OF assms])

theorem strict_mode_binds_proof_witness:
  "\<exists>h pr. policy_proof_hash proven0 = PStr h \<and> map_of (g_trusted_proofs strict_gate0) h = Some pr"
  using strict_mode_binds_proof[OF strict_proven0] by (fastforce simp: strict_gate0_def)

text \<open>
  C6. The gate returns on every input when the resolver's answers descend in some rank, as they do when
  every token was minted after its parent.
\<close>

theorem gate_check_terminates:
  assumes "\<And>R. g_resolver G = Some R \<Longrightarrow> ranked R rk"
  shows "\<exists>r. check E G c t agent args acting ts = Some r"
  by (rule check_terminates[OF assms])

theorem gate_check_terminates_witness:
  "\<exists>r. check env0 gate0 child0 (lit ''pay'') None [] PNone 0 = Some r"
proof (rule gate_check_terminates[where rk = "\<lambda>c. if parent_id c = None then 0 else 1"])
  fix R
  assume "g_resolver gate0 = Some R"
  then show "ranked R (\<lambda>c. if parent_id c = None then 0 else 1)"
    by (auto simp: ranked_def gate0_def resolver0_def parent0_def split: if_splits)
qed

text \<open>
  C7. The ancestor walk keeps no record of the tokens it visited: on a resolver that answers a token with
  itself, authentic and unrevoked, it never returns.
\<close>

theorem ancestor_walk_cycle_diverges:
  assumes "parent_id c = Some pid" "pid \<noteq> []" "R pid = Some c" "authentic E G c"
    "token_id c \<notin> set (g_revoked G)" "attenuation_violation E c c = Inr None"
  shows "verify_ancestor_chain E G R tid c chain = None"
  using assms by (rule walk_diverges)

theorem ancestor_walk_cycle_diverges_witness:
  "verify_ancestor_chain env0 gate0 (\<lambda>_. Some child0) (token_id child0) child0 [] = None"
  by (rule ancestor_walk_cycle_diverges[OF _ _ _ authentic_child0 _ narrowing_child0(2), of "token_id parent0"])
    (simp_all add: child0_def parent0_def gate0_def)

text \<open>
  C8. On constraints that passed normalisation, the evaluation of \<open>_check_constraints\<close>, kind by kind and
  with early exits, never raises and decides the declarative meaning of the constraints.
\<close>

theorem constraint_check_refines_permits:
  assumes "normalise_constraints E c = Inr n" "wf_val (PDict c)"
  shows "\<exists>r. check_constraints E c args = Inr r \<and> (r = None \<longleftrightarrow> permits E c args)"
  using check_decides[OF normalise_shaped(1)[OF assms(1)] assms(2), of E args] by (auto simp: decides_def)

theorem constraint_check_refines_permits_witness:
  "\<exists>r. check_constraints env0 (constraints parent0) (pay 3) = Inr r \<and>
     (r = None \<longleftrightarrow> permits env0 (constraints parent0) (pay 3))"
  by (rule constraint_check_refines_permits[OF normalise_parent0]) (simp add: parent0_def limit_def)

section \<open>The provenance chain\<close>



text \<open>
  C10. Every line of a file the verifier calls valid carries a receipt whose fields are read from bytes that the key
  registered for its agent signed; and where the header declares the hybrid profile, or the verifier requires it, a
  registered ML-DSA key signed the same bytes.
\<close>

theorem provenance_file_signed:
  assumes "prov_verify_chain H V lines = Inr R" and "pr_valid R" and "line \<in> set lines"
  shows "\<exists>r. carries H line r \<and> reads_signed_bytes H r \<and> classically_signed H V r \<and>
    (pv_require_pq V \<or> (\<exists>header. jose_header H (split_on 46 (r_jws r) ! 0) = Inr header \<and> declares_pq1 header) \<longrightarrow> pq_signed H V r)"
  by (rule valid_file_signed[OF assms])

theorem provenance_file_signed_witness: "classically_signed host1 prov_verifier1 signed2"
proof -
  obtain R where "prov_verify_chain host1 prov_verifier1 log1 = Inr R" "pr_valid R" using log1_valid by blast
  moreover have "envelope_line signed2 \<in> set log1" by (simp add: log1_def)
  ultimately show ?thesis using provenance_file_signed signed_carried(2) carries_unique by blast
qed

text \<open>
  C11. Taint is not laundered: in a valid file, a tag on a receipt is on every receipt that descends from it, unless a
  sanitisation between the two lists it as removed, and then, when the verifier checks statements, the statement of the
  sanitising agent is authentic and gives it the authority to remove that tag.
\<close>

theorem taint_not_laundered:
  assumes "prov_verify_chain H V lines = Inr R" and "pr_valid R" and "distinct_hashes H lines"
    and "descends (file_receipts H lines) a r" and "PStr t \<in> set (r_taint a)"
  shows "PStr t \<in> set (r_taint r) \<or>
    (\<exists>s. descends (file_receipts H lines) a s \<and> descends (file_receipts H lines) s r \<and> authorised_removal H V s t)"
  by (rule taint_path[OF assms])

theorem taint_not_laundered_witness:
  "\<exists>s. descends (file_receipts host1 log1) signed1 s \<and> authorised_removal host1 prov_verifier1 s (lit ''external_user'')"
proof -
  obtain R where "prov_verify_chain host1 prov_verifier1 log1 = Inr R" "pr_valid R" using log1_valid by blast
  from taint_not_laundered[OF this log1_hashes log1_descends, of "lit ''external_user''"] show ?thesis by auto
qed

text \<open>
  C12. On a valid file the walk to the roots returns, and returns exactly the receipts that the given one descends from,
  itself included, each of them once.
\<close>

theorem trace_returns_ancestors:
  assumes "prov_verify_chain H V lines = Inr R" and "pr_valid R" and "distinct_hashes H lines" and "r \<in> file_receipts H lines"
  shows "\<exists>out. trace H (r_receipt_hash r) lines = Inr out \<and> set out = {a. descends (file_receipts H lines) a r} \<and>
    distinct (map r_receipt_hash out)"
  by (rule trace_exact[OF assms])

theorem trace_returns_ancestors_witness: "\<exists>out. trace host1 receipt_id3 log1 = Inr out \<and> signed1 \<in> set out"
proof -
  obtain R where "prov_verify_chain host1 prov_verifier1 log1 = Inr R" "pr_valid R" using log1_valid by blast
  from trace_returns_ancestors[OF this log1_hashes, of signed3] show ?thesis using log1_descends by (auto simp: log1_receipts)
qed

text \<open>
  C13. A capability identifier that a receipt of a valid file revokes is not cited, as the authority or as its parent, by
  the gate block of any later receipt.
\<close>

theorem revoked_authority_not_cited:
  assumes "prov_verify_chain H V (pre @ line # post) = Inr R" and "pr_valid R"
    and "q \<in> file_receipts H pre" and "revokes H q i" and "carries H line r"
  shows "PStr i \<notin> set (cited_authority H r)"
  by (rule revoked_then_cited[OF assms])

theorem revoked_authority_not_cited_witness:
  "PStr (lit ''cap-1'') \<notin> set (cited_authority host1 redeeming) \<and> PStr (lit ''cap-2'') \<in> set (cited_authority host1 redeeming)"
proof -
  obtain R where "prov_verify_chain host1 prov_verifier2 ([envelope_line granting] @ envelope_line redeeming # []) = Inr R" "pr_valid R"
    using extension_log_valid by (auto simp: extension_log_def)
  moreover have "granting \<in> file_receipts host1 [envelope_line granting]"
    using extension_log_carries(1) by (simp add: file_receipts_def)
  ultimately show ?thesis
    using revoked_authority_not_cited[OF _ _ _ granting_revokes extension_log_carries(2)] redeeming_cites by blast
qed







section \<open>Minting and attenuation\<close>







text \<open>
  C20. The lifetime of a minted token is positive and at most 366 days.
\<close>

theorem minted_lifetime_bounded:
  assumes "mint E I now rq = Inr c"
  shows "0 < expires_at c - issued_at c \<and> expires_at c - issued_at c \<le> MAX_TTL_SECONDS"
  by (rule mint_lifetime[OF assms])

theorem minted_lifetime_bounded_witness: "0 < expires_at parent0 - issued_at parent0"
  using minted_lifetime_bounded[OF mint_parent0] by blast

text \<open>
  A strict issuer mints only with a PROVEN proof, and the token then carries the three hashes of that
  proof.
\<close>

theorem strict_mint_carries_proof:
  assumes "mint E I now rq = Inr c" "iss_require_proof I"
  shows "\<exists>pr. rq_proof rq = Some pr \<and> pr_status pr = PROVEN \<and> policy_proof_hash c = PStr (pr_hash pr) \<and>
    grammar_hash c = PStr (pr_grammar_hash pr) \<and> policy_hash c = PStr (pr_policy_hash pr)"
  by (rule mint_strict[OF assms])

theorem strict_mint_carries_proof_witness: "policy_proof_hash proven0 = PStr (pr_hash proof0)"
  using strict_mint_carries_proof[OF mint_proven0] by (simp add: strict0_def)



section \<open>Signed material\<close>

text \<open>
  C23. The canonical encoding is injective up to the order of object keys: two JSON values encode to the
  same bytes exactly when they are the same JSON value.
\<close>

theorem canonical_json_injective:
  assumes "wf_val v" "wf_val w" "canonical_json E v = Inr b" "canonical_json E w = Inr b'"
  shows "b = b' \<longleftrightarrow> same_json v w"
  by (rule canonical_json_inj[OF assms])

definition two_keys :: "pyval \<times> pyval" where
  "two_keys = (PDict [(lit ''b'', PInt 1), (lit ''a'', PInt 2)], PDict [(lit ''a'', PInt 2), (lit ''b'', PInt 1)])"

lemma two_keys_bytes:
  "canonical_json env0 (fst two_keys) = Inr [123, 34, 97, 34, 58, 50, 44, 34, 98, 34, 58, 49, 125]"
  "canonical_json env0 (snd two_keys) = Inr [123, 34, 97, 34, 58, 50, 44, 34, 98, 34, 58, 49, 125]"
  by code_simp+

theorem canonical_json_injective_witness: "same_json (fst two_keys) (snd two_keys)"
  using canonical_json_injective[OF _ _ two_keys_bytes] by (simp add: two_keys_def)



text \<open>
  C25. Serialising and parsing a token gives it back: the constraints in normal form, an absent acting-for
  user as the empty string, and the post-quantum signature only with its key.
\<close>

theorem token_round_trip:
  assumes "parsed_ok c" "to_dict E c = Inr d" "normalise_constraints E (constraints c) = Inr n"
  shows "from_dict (PDict d) = Inr (reparsed c n)"
  by (rule from_dict_to_dict[OF assms])

theorem token_round_trip_witness: "\<exists>d. to_dict env0 parent0 = Inr d \<and> from_dict (PDict d) = Inr (reparsed parent0 (limit 10))"
proof -
  have "parsed_ok parent0" by (rule mint_parsed_ok[OF mint_parent0]) (simp_all add: issuer0_def)
  moreover obtain d where "to_dict env0 parent0 = Inr d" using registerE[OF register_parent0] load_ledger0
    by (metis coherent_def)
  ultimately show ?thesis using token_round_trip normalise_parent0 by blast
qed

text \<open>
  Normalisation is idempotent, so the bytes signed at minting are the bytes recomputed from the
  parsed token.
\<close>

theorem normalise_idempotent:
  assumes "normalise_constraints E c = Inr n"
  shows "normalise_constraints E n = Inr n"
  by (rule normalise_idem[OF assms])

theorem normalise_idempotent_witness: "normalise_constraints env0 (limit 10) = Inr (limit 10)"
  by (rule normalise_idempotent[OF normalise_parent0])

text \<open>
  C26. Normalisation changes no decision: the normal form permits the same arguments.
\<close>

theorem normalise_keeps_meaning:
  assumes "normalise_constraints E c = Inr n"
  shows "permits E n args \<longleftrightarrow> permits E c args"
  by (rule normalise_permits[OF assms])

theorem normalise_keeps_meaning_witness:
  "permits env0 (limit 10) (pay 3) \<longleftrightarrow> permits env0 (constraints parent0) (pay 3)"
  by (rule normalise_keeps_meaning[OF normalise_parent0])

section \<open>The delegation ledger\<close>

text \<open>
  C27. The ledger's index stays the index of its file: after a registration the in-memory records are
  exactly what reloading the extended file gives.
\<close>

theorem register_keeps_index:
  assumes "register E w st D L c dt key = Inr (D', L', h)" "coherent D L"
  shows "coherent D' L'"
  by (rule register_coherent[OF assms])

lemma coherent_ledger0: "coherent disk0 ledger0"
  by (simp add: coherent_def load_ledger0)

theorem register_keeps_index_witness: "coherent disk1 ledger1"
  by (rule register_keeps_index[OF register_parent0 coherent_ledger0])

text \<open>
  C28. Registered authority is found again and nothing else changes: the resolver answers the token's
  identifier with a token of the same signed bytes and signature, and answers every other identifier as
  before.
\<close>

theorem registered_token_resolves:
  assumes "register E w st D L c dt key = Inr (D', L', h)" "coherent D L" "parsed_ok c"
  shows "(\<exists>c'. ledger_resolver D' L' (token_id c) = Some c' \<and> signed_material E c' = signed_material E c \<and>
      signature c' = signature c) \<and>
    (\<forall>i. i \<noteq> token_id c \<longrightarrow> ledger_resolver D' L' i = ledger_resolver D L i)"
proof -
  have "ledger_add w st dt key E (D, L) c = Some (D', L')" using assms(1) by (simp add: ledger_add_Some)
  then show ?thesis using ledger.find_added[of "(D, L)"] ledger.find_other[of "(D, L)"] assms(2,3) by fastforce
qed

theorem registered_token_resolves_witness: "\<exists>c'. ledger_resolver disk1 ledger1 (token_id parent0) = Some c'"
  using registered_token_resolves[OF register_parent0 coherent_ledger0 mint_parsed_ok[OF mint_parent0]]
  by (auto simp: issuer0_def)

text \<open>
  Every token of a chain the gate verified through the ledger's resolver is the one its child cites,
  and no cited identifier is revoked.
\<close>

theorem ledger_chain_cites_unrevoked:
  assumes "coherent D L" "ancestry E G (ledger_resolver D L) c ps" "d \<in> set (c # ps)" "parent_id d = Some i" "i \<noteq> []"
  shows "i \<in> token_id ` set ps \<and> i \<notin> set (g_revoked G)"
  using ledger.cited_not_revoked[of "(D, L)"] ledger.cited_in_chain[of "(D, L)"] assms by auto

lemma ledger_chain0:
  "ancestry env0 gate0 (ledger_resolver disk1 ledger1) child0 [reparsed parent0 (limit 10)]"
proof -
  let ?p = "reparsed parent0 (limit 10)"
  have "ledger_resolver disk1 ledger1 (token_id parent0) = Some ?p"
    by (rule registered_resolves[OF register_parent0 coherent_ledger0 mint_parsed_ok[OF mint_parent0] normalise_parent0])
      (simp_all add: issuer0_def)
  moreover have "check_signature env0 gate0 ?p = Inr None" "attenuation_violation env0 child0 ?p = Inr None"
    by code_simp+
  moreover have "is_root ?p" "token_id ?p = token_id parent0" by (simp_all add: is_root_def reparsed_def parent0_def)
  ultimately show ?thesis
    by (intro ancestry.link[of _ "token_id parent0"] ancestry.root)
      (simp_all add: check_signature_pass child0_def parent0_def gate0_def)
qed

theorem ledger_chain_cites_unrevoked_witness: "token_id parent0 \<notin> set (g_revoked gate0)"
  using ledger_chain_cites_unrevoked[OF register_coherent[OF register_parent0 coherent_ledger0] ledger_chain0, of child0 "token_id parent0"]
  by (simp add: child0_def parent0_def)



text \<open>
  A scope is held exactly when the last hold or resume marker of the file for it is a hold.
\<close>

theorem hold_active_iff_last_marker:
  "row \<in> set (active_containment_holds L) \<longleftrightarrow>
     (\<exists>k. last_marker (l_control_rows L) k = Some row \<and> kind_is row ''containment_hold_active'')"
  by (rule active_holds_iff)



text \<open>
  The chain the hold check looks at is complete: for a token not yet in the ledger it contains the
  cited parent and all of the parent's recorded ancestors, and it is computed on every ledger, cyclic
  records included.
\<close>

theorem hold_chain_complete:
  assumes "map_of (l_records L) (str_of (dict_get token (lit ''token_id'') (PStr []))) = None"
    and "cited_parent (get_or_none token ''parent_id'') = Some p" "(p, j) \<in> (parent_rel L)\<^sup>*"
  shows "j \<in> set (chain_ids L token)"
  by (rule chain_ids_complete[OF assms])

theorem hold_chain_complete_witness:
  "lit ''p'' \<in> set (chain_ids ledger0 [(lit ''parent_id'', PStr (lit ''p''))])"
proof -
  have "l_records ledger0 = []" by code_simp
  then show ?thesis by (intro hold_chain_complete[where p = "lit ''p''"]) (simp_all add: dict_get_def cited_parent_def)
qed

section \<open>Argument commitments\<close>

text \<open>
  C31. A disclosure cannot lie: every value that verifies against the commitment to a call's arguments is the
  value of that argument, provided no two of the messages hashed have the same digest.
\<close>

theorem disclosure_binds_commitment:
  assumes "digest32 E" "commit_args E args = Inr committed" "wf_val (PDict args)" "wf_val (PDict disclosure)"
    and "verify_disclosure E committed disclosure = Inr out" "map_of out f = Some v"
    and "collision_free E (commit_msgs E args \<union> disclosure_msgs E disclosure)"
  shows "\<exists>w. map_of args f = Some w \<and> same_json v w"
  by (rule disclosure_sound[OF assms])

theorem disclosure_binds_commitment_witness:
  "\<exists>w. map_of args1 (lit ''to'') = Some w \<and> same_json (PStr (lit ''bob'')) w"
proof (rule disclosure_binds_commitment[OF digest32_env0 commit_args1 _ _ verify_disclosure1 _ collision_free1])
  have "wf_val path1" by code_simp
  then show "wf_val (PDict disclosure1)" by (simp add: disclosure1_def)
qed (simp_all add: args1_def)

text \<open>
  C32. An honest disclosure verifies: for any selection of fields, what \<open>disclose_args\<close> builds is accepted
  against the commitment, and yields exactly the selected arguments.
\<close>

theorem disclosure_round_trip:
  assumes "digest32 E" "commit_args E args = Inr committed"
  shows "\<exists>d out. disclose_args E args flds = Inr d \<and> verify_disclosure E committed d = Inr out \<and>
    (\<forall>f. map_of out f = (if f \<in> set flds then map_of args f else None))"
  by (rule disclosure_complete[OF assms])

theorem disclosure_round_trip_witness:
  "\<exists>d out. disclose_args env0 args1 [lit ''to''] = Inr d \<and> verify_disclosure env0 root1 d = Inr out"
  using disclosure_round_trip[OF digest32_env0 commit_args1, of "[lit ''to'']"] by blast

text \<open>
  C33. A kind of constraint counts as satisfied in the re-check exactly when every field it names was
  disclosed and its evaluator accepts the disclosed value: an undisclosed field never counts in favour.
\<close>

theorem recheck_satisfied_iff:
  assumes "recheck_constraints cs d = Inr rs" "(k, ev) \<in> set evaluators" "map_of cs k = Some (PDict c)"
  shows "map_of rs k = Some SATISFIED \<longleftrightarrow> (\<forall>kv\<in>set c. \<exists>v. map_of d (fst kv) = Some v \<and> ev v (snd kv) = Inr True)"
  by (rule recheck_satisfied[OF assms])

theorem recheck_satisfied_iff_witness:
  "map_of [(lit ''max_value'', UNKNOWN)] (lit ''max_value'') = Some SATISFIED \<longleftrightarrow>
     (\<forall>kv\<in>set [(lit ''amount'', PInt 5)]. \<exists>v. map_of ([] :: pydict) (fst kv) = Some v \<and> py_le v (snd kv) = Inr True)"
proof (rule recheck_satisfied_iff[where cs = "limit 5"])
  show "recheck_constraints (limit 5) [] = Inr [(lit ''max_value'', UNKNOWN)]" by code_simp
qed (simp_all add: evaluators_def limit_def)


section \<open>Approvals\<close>

text \<open>
  C35. An approval pays for one call: in every run of the manager, failed operations and expiries included,
  no request is consumed twice.
\<close>

theorem approval_consumed_once:
  assumes "approval_run E evs M"
  shows "length (filter (\<lambda>e. \<exists>t a h. e = Consume i t a h) evs) \<le> 1"
  by (rule consumed_once[OF assms])

theorem approval_consumed_once_witness:
  "length (filter (\<lambda>e. \<exists>t a h. e = Consume request1 t a h) events1) \<le> 1"
  by (rule approval_consumed_once[OF approval_run1])

text \<open>
  C36. A consumed call is one that was approved: the request was created for the same tool, agent and
  arguments, a human approved it, and it was not consumed before.
\<close>

theorem approval_matches_decision:
  assumes "approval_run E evs M" "consume E now i t agent args M = (Inr r, M')"
  shows "\<exists>h. args_hash E args = Inr h \<and> Create i t agent h \<in> set evs \<and> Decide i True \<in> set evs \<and>
    (\<forall>t a h. Consume i t a h \<notin> set evs)"
  by (rule consumed_approved[OF assms])

theorem approval_matches_decision_witness: "Decide request1 True \<in> set events1"
  using approval_matches_decision[OF approval_run1 consume1] by blast

section \<open>The audit chain\<close>

text \<open>
  C37. What the sink writes, its verifier accepts: after any sequence of appends, checkpoints, failed
  operations and restarts, a chain that was closed verifies without an anchor, with the number of events
  the sink counted and the mode of its signer, and verifies against its own last hash as the anchor.
\<close>

theorem audit_chain_verifies:
  assumes "digest32 E" "matched E V signer" "sink_run E signer S lines"
    and "close_sink E stamp S lines = (Inr (), S', lines')"
  shows "(\<exists>r. verify_chain E V lines' None = Inr r \<and> vr_valid r \<and> int (vr_event_count r) = hs_next_index S \<and>
      vr_signed_mode r = (if signer = None then Unsigned else Signed)) \<and>
    (hs_leaf_hashes S \<noteq> [] \<longrightarrow>
      (\<exists>r. verify_chain E V lines' (Some [(lit ''hash'', hs_prev_hash S)]) = Inr r \<and> vr_valid r))"
  using closed_chain_verifies[OF assms] closed_chain_anchored[OF assms] by blast

theorem audit_chain_verifies_witness: "\<exists>r. verify_chain env1 verifier1 file1 None = Inr r \<and> vr_valid r \<and> vr_event_count r = 1"
  using audit_chain_verifies[OF digest32_env1 matched1 sink_run1 close1] by (auto simp: sink1_def)

text \<open>
  A restart loses nothing: opening the file again gives a sink with the leaves, the index and the tail
  hash of the one that wrote it, and leaves the file as it is.
\<close>

theorem audit_resume_restores:
  assumes "digest32 E" "matched E V signer" "sink_run E signer S lines"
    and "new_sink E signer every stamp (Path (Some lines)) = Inr (T, lines')"
  shows "lines' = lines \<and> hs_leaf_hashes T = hs_leaf_hashes S \<and> hs_next_index T = hs_next_index S \<and>
    hs_prev_hash T = hs_prev_hash S"
  by (rule resume_restores[OF assms])

theorem audit_resume_restores_witness:
  "\<exists>T. new_sink env1 (Some signer1) 100 (lit ''t3'') (Path (Some file0)) = Inr (T, file0) \<and> hs_prev_hash T = PStr hash1"
proof -
  obtain T where T: "resume file0 (blank_sink (Some signer1) 100 True) = Inr T"
    using run_consistent[OF digest32_env1 matched1 sink_run1] unfolding consistent_def by metis
  then have "new_sink env1 (Some signer1) 100 (lit ''t3'') (Path (Some file0)) = Inr (T, file0)" by (simp add: new_sink_def)
  from this audit_resume_restores[OF digest32_env1 matched1 sink_run1 this] show ?thesis by (simp add: sink1_def)
qed



text \<open>
  C39. With a key, nothing after the last signature is believed: a chain that verifies is in signed mode, and
  has a checkpoint whose signature under that key covers the Merkle root and the number of all its events.
\<close>

theorem audit_key_attests:
  assumes "digest32 E" "verify_chain E V lines head = Inr r" "vr_valid r" "av_public_key V = Some key"
    and "chain_events lines \<noteq> []"
  shows "vr_signed_mode r = Signed \<and> (\<exists>d. Record (PDict d) \<in> set lines \<and> attests E key d (event_hashes lines))"
  by (rule valid_chain_attested[OF assms])

theorem audit_key_attests_witness: "\<exists>d. Record (PDict d) \<in> set file1 \<and> attests env1 (lit ''pem'') d (event_hashes file1)"
proof -
  obtain r where "verify_chain env1 verifier1 file1 None = Inr r" "vr_valid r"
    using closed_chain_verifies[OF digest32_env1 matched1 sink_run1 close1] by auto
  from audit_key_attests[OF digest32_env1 this] show ?thesis by (simp add: verifier1_def chain_events1)
qed

section \<open>Identifiers, keys and codecs\<close>

text \<open>
  C40. What an accepted agent identifier looks like: the scheme, an alphanumeric, then at most 127
  characters of the class, a dot only before an alphanumeric, and possibly one trailing newline, which
  \<open>re.match\<close> with \<open>$\<close> lets through.
\<close>

theorem agent_id_shape:
  assumes "validate_agent_id s = Inr ()"
  shows "\<exists>c t nl. s = lit ''agent:'' @ c # t @ nl \<and> lower_alnum c \<and> (nl = [] \<or> nl = [10]) \<and> length t \<le> 127 \<and>
     (\<forall>i<length t. id_interior (t ! i) (drop (Suc i) t @ nl))"
  using assms agent_id_language id_tail_language by (fastforce simp: validate_agent_id_def)

theorem agent_id_shape_witness: "\<exists>c t nl. lit ''agent:a.b'' @ [10] = lit ''agent:'' @ c # t @ nl"
proof -
  have "validate_agent_id (lit ''agent:a.b'' @ [10]) = Inr ()" by code_simp
  then show ?thesis using agent_id_shape by blast
qed

text \<open>
  A policy stays inside the fragment the prover encodes exactly when all its keys are registered
  constraint kinds other than \<open>allowed_values\<close> and \<open>starts_with\<close>.
\<close>

theorem prover_fragment_keys:
  "unmodelled_policy_keys ks = {} \<longleftrightarrow>
     ks \<subseteq> KNOWN_CONSTRAINT_KEYS - {lit ''allowed_values'', lit ''starts_with''}"
  by (rule unmodelled_policy_keys_empty_iff)

end
